(* ===== verification/Prelude.thy ===== *)
theory Prelude
  imports
    Main
    "HOL-Library.Word"
    "HOL-Library.AList"
    "HOL-Library.List_Lexorder"
    "HOL-Library.Char_ord"
    "HOL-Library.Sublist"
    "HOL-Library.Signed_Division"
begin

text \<open>
  What the components share: the Go types the source uses, the operations of Go's standard
  library the components call (package strings, the integer conversions, the header map of
  net/http), and the generic lemmas about them.

  \<^item> A Go string and a \<^verbatim>\<open>[]byte\<close> are both a \<open>string\<close>: a \<open>char\<close> of HOL is one byte.
  \<^item> \<^verbatim>\<open>int\<close>, \<^verbatim>\<open>int64\<close> and \<^verbatim>\<open>time.Duration\<close> are \<open>64 word\<close>, read with \<open>sint\<close>; \<^verbatim>\<open>int32\<close> is
    \<open>32 word\<close>; lengths and indices, which cannot leave the machine's range, are \<open>nat\<close>.
  \<^item> \<^verbatim>\<open>float64\<close> is its IEEE 754 bit pattern, a \<open>64 word\<close>.
  \<^item> A Go map is an association list without duplicate keys; the order of the list is the
    order in which a \<^verbatim>\<open>range\<close> loop meets the keys, which Go leaves open, so a theorem for every
    list is a theorem for every iteration order. A nil map and an empty map are one value
    except where a definition says otherwise.
  \<^item> A pointer the code tests against nil is an \<open>option\<close>.
\<close>

named_theorems go_simps \<open>evaluation rules for the Go operations of this theory\<close>

section \<open>Types\<close>

type_synonym bytes = string
type_synonym go_int = "64 word"
type_synonym go_int32 = "32 word"
type_synonym duration = "64 word"
type_synonym float64 = "64 word"
type_synonym ('k, 'v) gomap = "('k \<times> 'v) list"
type_synonym metadata = "(string, string) gomap"

text \<open>Error values: the ones the code compares or inspects, and a plain message otherwise.\<close>

datatype grpc_code = ResourceExhausted | Unimplemented | OtherCode string

datatype go_error =
    EOF
  | ErrShortWrite
  | ErrMsg string
  | ErrStatus grpc_code string
  | ErrWrap string go_error

fun code_text :: "grpc_code \<Rightarrow> string" where
  "code_text ResourceExhausted = ''ResourceExhausted''"
| "code_text Unimplemented = ''Unimplemented''"
| "code_text (OtherCode s) = s"

text \<open>The method \<^verbatim>\<open>Error()\<close>.\<close>

fun error_text :: "go_error \<Rightarrow> string" where
  "error_text EOF = ''EOF''"
| "error_text ErrShortWrite = ''short write''"
| "error_text (ErrMsg s) = s"
| "error_text (ErrStatus c s) = ''rpc error: code = '' @ code_text c @ '' desc = '' @ s"
| "error_text (ErrWrap s e) = s @ '': '' @ error_text e"

text \<open>The errors of \<^verbatim>\<open>sdkgo/errors.go\<close>.\<close>

definition ErrNotSupported :: go_error where "ErrNotSupported = ErrMsg ''not supported''"
definition ErrInvalidCredentials :: go_error where
  "ErrInvalidCredentials = ErrMsg ''invalid credentials''"

text \<open>
  gRPC hands the caller an error of its own for the one a handler returned: a status. Which one is
  the parameter \<open>carry\<close> of the theorems about both sides.
\<close>

definition over_grpc :: "(go_error \<Rightarrow> go_error) \<Rightarrow> go_error + 'a \<Rightarrow> go_error + 'a" where
  "over_grpc carry r = (case r of Inl e \<Rightarrow> Inl (carry e) | Inr x \<Rightarrow> Inr x)"

lemma over_grpc_simps [simp]:
  "over_grpc carry (Inl e) = Inl (carry e)" "over_grpc carry (Inr x) = Inr x"
  by (simp_all add: over_grpc_def)

lemma over_grpc_if:
  "over_grpc carry (if b then x else y) = (if b then over_grpc carry x else over_grpc carry y)"
  by simp

text \<open>What the documentation of gRPC says of it: every such error is a status.\<close>

definition status_errors :: "(go_error \<Rightarrow> go_error) \<Rightarrow> bool" where
  "status_errors carry \<longleftrightarrow> (\<forall>e. \<exists>c m. carry e = ErrStatus c m)"

section \<open>Integer conversions\<close>

definition int32_of :: "go_int \<Rightarrow> go_int32" where
  "int32_of x = ucast x"

definition int_of_int32 :: "go_int32 \<Rightarrow> go_int" where
  "int_of_int32 x = scast x"

definition fits_int32 :: "go_int \<Rightarrow> bool" where
  "fits_int32 x \<longleftrightarrow> - (2 ^ 31) \<le> sint x \<and> sint x < 2 ^ 31"

lemma sint_ucast_32: "sint (ucast (x :: 64 word) :: 32 word) = signed_take_bit 31 (sint x)"
  by transfer (simp add: signed_take_bit_eq_iff_take_bit_eq)

lemma int_of_int32_of [simp]:
  assumes "fits_int32 x"
  shows "int_of_int32 (int32_of x) = x"
proof -
  have "sint (scast (ucast x :: 32 word) :: 64 word) = sint x"
    using assms
    by (simp add: fits_int32_def sint_up_scast is_up sint_ucast_32 signed_take_bit_int_eq_self)
  then have "scast (ucast x :: 32 word) = x"
    by (rule signed_word_eqI [simplified])
  then show ?thesis
    by (simp add: int32_of_def int_of_int32_def)
qed

lemma int32_of_int_of [simp]: "int32_of (int_of_int32 y) = y"
  unfolding int32_of_def int_of_int32_def
  by transfer (simp add: take_bit_signed_take_bit)

lemma fits_int32_int_of [simp]: "fits_int32 (int_of_int32 y)"
proof -
  have "sint (int_of_int32 y) = sint y"
    by (simp add: int_of_int32_def sint_up_scast is_up)
  then show ?thesis
    using sint_range_size [of y] by (simp add: fits_int32_def word_size)
qed

text \<open>Go's integer division truncates towards zero.\<close>

definition go_div :: "go_int \<Rightarrow> go_int \<Rightarrow> go_int" where
  "go_div a b = word_of_int (sint a sdiv sint b)"

section \<open>Durations\<close>

text \<open>\<^verbatim>\<open>d.Milliseconds()\<close> and \<^verbatim>\<open>time.Duration(ms) * time.Millisecond\<close>.\<close>

definition Milliseconds :: "duration \<Rightarrow> go_int" where
  "Milliseconds d = go_div d 1000000"

definition duration_of_ms :: "go_int \<Rightarrow> duration" where
  "duration_of_ms ms = ms * 1000000"

text \<open>A duration cut to whole milliseconds, towards zero.\<close>

definition truncate_ms :: "duration \<Rightarrow> duration" where
  "truncate_ms d = duration_of_ms (Milliseconds d)"

lemma sdiv_between:
  fixes a b :: int
  assumes "0 < b"
  shows "min 0 a \<le> a sdiv b * b" and "a sdiv b * b \<le> max 0 a"
    and "min 0 a \<le> a sdiv b" and "a sdiv b \<le> max 0 a"
proof -
  have eq: "a sdiv b = sgn a * (\<bar>a\<bar> div b)"
    using assms by (simp add: signed_divide_int_def)
  have le: "\<bar>a\<bar> div b * b \<le> \<bar>a\<bar>"
    using assms by (metis div_mult_mod_eq le_add_same_cancel1 pos_mod_sign)
  have nonneg: "0 \<le> \<bar>a\<bar> div b"
    using assms by (simp add: pos_imp_zdiv_nonneg_iff)
  then have "\<bar>a\<bar> div b * 1 \<le> \<bar>a\<bar> div b * b"
    using assms by (intro mult_left_mono) auto
  then have le': "\<bar>a\<bar> div b \<le> \<bar>a\<bar>"
    using le by simp
  have nonneg': "0 \<le> \<bar>a\<bar> div b * b"
    using nonneg assms by simp
  show "min 0 a \<le> a sdiv b * b" "a sdiv b * b \<le> max 0 a"
    "min 0 a \<le> a sdiv b" "a sdiv b \<le> max 0 a"
    using le le' nonneg nonneg' unfolding eq by (auto simp: sgn_if split: if_splits)
qed

lemma sint_word_of_int_64:
  "- (2 ^ 63) \<le> k \<Longrightarrow> k < 2 ^ 63 \<Longrightarrow> sint (word_of_int k :: 64 word) = k"
  by (simp add: sint_sbintrunc' signed_take_bit_int_eq_self)

lemma sint_64_range: "- (2 ^ 63) \<le> sint (d :: 64 word)" "sint (d :: 64 word) < 2 ^ 63"
  using sint_range_size [of d] by (simp_all add: word_size)

lemma sint_Milliseconds: "sint (Milliseconds d) = sint d sdiv 1000000"
  unfolding Milliseconds_def go_div_def
  using sdiv_between(3,4) [of 1000000 "sint d"] sint_64_range [of d]
  by (subst sint_word_of_int_64) (auto simp: min_def max_def split: if_splits)

lemma sint_truncate_ms: "sint (truncate_ms d) = sint d sdiv 1000000 * 1000000"
proof -
  have "truncate_ms d = word_of_int (sint d sdiv 1000000) * word_of_int 1000000"
    by (simp add: truncate_ms_def duration_of_ms_def Milliseconds_def go_div_def)
  also have "\<dots> = word_of_int (sint d sdiv 1000000 * 1000000)"
    by (simp only: wi_hom_mult)
  finally have eq: "truncate_ms d = word_of_int (sint d sdiv 1000000 * 1000000)" .
  have "- (2 ^ 63) \<le> sint d sdiv 1000000 * 1000000"
    and "sint d sdiv 1000000 * 1000000 < 2 ^ 63"
    using sdiv_between(1,2) [of 1000000 "sint d"] sint_64_range [of d]
    by (auto simp: min_def max_def split: if_splits)
  then show ?thesis
    unfolding eq by (rule sint_word_of_int_64)
qed

text \<open>A whole number of milliseconds survives.\<close>

definition whole_ms :: "duration \<Rightarrow> bool" where
  "whole_ms d \<longleftrightarrow> 1000000 dvd sint d"

lemma sdiv_mult_exact: "0 < b \<Longrightarrow> b dvd a \<Longrightarrow> a sdiv b * b = (a :: int)"
  by (auto simp: signed_divide_int_def sgn_if abs_if elim!: dvdE split: if_splits)

lemma truncate_ms_whole [simp]: "whole_ms d \<Longrightarrow> truncate_ms d = d"
  using sint_truncate_ms [of d] sdiv_mult_exact [of 1000000 "sint d"]
  by (simp add: whole_ms_def signed_word_eqI)

lemma whole_ms_truncate [simp]: "whole_ms (truncate_ms d)"
  by (simp add: whole_ms_def sint_truncate_ms)

lemma whole_ms_0 [simp]: "whole_ms 0"
  by (simp add: whole_ms_def)

section \<open>float64\<close>

text \<open>IEEE 754 double precision: the tests the code makes, on the bit pattern.\<close>

definition f64_exponent :: "float64 \<Rightarrow> nat" where
  "f64_exponent x = unat (drop_bit 52 x) mod 2048"

definition f64_fraction :: "float64 \<Rightarrow> nat" where
  "f64_fraction x = unat x mod 2 ^ 52"

definition f64_sign :: "float64 \<Rightarrow> bool" where
  "f64_sign x \<longleftrightarrow> sint x < 0"

definition IsNaN :: "float64 \<Rightarrow> bool" where
  "IsNaN x \<longleftrightarrow> f64_exponent x = 2047 \<and> f64_fraction x \<noteq> 0"

definition IsInf :: "float64 \<Rightarrow> bool" where
  "IsInf x \<longleftrightarrow> f64_exponent x = 2047 \<and> f64_fraction x = 0"

text \<open>\<^verbatim>\<open>x < 0\<close>: false for a NaN and for both zeros.\<close>

definition f64_less_zero :: "float64 \<Rightarrow> bool" where
  "f64_less_zero x \<longleftrightarrow>
     f64_sign x \<and> \<not> IsNaN x \<and> \<not> (f64_exponent x = 0 \<and> f64_fraction x = 0)"

section \<open>Package strings\<close>

definition HasPrefix :: "string \<Rightarrow> string \<Rightarrow> bool" where
  "HasPrefix s p \<longleftrightarrow> prefix p s"

definition HasSuffix :: "string \<Rightarrow> string \<Rightarrow> bool" where
  "HasSuffix s p \<longleftrightarrow> suffix p s"

definition TrimPrefix :: "string \<Rightarrow> string \<Rightarrow> string" where
  "TrimPrefix s p = (if prefix p s then drop (length p) s else s)"

definition TrimSuffix :: "string \<Rightarrow> string \<Rightarrow> string" where
  "TrimSuffix s p = (if suffix p s then take (length s - length p) s else s)"

text \<open>
  Case mapping is the one of ASCII, which is what the HTTP methods, media types and log levels
  the code maps are made of; a byte outside ASCII is left as it is.
\<close>

definition upper_char :: "char \<Rightarrow> char" where
  "upper_char c = (if 97 \<le> (of_char c :: nat) \<and> (of_char c :: nat) \<le> 122
                   then char_of ((of_char c :: nat) - 32) else c)"

definition lower_char :: "char \<Rightarrow> char" where
  "lower_char c = (if 65 \<le> (of_char c :: nat) \<and> (of_char c :: nat) \<le> 90
                   then char_of ((of_char c :: nat) + 32) else c)"

definition ToUpper :: "string \<Rightarrow> string" where
  "ToUpper s = map upper_char s"

definition ToLower :: "string \<Rightarrow> string" where
  "ToLower s = map lower_char s"

definition EqualFold :: "string \<Rightarrow> string \<Rightarrow> bool" where
  "EqualFold s t \<longleftrightarrow> ToLower s = ToLower t"

lemma upper_char_idem [simp]: "upper_char (upper_char c) = upper_char c"
  by (auto simp: upper_char_def)

lemma ToUpper_idem [simp]: "ToUpper (ToUpper s) = ToUpper s"
  by (simp add: ToUpper_def)

lemma HasPrefix_append [simp]: "HasPrefix (p @ s) p"
  by (simp add: HasPrefix_def)

lemma TrimPrefix_append [simp]: "TrimPrefix (p @ s) p = s"
  by (simp add: TrimPrefix_def)

lemma HasPrefix_TrimPrefix: "HasPrefix s p \<Longrightarrow> p @ TrimPrefix s p = s"
  by (auto simp: HasPrefix_def TrimPrefix_def prefix_def)

subsection \<open>TrimSpace\<close>

text \<open>
  \<^verbatim>\<open>strings.TrimSpace\<close> strips the white space of Unicode. The UTF-8 encodings of those code
  points are listed here; none is a proper prefix or suffix of a decoding of another character,
  so stripping the byte sequences is stripping the characters.
\<close>

definition space_seqs :: "string list" where
  "space_seqs =
    [[CHR 0x09], [CHR 0x0A], [CHR 0x0B], [CHR 0x0C], [CHR 0x0D], [CHR 0x20],
     [CHR 0xC2, CHR 0x85], [CHR 0xC2, CHR 0xA0], [CHR 0xE1, CHR 0x9A, CHR 0x80],
     [CHR 0xE2, CHR 0x80, CHR 0x80], [CHR 0xE2, CHR 0x80, CHR 0x81],
     [CHR 0xE2, CHR 0x80, CHR 0x82], [CHR 0xE2, CHR 0x80, CHR 0x83],
     [CHR 0xE2, CHR 0x80, CHR 0x84], [CHR 0xE2, CHR 0x80, CHR 0x85],
     [CHR 0xE2, CHR 0x80, CHR 0x86], [CHR 0xE2, CHR 0x80, CHR 0x87],
     [CHR 0xE2, CHR 0x80, CHR 0x88], [CHR 0xE2, CHR 0x80, CHR 0x89],
     [CHR 0xE2, CHR 0x80, CHR 0x8A], [CHR 0xE2, CHR 0x80, CHR 0xA8],
     [CHR 0xE2, CHR 0x80, CHR 0xA9], [CHR 0xE2, CHR 0x80, CHR 0xAF],
     [CHR 0xE2, CHR 0x81, CHR 0x9F], [CHR 0xE3, CHR 0x80, CHR 0x80]]"

function strip_seqs :: "string list \<Rightarrow> string \<Rightarrow> string" where
  "strip_seqs ps s =
     (case find (\<lambda>p. p \<noteq> [] \<and> prefix p s) ps of
        None \<Rightarrow> s
      | Some p \<Rightarrow> strip_seqs ps (drop (length p) s))"
  by pat_completeness auto
termination
  by (relation "measure (\<lambda>(ps, s). length s)")
    (auto simp: find_Some_iff prefix_def)

declare strip_seqs.simps [simp del]

definition TrimSpace :: "string \<Rightarrow> string" where
  "TrimSpace s =
     (let l = strip_seqs space_seqs s
      in rev (strip_seqs (map rev space_seqs) (rev l)))"

definition no_prefix_in :: "string list \<Rightarrow> string \<Rightarrow> bool" where
  "no_prefix_in ps s \<longleftrightarrow> (\<forall>p \<in> set ps. p \<noteq> [] \<longrightarrow> \<not> prefix p s)"

lemma no_prefix_in_strip: "no_prefix_in ps (strip_seqs ps s)"
proof (induction ps s rule: strip_seqs.induct)
  case (1 ps s)
  show ?case
  proof (cases "find (\<lambda>p. p \<noteq> [] \<and> prefix p s) ps")
    case None
    then have "strip_seqs ps s = s"
      by (simp add: strip_seqs.simps [of ps s])
    with None show ?thesis
      by (auto simp: no_prefix_in_def find_None_iff)
  next
    case (Some p)
    then show ?thesis
      using 1 by (simp add: strip_seqs.simps [of ps s])
  qed
qed

lemma strip_seqs_id: "no_prefix_in ps s \<Longrightarrow> strip_seqs ps s = s"
  by (auto simp: strip_seqs.simps [of ps s] no_prefix_in_def find_Some_iff
      split: option.splits)

lemma suffix_strip_seqs: "suffix (strip_seqs ps s) s"
proof (induction ps s rule: strip_seqs.induct)
  case (1 ps s)
  show ?case
  proof (cases "find (\<lambda>p. p \<noteq> [] \<and> prefix p s) ps")
    case None
    then show ?thesis by (simp add: strip_seqs.simps [of ps s])
  next
    case (Some p)
    then have "suffix (strip_seqs ps (drop (length p) s)) (drop (length p) s)"
      using 1 by simp
    then have "suffix (strip_seqs ps (drop (length p) s)) s"
      using suffix_drop suffix_order.trans by blast
    then show ?thesis
      using Some by (simp add: strip_seqs.simps [of ps s])
  qed
qed

lemma no_prefix_in_mono: "no_prefix_in ps s \<Longrightarrow> prefix t s \<Longrightarrow> no_prefix_in ps t"
  unfolding no_prefix_in_def using prefix_order.trans by blast

text \<open>A trimmed string has no white space at either end, so trimming it again changes nothing.\<close>

definition trimmed :: "string \<Rightarrow> bool" where
  "trimmed s \<longleftrightarrow> no_prefix_in space_seqs s \<and> no_prefix_in (map rev space_seqs) (rev s)"

lemma trimmed_TrimSpace [simp]: "trimmed (TrimSpace s)"
proof -
  define l where "l = strip_seqs space_seqs s"
  define r where "r = strip_seqs (map rev space_seqs) (rev l)"
  have "suffix r (rev l)"
    by (simp add: r_def suffix_strip_seqs)
  then have "prefix (rev r) l"
    by (simp add: suffix_to_prefix)
  moreover have "no_prefix_in space_seqs l"
    by (simp add: l_def no_prefix_in_strip)
  ultimately have "no_prefix_in space_seqs (rev r)"
    by (blast intro: no_prefix_in_mono)
  moreover have "no_prefix_in (map rev space_seqs) r"
    by (simp add: r_def no_prefix_in_strip)
  ultimately show ?thesis
    by (simp add: trimmed_def TrimSpace_def Let_def l_def r_def)
qed

lemma no_prefix_inI: "\<forall>p \<in> set ps. p \<noteq> [] \<longrightarrow> hd p \<noteq> hd s \<Longrightarrow> no_prefix_in ps s"
  by (auto simp: no_prefix_in_def prefix_def)

text \<open>Enough for a string of ASCII letters and signs: neither end starts or ends a space.\<close>

lemma trimmedI:
  assumes "\<forall>p \<in> set space_seqs. hd p \<noteq> hd s" and "\<forall>p \<in> set space_seqs. last p \<noteq> last s"
  shows "trimmed s"
  unfolding trimmed_def using assms by (auto intro!: no_prefix_inI simp: hd_rev)

lemma trimmed_Nil [simp]: "trimmed []"
  by (auto simp: trimmed_def no_prefix_in_def)

lemma TrimSpace_trimmed: "trimmed s \<Longrightarrow> TrimSpace s = s"
  by (simp add: trimmed_def TrimSpace_def Let_def strip_seqs_id)

lemma TrimSpace_idem [simp]: "TrimSpace (TrimSpace s) = TrimSpace s"
  by (simp add: TrimSpace_trimmed)

section \<open>Package net/http: headers\<close>

type_synonym header = "(string, string list) gomap"

text \<open>
  \<^verbatim>\<open>textproto.CanonicalMIMEHeaderKey\<close>: the first letter and every letter after a hyphen in
  upper case, the others in lower case; a key with a byte that no header field name may have is
  left alone.
\<close>

definition token_char :: "char \<Rightarrow> bool" where
  "token_char c \<longleftrightarrow>
     (let n = (of_char c :: nat)
      in (97 \<le> n \<and> n \<le> 122) \<or> (65 \<le> n \<and> n \<le> 90) \<or> (48 \<le> n \<and> n \<le> 57) \<or>
         c \<in> set ''!#$%&*+-.^_`|~'' \<or> n = 39)"

fun canon_chars :: "bool \<Rightarrow> string \<Rightarrow> string" where
  "canon_chars up [] = []"
| "canon_chars up (c # cs) =
     (if up then upper_char c else lower_char c) # canon_chars (c = CHR ''-'') cs"

definition CanonicalHeaderKey :: "string \<Rightarrow> string" where
  "CanonicalHeaderKey k = (if list_all token_char k then canon_chars True k else k)"

definition header_values :: "header \<Rightarrow> string \<Rightarrow> string list" where
  "header_values h k = (case map_of h k of None \<Rightarrow> [] | Some vs \<Rightarrow> vs)"

definition HeaderGet :: "header \<Rightarrow> string \<Rightarrow> string" where
  "HeaderGet h k =
     (case header_values h (CanonicalHeaderKey k) of [] \<Rightarrow> [] | v # _ \<Rightarrow> v)"

definition HeaderAdd :: "string \<Rightarrow> string \<Rightarrow> header \<Rightarrow> header" where
  "HeaderAdd k v h =
     (let c = CanonicalHeaderKey k in AList.update c (header_values h c @ [v]) h)"

definition HeaderSet :: "string \<Rightarrow> string \<Rightarrow> header \<Rightarrow> header" where
  "HeaderSet k v h = AList.update (CanonicalHeaderKey k) [v] h"

text \<open>A Go map value: no key twice.\<close>

definition gomap_ok :: "('k, 'v) gomap \<Rightarrow> bool" where
  "gomap_ok m \<longleftrightarrow> distinct (map fst m)"

lemma gomap_ok_Nil [simp]: "gomap_ok []"
  by (simp add: gomap_ok_def)

lemma gomap_ok_update [simp]: "gomap_ok m \<Longrightarrow> gomap_ok (AList.update k v m)"
  by (simp add: gomap_ok_def distinct_update)

lemma gomap_ok_delete [simp]: "gomap_ok m \<Longrightarrow> gomap_ok (AList.delete k m)"
  by (simp add: gomap_ok_def distinct_delete)

lemma gomap_ok_HeaderAdd [simp]: "gomap_ok h \<Longrightarrow> gomap_ok (HeaderAdd k v h)"
  by (simp add: HeaderAdd_def Let_def)

lemma gomap_ok_HeaderSet [simp]: "gomap_ok h \<Longrightarrow> gomap_ok (HeaderSet k v h)"
  by (simp add: HeaderSet_def)

text \<open>The loop that adds every value of a header map to another header.\<close>

definition add_all :: "header \<Rightarrow> header \<Rightarrow> header" where
  "add_all src h = fold (\<lambda>(k, vs). fold (HeaderAdd k) vs) src h"

lemma gomap_ok_fold_HeaderAdd: "gomap_ok h \<Longrightarrow> gomap_ok (fold (HeaderAdd k) vs h)"
  by (induction vs arbitrary: h) simp_all

lemma gomap_ok_add_all [simp]: "gomap_ok h \<Longrightarrow> gomap_ok (add_all src h)"
  by (induction src arbitrary: h) (auto simp: add_all_def gomap_ok_fold_HeaderAdd)

end
