(* ===== verification/Outcome.thy ===== *)
theory Outcome
  imports Prelude
begin

text \<open>
  The verdict a plugin returns for one Forward call: \<^verbatim>\<open>sdkgo/outcome.go\<close> and the settlement
  quotes of \<^verbatim>\<open>sdkgo/billing.go\<close>. The lemmas fix which verdicts let the host replay a request
  and what a valid quote is.
\<close>

section \<open>Verdicts\<close>

text \<open>
  \<^verbatim>\<open>OutcomeKind\<close> is a Go \<^verbatim>\<open>int\<close>, so a plugin can return a number that no constant names;
  \<open>OutcomeOther n\<close> is such a number.
\<close>

datatype OutcomeKind =
    OutcomeUnknown
  | OutcomeSuccess
  | OutcomeClientError
  | OutcomeAccountRateLimited
  | OutcomeAccountDead
  | OutcomeUpstreamTransient
  | OutcomeStreamAborted
  | OutcomeFamilyTransient
  | OutcomeAccountUnavailable
  | OutcomeAccountQuotaExhausted
  | OutcomeOther go_int

definition OutcomeKind_String :: "OutcomeKind \<Rightarrow> string" where
  "OutcomeKind_String k =
     (case k of
        OutcomeSuccess \<Rightarrow> ''success''
      | OutcomeClientError \<Rightarrow> ''client_error''
      | OutcomeAccountRateLimited \<Rightarrow> ''account_rate_limited''
      | OutcomeAccountDead \<Rightarrow> ''account_dead''
      | OutcomeUpstreamTransient \<Rightarrow> ''upstream_transient''
      | OutcomeStreamAborted \<Rightarrow> ''stream_aborted''
      | OutcomeFamilyTransient \<Rightarrow> ''family_transient''
      | OutcomeAccountUnavailable \<Rightarrow> ''account_unavailable''
      | OutcomeAccountQuotaExhausted \<Rightarrow> ''account_quota_exhausted''
      | _ \<Rightarrow> ''unknown'')"

definition IsSuccess :: "OutcomeKind \<Rightarrow> bool" where
  "IsSuccess k \<longleftrightarrow> k = OutcomeSuccess"

definition IsAccountFault :: "OutcomeKind \<Rightarrow> bool" where
  "IsAccountFault k \<longleftrightarrow>
     k = OutcomeAccountRateLimited \<or> k = OutcomeAccountDead \<or> k = OutcomeAccountUnavailable \<or>
     k = OutcomeAccountQuotaExhausted \<or> k = OutcomeFamilyTransient"

definition Kind_ShouldFailover :: "OutcomeKind \<Rightarrow> bool" where
  "Kind_ShouldFailover k =
     (case k of
        OutcomeAccountRateLimited \<Rightarrow> True
      | OutcomeAccountDead \<Rightarrow> True
      | OutcomeUpstreamTransient \<Rightarrow> True
      | OutcomeAccountUnavailable \<Rightarrow> True
      | OutcomeAccountQuotaExhausted \<Rightarrow> True
      | OutcomeFamilyTransient \<Rightarrow> True
      | _ \<Rightarrow> False)"

type_synonym FailoverScope = string

definition FailoverScopeNone :: FailoverScope where
  "FailoverScopeNone = []"
definition FailoverScopeTerminal :: FailoverScope where
  "FailoverScopeTerminal = ''terminal''"
definition FailoverScopeDispatchCandidate :: FailoverScope where
  "FailoverScopeDispatchCandidate = ''dispatch_candidate''"
definition FailoverScopeModelReroute :: FailoverScope where
  "FailoverScopeModelReroute = ''model_reroute''"

type_synonym ModelFallbackReason = string

definition ModelFallbackContextWindow :: ModelFallbackReason where
  "ModelFallbackContextWindow = ''context_window''"

section \<open>Settlement quotes\<close>

record BillingAdjustments =
  ChargeOverride :: "float64 option"
  ChargeAddon :: "float64 option"
  APIKeyBaseCost :: "float64 option"

definition billing_bad :: "float64 option \<Rightarrow> bool" where
  "billing_bad v = (case v of None \<Rightarrow> False | Some x \<Rightarrow> f64_less_zero x \<or> IsNaN x \<or> IsInf x)"

fun validate_fields :: "(string \<times> float64 option) list \<Rightarrow> go_error option" where
  "validate_fields [] = None"
| "validate_fields ((name, v) # fs) =
     (if billing_bad v
      then Some (ErrMsg (''billing.'' @ name @ '' must be finite and nonnegative''))
      else validate_fields fs)"

definition Billing_Validate :: "BillingAdjustments option \<Rightarrow> go_error option" where
  "Billing_Validate b =
     (case b of
        None \<Rightarrow> None
      | Some b \<Rightarrow> validate_fields
          [(''charge_override'', ChargeOverride b), (''charge_addon'', ChargeAddon b),
           (''api_key_base_cost'', APIKeyBaseCost b)])"

lemma validate_fields_None: "validate_fields fs = None \<longleftrightarrow> (\<forall>(n, v) \<in> set fs. \<not> billing_bad v)"
  by (induction fs rule: validate_fields.induct) auto

section \<open>The outcome record\<close>

record UpstreamResponse =
  up_StatusCode :: go_int
  up_Headers :: header
  up_Body :: bytes

record OutboundRequestDiagnostic =
  rd_Transport :: string
  rd_Method :: string
  rd_URL :: string
  rd_Headers :: header
  rd_Body :: bytes
  rd_StatusCode :: go_int
  rd_BodyOriginalSize :: go_int

record FinalErrorDiagnostic =
  OutboundRequests :: "OutboundRequestDiagnostic list"
  UpstreamErrorBody :: bytes

record Usage =
  us_Model :: string
  us_AccountCost :: float64
  us_UserCost :: float64
  us_BillingMultiplier :: float64
  us_Currency :: string
  us_Summary :: string
  us_FirstEventMs :: go_int
  us_FirstTokenMs :: go_int
  us_WSDialMs :: go_int
  us_InputTokens :: go_int
  us_OutputTokens :: go_int
  us_CachedInputTokens :: go_int
  us_CacheCreationTokens :: go_int
  us_ReasoningOutputTokens :: go_int
  us_ReasoningEffort :: string
  us_InputPrice :: float64
  us_OutputPrice :: float64
  us_CachedInputPrice :: float64
  us_CacheCreationPrice :: float64
  us_InputCost :: float64
  us_OutputCost :: float64
  us_CachedInputCost :: float64
  us_CacheCreationCost :: float64
  us_Metadata :: metadata
  us_Billing :: "BillingAdjustments option"

record ForwardOutcome =
  Kind :: OutcomeKind
  FailoverScope :: FailoverScope
  ModelFallbackReason :: ModelFallbackReason
  Upstream :: UpstreamResponse
  fo_Usage :: "Usage option"
  Duration :: duration
  RetryAfter :: duration
  Reason :: string
  UpdatedCredentials :: metadata
  FinalErrorDiagnostic :: "FinalErrorDiagnostic option"
  SafetyRejected :: bool

text \<open>The zero values \<^verbatim>\<open>UpstreamResponse{}\<close> and \<^verbatim>\<open>ForwardOutcome{}\<close>.\<close>

definition zero_upstream :: UpstreamResponse where
  "zero_upstream = \<lparr>up_StatusCode = 0, up_Headers = [], up_Body = []\<rparr>"

definition zero_outcome :: ForwardOutcome where
  "zero_outcome =
     \<lparr>Kind = OutcomeUnknown, FailoverScope = [], ModelFallbackReason = [],
      Upstream = zero_upstream, fo_Usage = None, Duration = 0, RetryAfter = 0, Reason = [],
      UpdatedCredentials = [], FinalErrorDiagnostic = None, SafetyRejected = False\<rparr>"

definition Outcome_ShouldFailover :: "ForwardOutcome \<Rightarrow> bool" where
  "Outcome_ShouldFailover o' \<longleftrightarrow>
     FailoverScope o' \<noteq> FailoverScopeTerminal \<and> Kind_ShouldFailover (Kind o')"

definition RequestsModelFallback :: "ForwardOutcome \<Rightarrow> bool" where
  "RequestsModelFallback o' \<longleftrightarrow>
     Kind o' = OutcomeClientError \<and> FailoverScope o' = FailoverScopeModelReroute \<and>
     ModelFallbackReason o' = ModelFallbackContextWindow"

section \<open>Lemmas\<close>

lemma IsAccountFault_ShouldFailover: "IsAccountFault k \<Longrightarrow> Kind_ShouldFailover k"
  by (auto simp: IsAccountFault_def Kind_ShouldFailover_def)

lemma Kind_ShouldFailover_iff:
  "Kind_ShouldFailover k \<longleftrightarrow> IsAccountFault k \<or> k = OutcomeUpstreamTransient"
  by (cases k) (auto simp: IsAccountFault_def Kind_ShouldFailover_def)

lemma billing_bad_bits:
  "billing_bad (Some x) \<longleftrightarrow>
     f64_exponent x = 2047 \<or>
     f64_sign x \<and> \<not> (f64_exponent x = 0 \<and> f64_fraction x = 0)"
  by (auto simp: billing_bad_def f64_less_zero_def IsNaN_def IsInf_def)

text \<open>
  A settlement quote is accepted exactly when every quote that is set is a finite number
  that is not below zero, read on the IEEE 754 bits (a negative zero is accepted, a NaN or an
  infinity of either sign is not); a rejection names the first offending field.
\<close>

lemma Billing_Validate_first_bad:
  "Billing_Validate (Some b) =
     (if billing_bad (ChargeOverride b)
      then Some (ErrMsg ''billing.charge_override must be finite and nonnegative'')
      else if billing_bad (ChargeAddon b)
      then Some (ErrMsg ''billing.charge_addon must be finite and nonnegative'')
      else if billing_bad (APIKeyBaseCost b)
      then Some (ErrMsg ''billing.api_key_base_cost must be finite and nonnegative'')
      else None) \<and>
   (billing_bad (Some x) \<longleftrightarrow>
      f64_exponent x = 2047 \<or> f64_sign x \<and> \<not> (f64_exponent x = 0 \<and> f64_fraction x = 0))"
  by (simp add: Billing_Validate_def billing_bad_bits)

text \<open>
  The two ways a verdict can ask the host to send the request again exclude each other, and
  neither is taken for a verdict that says the client already has its answer (a success, a
  client error without a reroute, an aborted stream), that no constant names, or whose scope is
  terminal.
\<close>

lemma replay_requests_exclusive:
  "\<not> (Outcome_ShouldFailover o' \<and> RequestsModelFallback o') \<and>
   (FailoverScope o' = FailoverScopeTerminal \<longrightarrow>
      \<not> Outcome_ShouldFailover o' \<and> \<not> RequestsModelFallback o') \<and>
   (Kind o' \<in> {OutcomeUnknown, OutcomeSuccess, OutcomeStreamAborted} \<union> range OutcomeOther \<longrightarrow>
      \<not> Outcome_ShouldFailover o' \<and> \<not> RequestsModelFallback o') \<and>
   (Outcome_ShouldFailover o' \<longleftrightarrow>
      FailoverScope o' \<noteq> FailoverScopeTerminal \<and>
      (IsAccountFault (Kind o') \<or> Kind o' = OutcomeUpstreamTransient))"
  by (auto simp: Outcome_ShouldFailover_def RequestsModelFallback_def Kind_ShouldFailover_iff
      IsAccountFault_def FailoverScopeModelReroute_def FailoverScopeTerminal_def)

end
