(* ===== verification/Capability.thy ===== *)
theory Capability
  imports Prelude
begin

text \<open>
  Capabilities a plugin declares and the self-check of them: \<^verbatim>\<open>sdkgo/capability.go\<close>, with the
  plugin types of \<^verbatim>\<open>sdkgo/plugin.go\<close>. The lemmas give the self-check as three sorted sets that
  split what was declared.
\<close>

section \<open>Types and tables\<close>

type_synonym PluginType = string
type_synonym Capability = string

definition PluginTypeGateway :: PluginType where "PluginTypeGateway = ''gateway''"
definition PluginTypeExtension :: PluginType where "PluginTypeExtension = ''extension''"
definition PluginTypeMiddleware :: PluginType where "PluginTypeMiddleware = ''middleware''"

definition CapabilityHostInvoke :: Capability where
  "CapabilityHostInvoke = ''host.invoke''"

definition CapabilityMiddlewareReadBody :: Capability where
  "CapabilityMiddlewareReadBody = ''middleware.read_body''"

definition hostInvokeMethodCapabilityPrefix :: string where
  "hostInvokeMethodCapabilityPrefix = ''host.invoke.''"

definition CapabilityForHostMethod :: "string \<Rightarrow> Capability" where
  "CapabilityForHostMethod m =
     (if m = [] then CapabilityHostInvoke else hostInvokeMethodCapabilityPrefix @ m)"

definition capabilityAllowedTypes :: "(Capability, (PluginType, bool) gomap) gomap" where
  "capabilityAllowedTypes =
     [(CapabilityHostInvoke,
         [(PluginTypeGateway, True), (PluginTypeExtension, True), (PluginTypeMiddleware, True)]),
      (CapabilityMiddlewareReadBody, [(PluginTypeMiddleware, True)])]"

definition isHostInvokeMethodCapability :: "Capability \<Rightarrow> bool" where
  "isHostInvokeMethodCapability c \<longleftrightarrow>
     HasPrefix c hostInvokeMethodCapabilityPrefix \<and>
     length c > length hostInvokeMethodCapabilityPrefix"

definition IsKnownCapability :: "Capability \<Rightarrow> bool" where
  "IsKnownCapability c \<longleftrightarrow>
     isHostInvokeMethodCapability c \<or> map_of capabilityAllowedTypes c \<noteq> None"

definition KnownCapabilities :: "Capability list" where
  "KnownCapabilities = sort (map fst capabilityAllowedTypes)"

text \<open>The two results of the Go function as one option: \<open>None\<close> when it reports false.\<close>

definition allowedPluginTypesForCapability :: "Capability \<Rightarrow> (PluginType, bool) gomap option" where
  "allowedPluginTypesForCapability c =
     (if isHostInvokeMethodCapability c
      then Some (case map_of capabilityAllowedTypes CapabilityHostInvoke of
                   None \<Rightarrow> [] | Some ts \<Rightarrow> ts)
      else map_of capabilityAllowedTypes c)"

text \<open>Reading a missing key of a \<^verbatim>\<open>map[PluginType]bool\<close> gives false.\<close>

definition type_allowed :: "(PluginType, bool) gomap \<Rightarrow> PluginType \<Rightarrow> bool" where
  "type_allowed ts t = (case map_of ts t of None \<Rightarrow> False | Some b \<Rightarrow> b)"

section \<open>The self-check\<close>

record CapabilityValidationReport =
  Effective :: "Capability list"
  Unknown :: "Capability list"
  Denied :: "Capability list"

definition HasIssues :: "CapabilityValidationReport \<Rightarrow> bool" where
  "HasIssues r \<longleftrightarrow> length (Unknown r) > 0 \<or> length (Denied r) > 0"

fun validate_loop ::
  "PluginType \<Rightarrow> Capability list \<Rightarrow> Capability list \<Rightarrow> CapabilityValidationReport
     \<Rightarrow> CapabilityValidationReport" where
  "validate_loop pt seen [] r = r"
| "validate_loop pt seen (c # cs) r =
     (if c \<in> set seen then validate_loop pt seen cs r
      else
        (case allowedPluginTypesForCapability c of
           None \<Rightarrow> validate_loop pt (c # seen) cs (r\<lparr>Unknown := Unknown r @ [c]\<rparr>)
         | Some ts \<Rightarrow>
             if \<not> type_allowed ts pt
             then validate_loop pt (c # seen) cs (r\<lparr>Denied := Denied r @ [c]\<rparr>)
             else validate_loop pt (c # seen) cs (r\<lparr>Effective := Effective r @ [c]\<rparr>)))"

definition ValidateCapabilities ::
  "PluginType \<Rightarrow> Capability list \<Rightarrow> CapabilityValidationReport" where
  "ValidateCapabilities pt declared =
     (let r = validate_loop pt [] declared \<lparr>Effective = [], Unknown = [], Denied = []\<rparr>
      in \<lparr>Effective = sort (Effective r), Unknown = sort (Unknown r), Denied = sort (Denied r)\<rparr>)"

section \<open>Abstract specification\<close>

text \<open>The three classes, as predicates on one capability.\<close>

definition cap_allowed :: "PluginType \<Rightarrow> Capability \<Rightarrow> bool" where
  "cap_allowed pt c =
     (case allowedPluginTypesForCapability c of None \<Rightarrow> False | Some ts \<Rightarrow> type_allowed ts pt)"

lemma IsKnownCapability_iff: "IsKnownCapability c \<longleftrightarrow> allowedPluginTypesForCapability c \<noteq> None"
  by (simp add: IsKnownCapability_def allowedPluginTypesForCapability_def)

lemma cap_allowed_known: "cap_allowed pt c \<Longrightarrow> IsKnownCapability c"
  by (auto simp: cap_allowed_def IsKnownCapability_iff split: option.splits)

definition class_of :: "PluginType \<Rightarrow> Capability list \<Rightarrow> CapabilityValidationReport" where
  "class_of pt cs =
     \<lparr>Effective = filter (cap_allowed pt) cs,
      Unknown = filter (\<lambda>c. \<not> IsKnownCapability c) cs,
      Denied = filter (\<lambda>c. IsKnownCapability c \<and> \<not> cap_allowed pt c) cs\<rparr>"

text \<open>What the loop has met, in the order of first occurrence.\<close>

fun dedup :: "'a list \<Rightarrow> 'a list \<Rightarrow> 'a list" where
  "dedup seen [] = []"
| "dedup seen (c # cs) = (if c \<in> set seen then dedup seen cs else c # dedup (c # seen) cs)"

lemma set_dedup: "set (dedup seen cs) = set cs - set seen"
  by (induction seen cs rule: dedup.induct) auto

lemma distinct_dedup: "distinct (dedup seen cs)"
  by (induction seen cs rule: dedup.induct) (auto simp: set_dedup)

lemma validate_loop_eq:
  "validate_loop pt seen cs r =
     \<lparr>Effective = Effective r @ Effective (class_of pt (dedup seen cs)),
      Unknown = Unknown r @ Unknown (class_of pt (dedup seen cs)),
      Denied = Denied r @ Denied (class_of pt (dedup seen cs))\<rparr>"
proof (induction pt seen cs r rule: validate_loop.induct)
  case (1 pt seen r)
  then show ?case by (simp add: class_of_def)
next
  case (2 pt seen c cs r)
  then show ?case
    by (auto simp: class_of_def cap_allowed_def IsKnownCapability_iff split: option.splits)
qed

lemma ValidateCapabilities_eq:
  "ValidateCapabilities pt declared =
     \<lparr>Effective = sort (filter (cap_allowed pt) (dedup [] declared)),
      Unknown = sort (filter (\<lambda>c. \<not> IsKnownCapability c) (dedup [] declared)),
      Denied = sort (filter (\<lambda>c. IsKnownCapability c \<and> \<not> cap_allowed pt c) (dedup [] declared))\<rparr>"
  by (simp add: ValidateCapabilities_def validate_loop_eq class_of_def Let_def)

lemma sorted_distinct_filter_dedup:
  "sorted (sort (filter P (dedup [] cs)))" "distinct (sort (filter P (dedup [] cs)))"
  "set (sort (filter P (dedup [] cs))) = {c \<in> set cs. P c}"
  by (auto simp: distinct_dedup set_dedup)

lemma CapabilityForHostMethod_known: "IsKnownCapability (CapabilityForHostMethod m)"
  by (auto simp: IsKnownCapability_def CapabilityForHostMethod_def isHostInvokeMethodCapability_def
      capabilityAllowedTypes_def)

lemma CapabilityForHostMethod_inj: "CapabilityForHostMethod m = CapabilityForHostMethod m' \<Longrightarrow> m = m'"
  by (auto simp: CapabilityForHostMethod_def hostInvokeMethodCapabilityPrefix_def
      CapabilityHostInvoke_def split: if_splits)

section \<open>Properties\<close>

lemma sort_filter_dedup:
  "sort (filter P (dedup [] cs)) = sorted_list_of_set {c \<in> set cs. P c}"
  using sorted_distinct_filter_dedup [of P cs]
  by (metis sorted_list_of_set.idem_if_sorted_distinct)

text \<open>
  C9: The capability self-check of a plugin reports three sorted lists without repetitions:
  the declared capabilities the plugin's type may use, the ones no table and no
  \<open>host.invoke.\<close> prefix knows, and the known ones its type may not use. They depend only on
  which capabilities are declared, not on their order or on repetitions, and every declared
  capability is in exactly one of them.
\<close>

theorem ValidateCapabilities_partition:
  "ValidateCapabilities pt declared =
     \<lparr>Effective = sorted_list_of_set {c \<in> set declared. cap_allowed pt c},
      Unknown = sorted_list_of_set {c \<in> set declared. \<not> IsKnownCapability c},
      Denied = sorted_list_of_set {c \<in> set declared. IsKnownCapability c \<and> \<not> cap_allowed pt c}\<rparr> \<and>
   set declared = set (Effective (ValidateCapabilities pt declared)) \<union>
     set (Unknown (ValidateCapabilities pt declared)) \<union>
     set (Denied (ValidateCapabilities pt declared)) \<and>
   set (Effective (ValidateCapabilities pt declared)) \<inter>
     set (Unknown (ValidateCapabilities pt declared)) = {}"
proof -
  have eq: "ValidateCapabilities pt declared =
     \<lparr>Effective = sorted_list_of_set {c \<in> set declared. cap_allowed pt c},
      Unknown = sorted_list_of_set {c \<in> set declared. \<not> IsKnownCapability c},
      Denied = sorted_list_of_set {c \<in> set declared. IsKnownCapability c \<and> \<not> cap_allowed pt c}\<rparr>"
    by (simp add: ValidateCapabilities_eq sort_filter_dedup)
  show ?thesis
    unfolding eq by (auto dest: cap_allowed_known)
qed

end
