(* ===== verification/AccountPlan.thy ===== *)
theory AccountPlan
  imports Prelude
begin

text \<open>
  The OAuth account plans a plugin declares: \<^verbatim>\<open>sdkgo/account_plan.go\<close>. \<open>NormalizeAccountPlans\<close>
  is the boundary where a declaration is checked and brought into normal form; the lemmas give
  the invariant of that form and that normalising is a projection onto it.
\<close>

type_synonym AccountPlanMatch = string

definition AccountPlanExact :: AccountPlanMatch where "AccountPlanExact = ''exact''"
definition AccountPlanContains :: AccountPlanMatch where "AccountPlanContains = ''contains''"
definition AccountPlanNormalizedContains :: AccountPlanMatch where
  "AccountPlanNormalizedContains = ''normalized_contains''"

record AccountPlan =
  ap_Key :: string
  ap_Label :: string
  ap_CredentialKey :: string
  ap_MatchMode :: AccountPlanMatch
  ap_Matches :: "string list"

text \<open>One constructor per \<^verbatim>\<open>fmt.Errorf\<close>, with the values it prints.\<close>

datatype plan_error =
    InvalidKey string
  | MixedCredentialKeys
  | InvalidMatchMode string
  | EmptyMatch string
  | EmptyNormalizedMatch string

section \<open>Operations\<close>

definition lower_letter :: "char \<Rightarrow> bool" where
  "lower_letter c \<longleftrightarrow> 97 \<le> (of_char c :: nat) \<and> (of_char c :: nat) \<le> 122"

definition upper_letter :: "char \<Rightarrow> bool" where
  "upper_letter c \<longleftrightarrow> 65 \<le> (of_char c :: nat) \<and> (of_char c :: nat) \<le> 90"

definition digit :: "char \<Rightarrow> bool" where
  "digit c \<longleftrightarrow> 48 \<le> (of_char c :: nat) \<and> (of_char c :: nat) \<le> 57"

text \<open>The regular expression \<^verbatim>\<open>^[a-z][a-z0-9_]*$\<close>.\<close>

definition accountPlanKeyPattern :: "string \<Rightarrow> bool" where
  "accountPlanKeyPattern k =
     (case k of [] \<Rightarrow> False
      | c # cs \<Rightarrow> lower_letter c \<and> list_all (\<lambda>d. lower_letter d \<or> digit d \<or> d = CHR ''_'') cs)"

definition remove_underscores :: "string \<Rightarrow> string" where
  "remove_underscores k = filter (\<lambda>c. c \<noteq> CHR ''_'') k"

definition valid_match_mode :: "AccountPlanMatch \<Rightarrow> bool" where
  "valid_match_mode m \<longleftrightarrow>
     m = AccountPlanExact \<or> m = AccountPlanContains \<or> m = AccountPlanNormalizedContains"

definition has_alnum :: "string \<Rightarrow> bool" where
  "has_alnum s \<longleftrightarrow> list_ex (\<lambda>c. lower_letter c \<or> upper_letter c \<or> digit c) s"

text \<open>The inner loop over the matches of one plan; \<open>acc\<close> is also the set \<^verbatim>\<open>seen\<close>.\<close>

fun normalize_matches ::
  "string \<Rightarrow> AccountPlanMatch \<Rightarrow> string list \<Rightarrow> string list \<Rightarrow> plan_error + string list" where
  "normalize_matches key mode [] acc = Inr acc"
| "normalize_matches key mode (v # vs) acc =
     (let v = TrimSpace v in
      if v = [] then Inl (EmptyMatch key)
      else if mode = AccountPlanNormalizedContains \<and> \<not> has_alnum v
        then Inl (EmptyNormalizedMatch key)
      else if v \<in> set acc then normalize_matches key mode vs acc
      else normalize_matches key mode vs (acc @ [v]))"

definition key_rejected :: "string list \<Rightarrow> string \<Rightarrow> bool" where
  "key_rejected keys k \<longleftrightarrow>
     (let key = remove_underscores k in
      \<not> accountPlanKeyPattern k \<or> key = ''unknown'' \<or> key = ''none'' \<or> key = ''oauth'' \<or>
      key = ''apikey'' \<or> key \<in> set keys)"

text \<open>\<^verbatim>\<open>if s == "" { s = d }\<close>.\<close>

definition or_default :: "string \<Rightarrow> string \<Rightarrow> string" where
  "or_default s d = (if s = [] then d else s)"

definition plan_values :: "string \<Rightarrow> AccountPlan \<Rightarrow> string list" where
  "plan_values k plan = (if length (ap_Matches plan) = 0 then [k] else ap_Matches plan)"

text \<open>The body of the outer loop: one declaration against the keys and the credential key so far.\<close>

definition normalize_plan ::
  "string list \<Rightarrow> string \<Rightarrow> AccountPlan \<Rightarrow> plan_error + AccountPlan" where
  "normalize_plan keys credentialKey plan =
     (let k = TrimSpace (ap_Key plan);
          label = or_default (TrimSpace (ap_Label plan)) k;
          ck = or_default (TrimSpace (ap_CredentialKey plan)) ''plan_type'';
          mode = or_default (ap_MatchMode plan) AccountPlanExact
      in
      if key_rejected keys k then Inl (InvalidKey k)
      else if credentialKey \<noteq> [] \<and> credentialKey \<noteq> ck then Inl MixedCredentialKeys
      else if \<not> valid_match_mode mode then Inl (InvalidMatchMode mode)
      else
        (case normalize_matches k mode (plan_values k plan) [] of
           Inl e \<Rightarrow> Inl e
         | Inr ms \<Rightarrow>
             Inr \<lparr>ap_Key = k, ap_Label = label, ap_CredentialKey = ck, ap_MatchMode = mode,
                  ap_Matches = ms\<rparr>))"

fun normalize_loop ::
  "AccountPlan list \<Rightarrow> string list \<Rightarrow> string \<Rightarrow> AccountPlan list
     \<Rightarrow> plan_error + AccountPlan list" where
  "normalize_loop [] keys credentialKey result = Inr result"
| "normalize_loop (plan # plans) keys credentialKey result =
     (case normalize_plan keys credentialKey plan of
        Inl e \<Rightarrow> Inl e
      | Inr p \<Rightarrow>
          normalize_loop plans (remove_underscores (ap_Key p) # keys) (ap_CredentialKey p)
            (result @ [p]))"

definition NormalizeAccountPlans :: "AccountPlan list \<Rightarrow> plan_error + AccountPlan list" where
  "NormalizeAccountPlans plans = normalize_loop plans [] [] []"

section \<open>The normal form\<close>

definition match_ok :: "AccountPlanMatch \<Rightarrow> string \<Rightarrow> bool" where
  "match_ok mode v \<longleftrightarrow>
     trimmed v \<and> v \<noteq> [] \<and> (mode = AccountPlanNormalizedContains \<longrightarrow> has_alnum v)"

definition plan_normal :: "AccountPlan \<Rightarrow> bool" where
  "plan_normal p \<longleftrightarrow>
     trimmed (ap_Key p) \<and> \<not> key_rejected [] (ap_Key p) \<and>
     trimmed (ap_Label p) \<and> ap_Label p \<noteq> [] \<and>
     trimmed (ap_CredentialKey p) \<and> ap_CredentialKey p \<noteq> [] \<and>
     valid_match_mode (ap_MatchMode p) \<and>
     ap_Matches p \<noteq> [] \<and> distinct (ap_Matches p) \<and>
     list_all (match_ok (ap_MatchMode p)) (ap_Matches p)"

abbreviation plan_ids :: "AccountPlan list \<Rightarrow> string list" where
  "plan_ids ps \<equiv> map (\<lambda>p. remove_underscores (ap_Key p)) ps"

definition plans_normal :: "AccountPlan list \<Rightarrow> bool" where
  "plans_normal ps \<longleftrightarrow>
     list_all plan_normal ps \<and> distinct (plan_ids ps) \<and>
     (\<exists>c. \<forall>p \<in> set ps. ap_CredentialKey p = c)"

subsection \<open>The matches of one plan\<close>

lemma normalize_matches_ok:
  "normalize_matches key mode vs acc = Inr ms \<Longrightarrow> distinct acc \<Longrightarrow>
   list_all (match_ok mode) acc \<Longrightarrow>
   distinct ms \<and> list_all (match_ok mode) ms \<and> set ms = set acc \<union> TrimSpace ` set vs"
proof (induction vs arbitrary: acc)
  case Nil
  then show ?case by simp
next
  case (Cons v vs)
  have ok: "match_ok mode (TrimSpace v)"
    using Cons.prems(1) by (simp add: Let_def match_ok_def split: if_splits)
  show ?case
  proof (cases "TrimSpace v \<in> set acc")
    case True
    then have "normalize_matches key mode vs acc = Inr ms"
      using Cons.prems(1) ok by (simp add: Let_def match_ok_def split: if_splits)
    from Cons.IH [OF this Cons.prems(2,3)] True show ?thesis by auto
  next
    case False
    then have "normalize_matches key mode vs (acc @ [TrimSpace v]) = Inr ms"
      using Cons.prems(1) ok by (simp add: Let_def match_ok_def split: if_splits)
    from Cons.IH [OF this] False Cons.prems(2,3) ok show ?thesis by simp
  qed
qed

lemma normalize_matches_normal:
  "distinct (acc @ vs) \<Longrightarrow> list_all (match_ok mode) vs \<Longrightarrow>
   normalize_matches key mode vs acc = Inr (acc @ vs)"
proof (induction vs arbitrary: acc)
  case Nil
  then show ?case by simp
next
  case (Cons v vs)
  then have "TrimSpace v = v" "v \<noteq> []" "mode = AccountPlanNormalizedContains \<longrightarrow> has_alnum v"
    and "v \<notin> set acc"
    by (simp_all add: match_ok_def TrimSpace_trimmed)
  moreover have "normalize_matches key mode vs (acc @ [v]) = Inr (acc @ v # vs)"
    using Cons.IH [of "acc @ [v]"] Cons.prems by simp
  ultimately show ?case by (simp add: Let_def)
qed

subsection \<open>The loop over the plans\<close>

lemma key_rejected_iff: "key_rejected ks k \<longleftrightarrow> key_rejected [] k \<or> remove_underscores k \<in> set ks"
  by (auto simp: key_rejected_def Let_def)

lemma key_accepted_nonempty: "\<not> key_rejected ks k \<Longrightarrow> k \<noteq> []"
  by (auto simp: key_rejected_def accountPlanKeyPattern_def Let_def)

text \<open>What the loop keeps of its accumulators.\<close>

definition loop_inv :: "string list \<Rightarrow> string \<Rightarrow> AccountPlan list \<Rightarrow> bool" where
  "loop_inv keys ck result \<longleftrightarrow>
     plans_normal result \<and> set keys = set (plan_ids result) \<and>
     (result = [] \<longleftrightarrow> ck = []) \<and> (\<forall>p \<in> set result. ap_CredentialKey p = ck)"

lemma loop_inv_init: "loop_inv [] [] []"
  by (simp add: loop_inv_def plans_normal_def)

lemma loop_inv_step:
  assumes "loop_inv keys ck result" and "\<not> key_rejected keys (ap_Key p)"
    and "ck = [] \<or> ck = ap_CredentialKey p" and "plan_normal p"
  shows "loop_inv (remove_underscores (ap_Key p) # keys) (ap_CredentialKey p) (result @ [p])"
proof -
  have "remove_underscores (ap_Key p) \<notin> set (plan_ids result)"
    using assms by (auto simp: key_rejected_iff [of keys] loop_inv_def)
  moreover have "\<forall>q \<in> set result. ap_CredentialKey q = ap_CredentialKey p"
    using assms by (auto simp: loop_inv_def)
  ultimately show ?thesis
    using assms by (auto simp: loop_inv_def plans_normal_def plan_normal_def)
qed

lemma trimmed_plan_type: "trimmed ''plan_type''"
  by (rule trimmedI) (simp_all add: space_seqs_def)

text \<open>One declaration that is accepted.\<close>

lemma normalize_plan_Inr:
  assumes "normalize_plan keys ck plan = Inr p"
  shows "\<not> key_rejected keys (ap_Key p)" and "ck = [] \<or> ck = ap_CredentialKey p"
    and "valid_match_mode (ap_MatchMode p)" and "ap_Key p = TrimSpace (ap_Key plan)"
    and "ap_Label p = or_default (TrimSpace (ap_Label plan)) (ap_Key p)"
    and "ap_CredentialKey p = or_default (TrimSpace (ap_CredentialKey plan)) ''plan_type''"
    and "normalize_matches (ap_Key p) (ap_MatchMode p) (plan_values (ap_Key p) plan) [] =
         Inr (ap_Matches p)"
  using assms
  by (auto simp: normalize_plan_def Let_def split: if_splits sum.splits)

lemma trimmed_or_default: "trimmed s \<Longrightarrow> trimmed d \<Longrightarrow> trimmed (or_default s d)"
  by (simp add: or_default_def)

lemma or_default_nonempty: "d \<noteq> [] \<Longrightarrow> or_default s d \<noteq> []"
  by (simp add: or_default_def)

lemma or_default_id: "s \<noteq> [] \<Longrightarrow> or_default s d = s"
  by (simp add: or_default_def)

lemma normalize_plan_ok:
  assumes "normalize_plan keys ck plan = Inr p"
  shows "plan_normal p"
proof -
  note p = normalize_plan_Inr [OF assms]
  have "distinct (ap_Matches p) \<and> list_all (match_ok (ap_MatchMode p)) (ap_Matches p) \<and>
        set (ap_Matches p) = TrimSpace ` set (plan_values (ap_Key p) plan)"
    using normalize_matches_ok [OF p(7)] by simp
  moreover have "plan_values (ap_Key p) plan \<noteq> []"
    by (simp add: plan_values_def)
  moreover have k: "ap_Key p \<noteq> []" "trimmed (ap_Key p)" "\<not> key_rejected [] (ap_Key p)"
    using p(1) key_accepted_nonempty by (auto simp: p(4) key_rejected_iff [of keys])
  moreover have "trimmed (ap_Label p)" "ap_Label p \<noteq> []"
    unfolding p(5) using k by (simp_all add: trimmed_or_default or_default_nonempty)
  moreover have "trimmed (ap_CredentialKey p)" "ap_CredentialKey p \<noteq> []"
    unfolding p(6) by (simp_all add: trimmed_or_default or_default_nonempty trimmed_plan_type)
  ultimately show ?thesis
    using p(3) by (auto simp: plan_normal_def)
qed

lemma normalize_loop_inv:
  assumes "normalize_loop plans keys ck result = Inr out" and "loop_inv keys ck result"
  shows "plans_normal out \<and>
         map ap_Key out = map ap_Key result @ map (\<lambda>p. TrimSpace (ap_Key p)) plans"
  using assms
proof (induction plans arbitrary: keys ck result)
  case Nil
  then show ?case by (simp add: loop_inv_def)
next
  case (Cons plan plans)
  then obtain p where p: "normalize_plan keys ck plan = Inr p"
    and rest: "normalize_loop plans (remove_underscores (ap_Key p) # keys) (ap_CredentialKey p)
      (result @ [p]) = Inr out"
    by (auto split: sum.splits)
  have "loop_inv (remove_underscores (ap_Key p) # keys) (ap_CredentialKey p) (result @ [p])"
    using normalize_plan_ok [OF p] normalize_plan_Inr(1,2) [OF p] Cons.prems(2)
    by (blast intro: loop_inv_step)
  from Cons.IH [OF rest this] show ?case
    using normalize_plan_Inr(4) [OF p] by simp
qed

text \<open>A declaration already in normal form is accepted unchanged.\<close>

lemma normalize_plan_normal:
  assumes "plan_normal p" and "remove_underscores (ap_Key p) \<notin> set keys"
    and "ck = [] \<or> ck = ap_CredentialKey p"
  shows "normalize_plan keys ck p = Inr p"
proof -
  have "\<not> key_rejected keys (ap_Key p)"
    using assms by (simp add: key_rejected_iff [of keys] plan_normal_def)
  moreover have "ap_MatchMode p \<noteq> []"
    using assms(1) by (auto simp: plan_normal_def valid_match_mode_def AccountPlanExact_def
        AccountPlanContains_def AccountPlanNormalizedContains_def)
  moreover have "normalize_matches (ap_Key p) (ap_MatchMode p) (ap_Matches p) [] = Inr (ap_Matches p)"
    using assms(1) normalize_matches_normal [of "[]" "ap_Matches p"] by (simp add: plan_normal_def)
  moreover have "plan_values (ap_Key p) p = ap_Matches p"
    using assms(1) by (simp add: plan_values_def plan_normal_def)
  ultimately show ?thesis
    using assms
    by (simp add: normalize_plan_def plan_normal_def TrimSpace_trimmed Let_def or_default_id)
qed

lemma normalize_loop_normal:
  assumes "plans_normal (result @ plans)" and "loop_inv keys ck result"
  shows "normalize_loop plans keys ck result = Inr (result @ plans)"
  using assms
proof (induction plans arbitrary: keys ck result)
  case Nil
  then show ?case by simp
next
  case (Cons p plans)
  have p: "plan_normal p" and fresh: "remove_underscores (ap_Key p) \<notin> set keys"
    using Cons.prems by (auto simp: plans_normal_def loop_inv_def)
  have ck: "ck = [] \<or> ck = ap_CredentialKey p"
    using Cons.prems by (cases result) (auto simp: plans_normal_def loop_inv_def)
  have "\<not> key_rejected keys (ap_Key p)"
    using p fresh by (simp add: key_rejected_iff [of keys] plan_normal_def)
  then have "loop_inv (remove_underscores (ap_Key p) # keys) (ap_CredentialKey p) (result @ [p])"
    using loop_inv_step Cons.prems(2) p ck by blast
  then show ?case
    using Cons.IH Cons.prems(1) normalize_plan_normal [OF p fresh ck] by simp
qed

section \<open>Properties\<close>

lemma NormalizeAccountPlans_idempotent:
  assumes "NormalizeAccountPlans plans = Inr out"
  shows "NormalizeAccountPlans out = Inr out"
proof -
  have "plans_normal out"
    using normalize_loop_inv [OF assms [unfolded NormalizeAccountPlans_def] loop_inv_init] by simp
  then show ?thesis
    using normalize_loop_normal [of "[]" out] loop_inv_init by (simp add: NormalizeAccountPlans_def)
qed

text \<open>
  C10: What normalising accepts is in normal form: every plan has a valid key no other plan has
  (read without underscores) and that is not a reserved word, a label, a known match mode and
  at least one match, all trimmed and the matches distinct and not empty, and all plans read
  the same credential key; the plans keep their keys and their order. Normalising is a projection:
  its result is accepted again and comes back unchanged, so the plugin's own check, the conversion
  to protobuf and the host's check of what arrives agree.
\<close>

theorem NormalizeAccountPlans_normal:
  assumes "NormalizeAccountPlans plans = Inr out"
  shows "plans_normal out \<and> map ap_Key out = map (\<lambda>p. TrimSpace (ap_Key p)) plans
    \<and> NormalizeAccountPlans out = Inr out"
  using normalize_loop_inv [OF assms [unfolded NormalizeAccountPlans_def] loop_inv_init]
    NormalizeAccountPlans_idempotent [OF assms] by simp

definition example_plan :: AccountPlan where
  "example_plan =
     \<lparr>ap_Key = ''pro'', ap_Label = ''Pro'', ap_CredentialKey = ''tier'',
      ap_MatchMode = ''exact'', ap_Matches = [''p1'', ''p2'']\<rparr>"

lemma example_normal: "plans_normal [example_plan]"
  by (auto simp: plans_normal_def plan_normal_def example_plan_def key_rejected_def
      accountPlanKeyPattern_def remove_underscores_def lower_letter_def valid_match_mode_def
      AccountPlanExact_def AccountPlanNormalizedContains_def match_ok_def space_seqs_def Let_def
      intro!: trimmedI)

lemma example_accepted: "NormalizeAccountPlans [example_plan] = Inr [example_plan]"
  using normalize_loop_normal [of "[]" "[example_plan]"] example_normal loop_inv_init
  by (simp add: NormalizeAccountPlans_def)

theorem NormalizeAccountPlans_normal_witness: "plans_normal [example_plan]"
  using NormalizeAccountPlans_normal [OF example_accepted] by simp

end
