(* ===== verification/Codec.thy ===== *)
theory Codec
  imports Prelude
begin

text \<open>
  The interface between the SDK's own types and the protobuf messages of \<^verbatim>\<open>protocol/proto\<close>:
  a pair of conversions and the part of a value that survives them. Every \<^verbatim>\<open>xToProto\<close> /
  \<^verbatim>\<open>xFromProto\<close> pair of \<^verbatim>\<open>runtimego/grpc\<close> is an interpretation of \<open>wire_codec\<close>, and what the
  clients need (lists of such values, repeated fields with nil entries, values that lose
  nothing, re-encoding) is proved here once.
\<close>

locale wire_codec =
  fixes enc :: "'a \<Rightarrow> 'b" and dec :: "'b \<Rightarrow> 'a" and view :: "'a \<Rightarrow> 'a"
  assumes dec_enc: "dec (enc x) = view x"
    and enc_view: "enc (view x) = enc x"
begin

lemma view_idem: "view (view x) = view x"
  using dec_enc [of "view x"] by (simp add: enc_view dec_enc)

lemma lossless: "view x = x \<Longrightarrow> dec (enc x) = x"
  by (simp add: dec_enc)

lemma enc_dec_enc: "enc (dec (enc x)) = enc x"
  by (simp add: dec_enc enc_view)

lemma enc_eq_iff: "enc x = enc y \<longleftrightarrow> view x = view y"
  by (metis dec_enc enc_view)

lemma map_dec_enc: "map dec (map enc xs) = map view xs"
  by (simp add: dec_enc)

text \<open>A repeated message field is a list of pointers; decoding skips the nil ones.\<close>

lemma repeated_dec_enc:
  "map dec (List.map_filter (\<lambda>p. p) (map (\<lambda>x. Some (enc x)) xs)) = map view xs"
  by (induction xs) (simp_all add: map_filter_simps dec_enc)

lemma repeated_lossless:
  "\<forall>x \<in> set xs. view x = x \<Longrightarrow>
   map dec (List.map_filter (\<lambda>p. p) (map (\<lambda>x. Some (enc x)) xs)) = xs"
  by (simp add: repeated_dec_enc map_idI)

lemma option_dec_enc: "map_option dec (map_option enc v) = map_option view v"
  by (cases v) (simp_all add: dec_enc)

end

text \<open>What is left of a repeated field when nil entries are skipped.\<close>

definition non_nil :: "'a option list \<Rightarrow> 'a list" where
  "non_nil ps = List.map_filter (\<lambda>p. p) ps"

lemma non_nil_simps [simp]:
  "non_nil [] = []" "non_nil (Some x # ps) = x # non_nil ps" "non_nil (None # ps) = non_nil ps"
  by (simp_all add: non_nil_def map_filter_simps)

lemma non_nil_map_Some [simp]: "non_nil (map (\<lambda>x. Some (f x)) xs) = map f xs"
  by (induction xs) simp_all

section \<open>Headers\<close>

text \<open>
  \<^verbatim>\<open>map[string]*HeaderValues\<close>: a value is a pointer, so it can be nil. Both conversions walk the
  map and store each entry under its own key; keys are distinct, so the entries of the result are
  the entries visited, in that order.
\<close>

type_synonym pb_headers = "(string, string list option) gomap"

definition httpHeadersToProto :: "header \<Rightarrow> pb_headers" where
  "httpHeadersToProto h = map (\<lambda>(k, vs). (k, Some vs)) h"

definition protoHeadersToHTTP :: "pb_headers \<Rightarrow> header" where
  "protoHeadersToHTTP ph =
     List.map_filter (\<lambda>(k, v). case v of None \<Rightarrow> None | Some vs \<Rightarrow> Some (k, vs)) ph"

interpretation header_codec: wire_codec httpHeadersToProto protoHeadersToHTTP "\<lambda>h. h"
proof unfold_locales
  show "protoHeadersToHTTP (httpHeadersToProto h) = h" for h
    by (induction h)
      (auto simp: httpHeadersToProto_def protoHeadersToHTTP_def map_filter_simps)
qed simp

lemma gomap_ok_httpHeadersToProto [simp]: "gomap_ok (httpHeadersToProto h) = gomap_ok h"
  by (simp add: gomap_ok_def httpHeadersToProto_def comp_def case_prod_beta)

lemma gomap_ok_protoHeadersToHTTP [simp]:
  "gomap_ok ph \<Longrightarrow> gomap_ok (protoHeadersToHTTP ph)"
proof (induction ph)
  case Nil
  then show ?case by (simp add: protoHeadersToHTTP_def map_filter_simps)
next
  case (Cons p ph)
  have keys: "set (map fst (protoHeadersToHTTP qs)) \<subseteq> set (map fst qs)" for qs
    by (induction qs) (auto simp: protoHeadersToHTTP_def map_filter_simps split: option.splits)
  from Cons show ?case
    using keys [of ph]
    by (cases p) (auto simp: protoHeadersToHTTP_def map_filter_simps gomap_ok_def
        split: option.splits)
qed

end
