(* ===== verification/Dispatch.thy ===== *)
theory Dispatch
  imports Codec
begin

text \<open>
  Dispatch rules and plans: the declarations of \<^verbatim>\<open>sdkgo/dispatch.go\<close>, the messages that carry
  them (\<^verbatim>\<open>protocol/proto/plugin.pb.go\<close>) and the conversions of \<^verbatim>\<open>runtimego/grpc/common.go\<close>.
  Each pair of conversions is an interpretation of \<open>wire_codec\<close>; the only information one
  loses is the upper half of a gate's status, which the message carries in 32 bits.
\<close>

section \<open>The SDK's types\<close>

record DispatchWhen =
  dw_Methods :: "string list"
  dw_Paths :: "string list"
  dw_PathPrefixes :: "string list"
  dw_Models :: "string list"
  dw_ModelPrefixes :: "string list"
  dw_ModelSuffixes :: "string list"

record DispatchModel =
  dm_StripSuffix :: string

record DispatchCandidate =
  dc_Scheduling :: string
  dc_Wire :: string

record DispatchGate =
  dg_RequiredOperation :: string
  dg_Status :: go_int
  dg_ErrorType :: string
  dg_Code :: string
  dg_Message :: string

record DispatchRule =
  dr_ID :: string
  dr_When :: DispatchWhen
  dr_Model :: DispatchModel
  dr_Operation :: string
  dr_TimeoutProfile :: string
  dr_Gate :: DispatchGate
  dr_ContextWindowFallback :: string
  dr_Candidates :: "DispatchCandidate list"

record DispatchDSL =
  ds_Rules :: "DispatchRule list"

record DispatchPlan =
  dp_ClientModel :: string
  dp_SchedulingModel :: string
  dp_WireModel :: string
  dp_RuleID :: string
  dp_Operation :: string
  dp_TimeoutProfile :: string
  dp_Gate :: DispatchGate

text \<open>The model name that goes upstream.\<close>

definition UpstreamModel :: "DispatchPlan \<Rightarrow> string" where
  "UpstreamModel p = (if dp_WireModel p \<noteq> [] then dp_WireModel p else dp_SchedulingModel p)"

text \<open>Zero values of the structs.\<close>

definition zero_when :: DispatchWhen where
  "zero_when =
     \<lparr>dw_Methods = [], dw_Paths = [], dw_PathPrefixes = [], dw_Models = [],
      dw_ModelPrefixes = [], dw_ModelSuffixes = []\<rparr>"

definition zero_model :: DispatchModel where
  "zero_model = \<lparr>dm_StripSuffix = []\<rparr>"

definition zero_gate :: DispatchGate where
  "zero_gate =
     \<lparr>dg_RequiredOperation = [], dg_Status = 0, dg_ErrorType = [], dg_Code = [],
      dg_Message = []\<rparr>"

definition zero_plan :: DispatchPlan where
  "zero_plan =
     \<lparr>dp_ClientModel = [], dp_SchedulingModel = [], dp_WireModel = [], dp_RuleID = [],
      dp_Operation = [], dp_TimeoutProfile = [], dp_Gate = zero_gate\<rparr>"

section \<open>The messages\<close>

record DispatchWhenProto =
  pw_Methods :: "string list"
  pw_Paths :: "string list"
  pw_PathPrefixes :: "string list"
  pw_Models :: "string list"
  pw_ModelPrefixes :: "string list"
  pw_ModelSuffixes :: "string list"

record DispatchModelProto =
  pm_StripSuffix :: string

record DispatchCandidateProto =
  pc_Scheduling :: string
  pc_Wire :: string

record DispatchGateProto =
  pg_RequiredOperation :: string
  pg_Status :: go_int32
  pg_ErrorType :: string
  pg_Code :: string
  pg_Message :: string

record DispatchRuleProto =
  pr_Id :: string
  pr_When :: "DispatchWhenProto option"
  pr_Model :: "DispatchModelProto option"
  pr_Operation :: string
  pr_TimeoutProfile :: string
  pr_Gate :: "DispatchGateProto option"
  pr_ContextWindowFallback :: string
  pr_Candidates :: "DispatchCandidateProto option list"

record DispatchDSLProto =
  pd_Rules :: "DispatchRuleProto option list"

record DispatchPlanProto =
  pp_ClientModel :: string
  pp_SchedulingModel :: string
  pp_WireModel :: string
  pp_RuleId :: string
  pp_Operation :: string
  pp_TimeoutProfile :: string
  pp_Gate :: "DispatchGateProto option"

section \<open>Conversions\<close>

definition dispatchWhenFromProto :: "DispatchWhenProto option \<Rightarrow> DispatchWhen" where
  "dispatchWhenFromProto p =
     (case p of
        None \<Rightarrow> zero_when
      | Some w \<Rightarrow>
          \<lparr>dw_Methods = pw_Methods w, dw_Paths = pw_Paths w,
           dw_PathPrefixes = pw_PathPrefixes w, dw_Models = pw_Models w,
           dw_ModelPrefixes = pw_ModelPrefixes w, dw_ModelSuffixes = pw_ModelSuffixes w\<rparr>)"

definition dispatchWhenToProto :: "DispatchWhen \<Rightarrow> DispatchWhenProto option" where
  "dispatchWhenToProto w =
     Some \<lparr>pw_Methods = dw_Methods w, pw_Paths = dw_Paths w,
           pw_PathPrefixes = dw_PathPrefixes w, pw_Models = dw_Models w,
           pw_ModelPrefixes = dw_ModelPrefixes w, pw_ModelSuffixes = dw_ModelSuffixes w\<rparr>"

definition dispatchModelFromProto :: "DispatchModelProto option \<Rightarrow> DispatchModel" where
  "dispatchModelFromProto p =
     (case p of None \<Rightarrow> zero_model | Some m \<Rightarrow> \<lparr>dm_StripSuffix = pm_StripSuffix m\<rparr>)"

definition dispatchModelToProto :: "DispatchModel \<Rightarrow> DispatchModelProto option" where
  "dispatchModelToProto m = Some \<lparr>pm_StripSuffix = dm_StripSuffix m\<rparr>"

definition dispatchGateFromProto :: "DispatchGateProto option \<Rightarrow> DispatchGate" where
  "dispatchGateFromProto p =
     (case p of
        None \<Rightarrow> zero_gate
      | Some g \<Rightarrow>
          \<lparr>dg_RequiredOperation = pg_RequiredOperation g,
           dg_Status = int_of_int32 (pg_Status g), dg_ErrorType = pg_ErrorType g,
           dg_Code = pg_Code g, dg_Message = pg_Message g\<rparr>)"

definition dispatchGateToProto :: "DispatchGate \<Rightarrow> DispatchGateProto option" where
  "dispatchGateToProto g =
     Some \<lparr>pg_RequiredOperation = dg_RequiredOperation g,
           pg_Status = int32_of (dg_Status g), pg_ErrorType = dg_ErrorType g,
           pg_Code = dg_Code g, pg_Message = dg_Message g\<rparr>"

definition dispatchCandidatesFromProto ::
  "DispatchCandidateProto option list \<Rightarrow> DispatchCandidate list" where
  "dispatchCandidatesFromProto items =
     (if length items = 0 then []
      else map (\<lambda>c. \<lparr>dc_Scheduling = pc_Scheduling c, dc_Wire = pc_Wire c\<rparr>) (non_nil items))"

definition dispatchCandidatesToProto ::
  "DispatchCandidate list \<Rightarrow> DispatchCandidateProto option list" where
  "dispatchCandidatesToProto items =
     (if length items = 0 then []
      else map (\<lambda>c. Some \<lparr>pc_Scheduling = dc_Scheduling c, pc_Wire = dc_Wire c\<rparr>) items)"

text \<open>The bodies of the two loops over the rules.\<close>

definition dispatchRuleFromProto :: "DispatchRuleProto \<Rightarrow> DispatchRule" where
  "dispatchRuleFromProto r =
     \<lparr>dr_ID = pr_Id r, dr_When = dispatchWhenFromProto (pr_When r),
      dr_Model = dispatchModelFromProto (pr_Model r), dr_Operation = pr_Operation r,
      dr_TimeoutProfile = pr_TimeoutProfile r, dr_Gate = dispatchGateFromProto (pr_Gate r),
      dr_ContextWindowFallback = pr_ContextWindowFallback r,
      dr_Candidates = dispatchCandidatesFromProto (pr_Candidates r)\<rparr>"

definition dispatchRuleToProto :: "DispatchRule \<Rightarrow> DispatchRuleProto" where
  "dispatchRuleToProto r =
     \<lparr>pr_Id = dr_ID r, pr_When = dispatchWhenToProto (dr_When r),
      pr_Model = dispatchModelToProto (dr_Model r), pr_Operation = dr_Operation r,
      pr_TimeoutProfile = dr_TimeoutProfile r, pr_Gate = dispatchGateToProto (dr_Gate r),
      pr_ContextWindowFallback = dr_ContextWindowFallback r,
      pr_Candidates = dispatchCandidatesToProto (dr_Candidates r)\<rparr>"

definition dispatchDSLFromProto :: "DispatchDSLProto option \<Rightarrow> DispatchDSL" where
  "dispatchDSLFromProto p =
     (case p of
        None \<Rightarrow> \<lparr>ds_Rules = []\<rparr>
      | Some d \<Rightarrow>
          if length (pd_Rules d) = 0 then \<lparr>ds_Rules = []\<rparr>
          else \<lparr>ds_Rules = map dispatchRuleFromProto (non_nil (pd_Rules d))\<rparr>)"

definition dispatchDSLToProto :: "DispatchDSL \<Rightarrow> DispatchDSLProto option" where
  "dispatchDSLToProto d =
     (if length (ds_Rules d) = 0 then None
      else Some \<lparr>pd_Rules = map (\<lambda>r. Some (dispatchRuleToProto r)) (ds_Rules d)\<rparr>)"

definition dispatchPlanFromProto :: "DispatchPlanProto option \<Rightarrow> DispatchPlan" where
  "dispatchPlanFromProto p =
     (case p of
        None \<Rightarrow> zero_plan
      | Some d \<Rightarrow>
          \<lparr>dp_ClientModel = pp_ClientModel d, dp_SchedulingModel = pp_SchedulingModel d,
           dp_WireModel = pp_WireModel d, dp_RuleID = pp_RuleId d,
           dp_Operation = pp_Operation d, dp_TimeoutProfile = pp_TimeoutProfile d,
           dp_Gate = dispatchGateFromProto (pp_Gate d)\<rparr>)"

definition dispatchPlanToProto :: "DispatchPlan \<Rightarrow> DispatchPlanProto option" where
  "dispatchPlanToProto d =
     (if d = zero_plan then None
      else
        Some \<lparr>pp_ClientModel = dp_ClientModel d, pp_SchedulingModel = dp_SchedulingModel d,
              pp_WireModel = dp_WireModel d, pp_RuleId = dp_RuleID d,
              pp_Operation = dp_Operation d, pp_TimeoutProfile = dp_TimeoutProfile d,
              pp_Gate = dispatchGateToProto (dp_Gate d)\<rparr>)"

section \<open>What survives the wire\<close>

definition wire_int32 :: "go_int \<Rightarrow> go_int" where
  "wire_int32 x = int_of_int32 (int32_of x)"

lemma wire_int32_simps [simp]:
  "int32_of (wire_int32 x) = int32_of x" "fits_int32 x \<Longrightarrow> wire_int32 x = x"
  "wire_int32 0 = 0"
  by (simp_all add: wire_int32_def fits_int32_def)

lemma int_of_int32_wire [simp]: "int_of_int32 (int32_of x) = wire_int32 x"
  by (simp add: wire_int32_def)

definition gate_view :: "DispatchGate \<Rightarrow> DispatchGate" where
  "gate_view g = g\<lparr>dg_Status := wire_int32 (dg_Status g)\<rparr>"

definition rule_view :: "DispatchRule \<Rightarrow> DispatchRule" where
  "rule_view r = r\<lparr>dr_Gate := gate_view (dr_Gate r)\<rparr>"

definition dsl_view :: "DispatchDSL \<Rightarrow> DispatchDSL" where
  "dsl_view d = d\<lparr>ds_Rules := map rule_view (ds_Rules d)\<rparr>"

definition plan_view :: "DispatchPlan \<Rightarrow> DispatchPlan" where
  "plan_view d = d\<lparr>dp_Gate := gate_view (dp_Gate d)\<rparr>"

interpretation when_codec: wire_codec dispatchWhenToProto dispatchWhenFromProto "\<lambda>w. w"
  by unfold_locales (simp_all add: dispatchWhenToProto_def dispatchWhenFromProto_def)

interpretation model_codec: wire_codec dispatchModelToProto dispatchModelFromProto "\<lambda>m. m"
  by unfold_locales (simp_all add: dispatchModelToProto_def dispatchModelFromProto_def)

interpretation gate_codec: wire_codec dispatchGateToProto dispatchGateFromProto gate_view
  by unfold_locales (simp_all add: dispatchGateToProto_def dispatchGateFromProto_def gate_view_def)

lemma candidate_eta [simp]: "\<lparr>dc_Scheduling = dc_Scheduling c, dc_Wire = dc_Wire c\<rparr> = c"
  by simp

interpretation candidates_codec:
  wire_codec dispatchCandidatesToProto dispatchCandidatesFromProto "\<lambda>cs. cs"
  by unfold_locales
    (simp_all add: dispatchCandidatesToProto_def dispatchCandidatesFromProto_def comp_def)

interpretation rule_codec: wire_codec dispatchRuleToProto dispatchRuleFromProto rule_view
  by unfold_locales
    (simp_all add: dispatchRuleToProto_def dispatchRuleFromProto_def rule_view_def
      when_codec.dec_enc model_codec.dec_enc gate_codec.dec_enc gate_codec.enc_view
      candidates_codec.dec_enc)

interpretation dsl_codec: wire_codec dispatchDSLToProto dispatchDSLFromProto dsl_view
  by unfold_locales
    (simp_all add: dispatchDSLToProto_def dispatchDSLFromProto_def dsl_view_def
      rule_codec.dec_enc rule_codec.enc_view comp_def)

lemma gate_view_zero [simp]: "gate_view zero_gate = zero_gate"
  by (simp add: gate_view_def zero_gate_def)

text \<open>
  A plan that is not zero but whose view is (only its gate's status is set, to a multiple of
  \<open>2 ^ 32\<close>) is sent as a message and not as nil, so the pair is a codec of the plans whose
  status fits.
\<close>

lemma dispatchPlan_dec_enc: "dispatchPlanFromProto (dispatchPlanToProto d) = plan_view d"
  by (simp add: dispatchPlanFromProto_def dispatchPlanToProto_def plan_view_def
      gate_codec.dec_enc zero_plan_def)

lemma gate_view_fits: "fits_int32 (dg_Status g) \<Longrightarrow> gate_view g = g"
  by (simp add: gate_view_def)

lemma plan_view_fits: "fits_int32 (dg_Status (dp_Gate d)) \<Longrightarrow> plan_view d = d"
  by (simp add: plan_view_def gate_view_fits)

lemma rule_view_fits: "fits_int32 (dg_Status (dr_Gate r)) \<Longrightarrow> rule_view r = r"
  by (simp add: rule_view_def gate_view_fits)

lemma dsl_view_fits:
  "\<forall>r \<in> set (ds_Rules d). fits_int32 (dg_Status (dr_Gate r)) \<Longrightarrow> dsl_view d = d"
  by (simp add: dsl_view_def rule_view_fits map_idI)

text \<open>
  A dispatch declaration and a dispatch plan cross the plugin boundary unchanged as long as every
  gate's status fits in 32 bits; the empty declaration and the zero plan travel as nil.
\<close>

lemma dispatch_round_trip:
  assumes "\<forall>r \<in> set (ds_Rules dsl). fits_int32 (dg_Status (dr_Gate r))"
    and "fits_int32 (dg_Status (dp_Gate plan))"
  shows "dispatchDSLFromProto (dispatchDSLToProto dsl) = dsl \<and>
         dispatchPlanFromProto (dispatchPlanToProto plan) = plan \<and>
         (dispatchPlanToProto plan = None \<longleftrightarrow> plan = zero_plan)"
  unfolding dsl_codec.dec_enc dispatchPlan_dec_enc
  using assms by (simp add: dsl_view_fits plan_view_fits dispatchPlanToProto_def)

end
