(* ===== verification/Writer.thy ===== *)
theory Writer
  imports Outcome
begin

text \<open>
  The response writer a plugin is given (\<^verbatim>\<open>http.ResponseWriter\<close> with the optional
  \<^verbatim>\<open>BeginStreamCompletion\<close> of \<^verbatim>\<open>sdkgo/stream_completion.go\<close>) as an interface, and the plugin as a
  program over it.

  The SDK's contract (\<^verbatim>\<open>ForwardRequest.Writer\<close> in \<^verbatim>\<open>sdkgo/gateway.go\<close>) is that the goroutine of the
  call alone uses the writer and stops when the call returns, so a call is a sequence of writer
  operations that ends in a result. What a plugin does with the result of one Write is any
  function of it; a plugin that goes on after an error is a program like the others.
\<close>

section \<open>Writers\<close>

type_synonym write_result = "nat \<times> go_error option"

text \<open>
  The operations of one writer. \<open>wr_header f\<close> applies \<open>f\<close> to the map \<^verbatim>\<open>Header()\<close> returns.
\<close>

record 'w writer_ops =
  wr_header :: "(header \<Rightarrow> header) \<Rightarrow> 'w \<Rightarrow> 'w"
  wr_status :: "go_int \<Rightarrow> 'w \<Rightarrow> 'w"
  wr_write :: "bytes \<Rightarrow> 'w \<Rightarrow> write_result \<times> 'w"
  wr_begin :: "'w \<Rightarrow> 'w"

section \<open>Programs over a writer\<close>

datatype 'r writer_prog =
    Return 'r
  | OnHeader "header \<Rightarrow> header" "'r writer_prog"
  | CallWriteHeader go_int "'r writer_prog"
  | CallWrite bytes "write_result \<Rightarrow> 'r writer_prog"
  | CallBeginCompletion "'r writer_prog"

text \<open>
  Running one, with the trace of its Write calls: the data and what the call returned.
\<close>

type_synonym write_trace = "(bytes \<times> write_result) list"

primrec run_prog ::
  "'w writer_ops \<Rightarrow> 'r writer_prog \<Rightarrow> 'w \<Rightarrow> 'r \<times> 'w \<times> write_trace" where
  "run_prog ops (Return r) w = (r, w, [])"
| "run_prog ops (OnHeader f p) w = run_prog ops p (wr_header ops f w)"
| "run_prog ops (CallWriteHeader c p) w = run_prog ops p (wr_status ops c w)"
| "run_prog ops (CallBeginCompletion p) w = run_prog ops p (wr_begin ops w)"
| "run_prog ops (CallWrite d k) w =
     (let (res, w') = wr_write ops d w; (r, w'', tr) = run_prog ops (k res) w'
      in (r, w'', (d, res) # tr))"

definition written :: "write_trace \<Rightarrow> bytes" where
  "written tr = concat (map fst tr)"

lemma written_simps [simp]:
  "written [] = []" "written (x # tr) = fst x @ written tr"
  by (simp_all add: written_def)

lemma run_write_cases:
  assumes "run_prog ops (CallWrite d k) w = (r, w', tr)"
  obtains n e w1 tr' where "wr_write ops d w = ((n, e), w1)"
    and "run_prog ops (k (n, e)) w1 = (r, w', tr')" and "tr = (d, n, e) # tr'"
  using assms by (auto simp: Let_def split: prod.splits)

section \<open>The interface\<close>

text \<open>
  What a writer of this library promises: \<open>body\<close> is the data it has taken responsibility for,
  \<open>failed\<close> the error it has stopped with. A write that succeeds takes all of the data, a write
  that fails takes at most a prefix, may give up data it had only buffered, and leaves the
  writer stopped; a stopped writer takes nothing and reports the same error for ever.
\<close>

text \<open>What a program returns and writes where every Write is accepted.\<close>

primrec accepted :: "'r writer_prog \<Rightarrow> 'r \<times> bytes list" where
  "accepted (Return r) = (r, [])"
| "accepted (OnHeader f p) = accepted p"
| "accepted (CallWriteHeader c p) = accepted p"
| "accepted (CallBeginCompletion p) = accepted p"
| "accepted (CallWrite d k) = (let (r, ds) = accepted (k (length d, None)) in (r, d # ds))"

locale response_writer =
  fixes ops :: "'w writer_ops"
    and body :: "'w \<Rightarrow> bytes"
    and failed :: "'w \<Rightarrow> go_error option"
    and inv :: "'w \<Rightarrow> bool"
  assumes write_ok:
      "inv w \<Longrightarrow> wr_write ops d w = ((n, None), w') \<Longrightarrow>
         n = length d \<and> body w' = body w @ d \<and> failed w' = None \<and> failed w = None \<and> inv w'"
    and write_err:
      "inv w \<Longrightarrow> wr_write ops d w = ((n, Some e), w') \<Longrightarrow>
         n \<le> length d \<and> prefix (body w') (body w @ d) \<and> failed w' = Some e \<and> inv w'"
    and write_failed:
      "inv w \<Longrightarrow> failed w = Some e \<Longrightarrow> wr_write ops d w = ((0, Some e), w)"
    and header_keeps:
      "inv w \<Longrightarrow> body (wr_header ops f w) = body w \<and> failed (wr_header ops f w) = failed w \<and>
         inv (wr_header ops f w)"
    and status_keeps:
      "inv w \<Longrightarrow> body (wr_status ops c w) = body w \<and> failed (wr_status ops c w) = failed w \<and>
         inv (wr_status ops c w)"
    and begin_keeps:
      "inv w \<Longrightarrow> body (wr_begin ops w) = body w \<and> failed (wr_begin ops w) = failed w \<and>
         inv (wr_begin ops w)"
begin

lemma write_inv: "inv w \<Longrightarrow> wr_write ops d w = (res, w') \<Longrightarrow> inv w'"
proof -
  assume w: "inv w" "wr_write ops d w = (res, w')"
  obtain n e where res: "res = (n, e)" by force
  show "inv w'"
  proof (cases e)
    case None
    then show ?thesis using write_ok w res by blast
  next
    case (Some er)
    then show ?thesis using write_err w res by blast
  qed
qed

lemma run_inv: "inv w \<Longrightarrow> run_prog ops p w = (r, w', tr) \<Longrightarrow> inv w'"
proof (induction p arbitrary: w r w' tr)
  case (CallWrite d k)
  from CallWrite.prems(2) show ?case
  proof (rule run_write_cases)
    fix n e w1 tr'
    assume 1: "wr_write ops d w = ((n, e), w1)" "run_prog ops (k (n, e)) w1 = (r, w', tr')"
    show ?thesis
      using CallWrite.IH [OF _ write_inv [OF CallWrite.prems(1) 1(1)] 1(2)] by simp
  qed
next
  case (OnHeader f p)
  then show ?case using header_keeps by (metis run_prog.simps(2))
next
  case (CallWriteHeader c p)
  then show ?case using status_keeps by (metis run_prog.simps(3))
next
  case (CallBeginCompletion p)
  then show ?case using begin_keeps by (metis run_prog.simps(4))
qed simp

text \<open>A stopped writer stays as it is: its body, its error, and what it answers.\<close>

lemma run_failed:
  "inv w \<Longrightarrow> failed w = Some e \<Longrightarrow> run_prog ops p w = (r, w', tr) \<Longrightarrow>
   body w' = body w \<and> failed w' = Some e \<and> (\<forall>x \<in> set tr. snd x = (0, Some e))"
proof (induction p arbitrary: w r w' tr)
  case (CallWrite d k)
  note w = write_failed [OF CallWrite.prems(1,2)]
  from CallWrite.prems(3) show ?case
  proof (rule run_write_cases)
    fix n e' w1 tr'
    assume 1: "wr_write ops d w = ((n, e'), w1)" "run_prog ops (k (n, e')) w1 = (r, w', tr')"
      "tr = (d, n, e') # tr'"
    then have "w1 = w" "n = 0" "e' = Some e" using w [of d] by auto
    then show ?thesis
      using CallWrite.IH [OF _ CallWrite.prems(1,2)] 1 by fastforce
  qed
next
  case (OnHeader f p)
  then show ?case using header_keeps by (metis run_prog.simps(2))
next
  case (CallWriteHeader c p)
  then show ?case using status_keeps by (metis run_prog.simps(3))
next
  case (CallBeginCompletion p)
  then show ?case using begin_keeps by (metis run_prog.simps(4))
qed simp

text \<open>
  Conservation: after any program the writer holds exactly the data of the Write calls, all of
  which reported success, or it has stopped and holds a prefix of it.
\<close>

definition conserved :: "'w \<Rightarrow> 'w \<Rightarrow> write_trace \<Rightarrow> bool" where
  "conserved w w' tr \<longleftrightarrow>
     (case failed w' of
        None \<Rightarrow> body w' = body w @ written tr \<and> (\<forall>x \<in> set tr. snd x = (length (fst x), None))
      | Some e \<Rightarrow> prefix (body w') (body w @ written tr) \<and> (\<exists>x \<in> set tr. snd (snd x) = Some e))"

lemma conserved_cong: "body v = body w \<Longrightarrow> conserved v w' tr = conserved w w' tr"
  by (simp add: conserved_def split: option.splits)

lemma run_conserves:
  "inv w \<Longrightarrow> failed w = None \<Longrightarrow> run_prog ops p w = (r, w', tr) \<Longrightarrow> conserved w w' tr"
proof (induction p arbitrary: w r w' tr)
  case (CallWrite d k)
  from CallWrite.prems(3) show ?case
  proof (rule run_write_cases)
    fix n e w1 tr'
    assume 1: "wr_write ops d w = ((n, e), w1)" "run_prog ops (k (n, e)) w1 = (r, w', tr')"
      "tr = (d, n, e) # tr'"
    show ?thesis
    proof (cases e)
      case None
      then have ok: "n = length d" "body w1 = body w @ d" "failed w1 = None" "inv w1"
        using write_ok CallWrite.prems(1) 1(1) by blast+
      have "conserved w1 w' tr'"
        using CallWrite.IH [OF _ ok(4,3) 1(2)] by simp
      then show ?thesis
        using ok None by (auto simp: 1(3) conserved_def split: option.splits)
    next
      case (Some er)
      then have err: "prefix (body w1) (body w @ d)" "failed w1 = Some er" "inv w1"
        using write_err CallWrite.prems(1) 1(1) by blast+
      have "body w' = body w1 \<and> failed w' = Some er"
        using run_failed [OF err(3,2) 1(2)] by simp
      then show ?thesis
        using err(1) Some prefix_prefix [of "body w1" "body w @ d" "written tr'"]
        by (simp add: 1(3) conserved_def)
    qed
  qed
next
  case (OnHeader f p)
  then show ?case using header_keeps by (metis run_prog.simps(2) conserved_cong)
next
  case (CallWriteHeader c p)
  then show ?case using status_keeps by (metis run_prog.simps(3) conserved_cong)
next
  case (CallBeginCompletion p)
  then show ?case using begin_keeps by (metis run_prog.simps(4) conserved_cong)
qed (simp add: conserved_def)

text \<open>
  Once a Write has failed, every later Write of the same call takes nothing and reports the
  error of the first failure.
\<close>

lemma run_sticky:
  "inv w \<Longrightarrow> run_prog ops p w = (r, w', tr1 @ (d, n, Some e) # tr2) \<Longrightarrow>
   \<forall>x \<in> set tr2. snd x = (0, Some e)"
proof (induction p arbitrary: w r w' tr1)
  case (CallWrite d' k)
  from CallWrite.prems(2) show ?case
  proof (rule run_write_cases)
    fix n' e' w1 tr'
    assume 1: "wr_write ops d' w = ((n', e'), w1)" "run_prog ops (k (n', e')) w1 = (r, w', tr')"
      "tr1 @ (d, n, Some e) # tr2 = (d', n', e') # tr'"
    have inv1: "inv w1" using write_inv CallWrite.prems(1) 1(1) by blast
    show ?thesis
    proof (cases tr1)
      case Nil
      then have "e' = Some e" "tr' = tr2" using 1(3) by auto
      moreover have "failed w1 = Some e"
        using write_err [OF CallWrite.prems(1), of d' n' e w1] 1(1) \<open>e' = Some e\<close> by simp
      ultimately show ?thesis
        using run_failed [OF inv1 _ 1(2)] by simp
    next
      case (Cons x tr1')
      then have "tr' = tr1' @ (d, n, Some e) # tr2" using 1(3) by simp
      then show ?thesis
        using CallWrite.IH [OF _ inv1] 1(2) by blast
    qed
  qed
next
  case (OnHeader f p)
  then show ?case using header_keeps by (metis run_prog.simps(2))
next
  case (CallWriteHeader c p)
  then show ?case using status_keeps by (metis run_prog.simps(3))
next
  case (CallBeginCompletion p)
  then show ?case using begin_keeps by (metis run_prog.simps(4))
qed simp

text \<open>The error a Write reported is the one the writer ends with.\<close>

lemma run_error:
  "inv w \<Longrightarrow> run_prog ops p w = (r, w', tr) \<Longrightarrow> (d, n, Some e) \<in> set tr \<Longrightarrow>
   failed w' = Some e"
proof (induction p arbitrary: w r w' tr)
  case (CallWrite d' k)
  from CallWrite.prems(2) show ?case
  proof (rule run_write_cases)
    fix n' e' w1 tr'
    assume 1: "wr_write ops d' w = ((n', e'), w1)" "run_prog ops (k (n', e')) w1 = (r, w', tr')"
      "tr = (d', n', e') # tr'"
    have inv1: "inv w1" using write_inv CallWrite.prems(1) 1(1) by blast
    show ?thesis
    proof (cases "(d, n, Some e) \<in> set tr'")
      case True
      show ?thesis by (rule CallWrite.IH [OF _ inv1 1(2) True]) simp
    next
      case False
      then have "e' = Some e" using CallWrite.prems(3) 1(3) by simp
      then have "failed w1 = Some e"
        using write_err [OF CallWrite.prems(1), of d' n' e w1] 1(1) by simp
      then show ?thesis using run_failed [OF inv1 _ 1(2)] by simp
    qed
  qed
next
  case (OnHeader f p)
  then show ?case using header_keeps by (metis run_prog.simps(2))
next
  case (CallWriteHeader c p)
  then show ?case using status_keeps by (metis run_prog.simps(3))
next
  case (CallBeginCompletion p)
  then show ?case using begin_keeps by (metis run_prog.simps(4))
qed simp

text \<open>On a writer that does not fail a program does what it does on any other such writer.\<close>

lemma run_accepted:
  "inv w \<Longrightarrow> run_prog ops p w = (r, w', tr) \<Longrightarrow> failed w' = None \<Longrightarrow> accepted p = (r, map fst tr)"
proof (induction p arbitrary: w r w' tr)
  case (CallWrite d k)
  from CallWrite.prems(2) show ?case
  proof (rule run_write_cases)
    fix n e w1 tr'
    assume 1: "wr_write ops d w = ((n, e), w1)" "run_prog ops (k (n, e)) w1 = (r, w', tr')"
      "tr = (d, n, e) # tr'"
    have "e = None"
      using run_error [OF CallWrite.prems(1,2), of d n] 1(3) CallWrite.prems(3) by (cases e) auto
    then have "n = length d" "inv w1"
      using write_ok CallWrite.prems(1) 1(1) by blast+
    then show ?thesis
      using CallWrite.IH [OF _ _ 1(2) CallWrite.prems(3)] \<open>e = None\<close> by (simp add: 1(3))
  qed
next
  case (OnHeader f p)
  then show ?case using header_keeps by (metis accepted.simps(2) run_prog.simps(2))
next
  case (CallWriteHeader c p)
  then show ?case using status_keeps by (metis accepted.simps(3) run_prog.simps(3))
next
  case (CallBeginCompletion p)
  then show ?case using begin_keeps by (metis accepted.simps(4) run_prog.simps(4))
qed simp

end

end
