(* ===== verification/OutcomeConv.thy ===== *)
theory OutcomeConv
  imports Outcome Codec Dispatch
begin

text \<open>
  How a verdict crosses the plugin boundary: the \<^verbatim>\<open>ForwardOutcome\<close> message and the conversions
  of \<^verbatim>\<open>runtimego/grpc/gateway_server.go\<close>. Every pair is an interpretation of \<open>wire_codec\<close>;
  \<open>outcome_view\<close> is exactly what the other side gets: an unnamed verdict becomes unknown,
  durations are cut to milliseconds, status codes to 32 bits.
\<close>

section \<open>The messages\<close>

text \<open>\<^verbatim>\<open>pb.OutcomeKind\<close> is an open enum: any 32-bit number can arrive.\<close>

type_synonym pb_OutcomeKind = go_int32

definition OUTCOME_UNKNOWN :: pb_OutcomeKind where "OUTCOME_UNKNOWN = 0"
definition OUTCOME_SUCCESS :: pb_OutcomeKind where "OUTCOME_SUCCESS = 1"
definition OUTCOME_CLIENT_ERROR :: pb_OutcomeKind where "OUTCOME_CLIENT_ERROR = 2"
definition OUTCOME_ACCOUNT_RATE_LIMITED :: pb_OutcomeKind where
  "OUTCOME_ACCOUNT_RATE_LIMITED = 3"
definition OUTCOME_ACCOUNT_DEAD :: pb_OutcomeKind where "OUTCOME_ACCOUNT_DEAD = 4"
definition OUTCOME_UPSTREAM_TRANSIENT :: pb_OutcomeKind where "OUTCOME_UPSTREAM_TRANSIENT = 5"
definition OUTCOME_STREAM_ABORTED :: pb_OutcomeKind where "OUTCOME_STREAM_ABORTED = 6"
definition OUTCOME_FAMILY_TRANSIENT :: pb_OutcomeKind where "OUTCOME_FAMILY_TRANSIENT = 7"
definition OUTCOME_ACCOUNT_UNAVAILABLE :: pb_OutcomeKind where "OUTCOME_ACCOUNT_UNAVAILABLE = 8"
definition OUTCOME_ACCOUNT_QUOTA_EXHAUSTED :: pb_OutcomeKind where
  "OUTCOME_ACCOUNT_QUOTA_EXHAUSTED = 9"

lemmas pb_kind_defs =
  OUTCOME_UNKNOWN_def OUTCOME_SUCCESS_def OUTCOME_CLIENT_ERROR_def
  OUTCOME_ACCOUNT_RATE_LIMITED_def OUTCOME_ACCOUNT_DEAD_def OUTCOME_UPSTREAM_TRANSIENT_def
  OUTCOME_STREAM_ABORTED_def OUTCOME_FAMILY_TRANSIENT_def OUTCOME_ACCOUNT_UNAVAILABLE_def
  OUTCOME_ACCOUNT_QUOTA_EXHAUSTED_def

record PbUpstreamResponse =
  pu_StatusCode :: go_int32
  pu_Headers :: pb_headers
  pu_Body :: bytes

record PbBillingAdjustments =
  pb_ChargeOverride :: "float64 option"
  pb_ChargeAddon :: "float64 option"
  pb_ApiKeyBaseCost :: "float64 option"

record PbUsage =
  pus_Model :: string
  pus_AccountCost :: float64
  pus_UserCost :: float64
  pus_BillingMultiplier :: float64
  pus_Currency :: string
  pus_Summary :: string
  pus_FirstEventMs :: "64 word"
  pus_FirstTokenMs :: "64 word"
  pus_WsDialMs :: "64 word"
  pus_Metadata :: metadata
  pus_InputTokens :: "64 word"
  pus_OutputTokens :: "64 word"
  pus_CachedInputTokens :: "64 word"
  pus_CacheCreationTokens :: "64 word"
  pus_ReasoningOutputTokens :: "64 word"
  pus_ReasoningEffort :: string
  pus_InputPrice :: float64
  pus_OutputPrice :: float64
  pus_CachedInputPrice :: float64
  pus_CacheCreationPrice :: float64
  pus_InputCost :: float64
  pus_OutputCost :: float64
  pus_CachedInputCost :: float64
  pus_CacheCreationCost :: float64
  pus_Billing :: "PbBillingAdjustments option"

record PbOutboundRequestDiagnostic =
  prd_Transport :: string
  prd_Method :: string
  prd_Url :: string
  prd_Headers :: pb_headers
  prd_Body :: bytes
  prd_StatusCode :: go_int32
  prd_BodyOriginalSize :: "64 word"

record PbFinalErrorDiagnostic =
  pfd_OutboundRequests :: "PbOutboundRequestDiagnostic option list"
  pfd_UpstreamErrorBody :: bytes

record PbForwardOutcome =
  pfo_Kind :: pb_OutcomeKind
  pfo_FailoverScope :: string
  pfo_ModelFallbackReason :: string
  pfo_Upstream :: "PbUpstreamResponse option"
  pfo_Usage :: "PbUsage option"
  pfo_DurationMs :: "64 word"
  pfo_RetryAfterMs :: "64 word"
  pfo_Reason :: string
  pfo_UpdatedCredentials :: metadata
  pfo_FinalErrorDiagnostic :: "PbFinalErrorDiagnostic option"
  pfo_SafetyRejected :: bool

section \<open>Verdict kinds\<close>

definition outcomeKindToProto :: "OutcomeKind \<Rightarrow> pb_OutcomeKind" where
  "outcomeKindToProto k =
     (case k of
        OutcomeSuccess \<Rightarrow> OUTCOME_SUCCESS
      | OutcomeClientError \<Rightarrow> OUTCOME_CLIENT_ERROR
      | OutcomeAccountRateLimited \<Rightarrow> OUTCOME_ACCOUNT_RATE_LIMITED
      | OutcomeAccountDead \<Rightarrow> OUTCOME_ACCOUNT_DEAD
      | OutcomeUpstreamTransient \<Rightarrow> OUTCOME_UPSTREAM_TRANSIENT
      | OutcomeStreamAborted \<Rightarrow> OUTCOME_STREAM_ABORTED
      | OutcomeFamilyTransient \<Rightarrow> OUTCOME_FAMILY_TRANSIENT
      | OutcomeAccountUnavailable \<Rightarrow> OUTCOME_ACCOUNT_UNAVAILABLE
      | OutcomeAccountQuotaExhausted \<Rightarrow> OUTCOME_ACCOUNT_QUOTA_EXHAUSTED
      | _ \<Rightarrow> OUTCOME_UNKNOWN)"

definition outcomeKindFromProto :: "pb_OutcomeKind \<Rightarrow> OutcomeKind" where
  "outcomeKindFromProto k =
     (if k = OUTCOME_SUCCESS then OutcomeSuccess
      else if k = OUTCOME_CLIENT_ERROR then OutcomeClientError
      else if k = OUTCOME_ACCOUNT_RATE_LIMITED then OutcomeAccountRateLimited
      else if k = OUTCOME_ACCOUNT_DEAD then OutcomeAccountDead
      else if k = OUTCOME_UPSTREAM_TRANSIENT then OutcomeUpstreamTransient
      else if k = OUTCOME_STREAM_ABORTED then OutcomeStreamAborted
      else if k = OUTCOME_FAMILY_TRANSIENT then OutcomeFamilyTransient
      else if k = OUTCOME_ACCOUNT_UNAVAILABLE then OutcomeAccountUnavailable
      else if k = OUTCOME_ACCOUNT_QUOTA_EXHAUSTED then OutcomeAccountQuotaExhausted
      else OutcomeUnknown)"

definition kind_view :: "OutcomeKind \<Rightarrow> OutcomeKind" where
  "kind_view k = (case k of OutcomeOther n \<Rightarrow> OutcomeUnknown | _ \<Rightarrow> k)"

interpretation kind_codec: wire_codec outcomeKindToProto outcomeKindFromProto kind_view
proof unfold_locales
  show "outcomeKindFromProto (outcomeKindToProto k) = kind_view k" for k
    by (cases k) (simp_all add: outcomeKindToProto_def outcomeKindFromProto_def kind_view_def
        pb_kind_defs)
  show "outcomeKindToProto (kind_view k) = outcomeKindToProto k" for k
    by (cases k) (simp_all add: outcomeKindToProto_def kind_view_def)
qed

section \<open>Upstream responses\<close>

definition upstreamToProto :: "UpstreamResponse \<Rightarrow> PbUpstreamResponse option" where
  "upstreamToProto u =
     Some \<lparr>pu_StatusCode = int32_of (up_StatusCode u),
           pu_Headers = httpHeadersToProto (up_Headers u), pu_Body = up_Body u\<rparr>"

definition upstreamFromProto :: "PbUpstreamResponse option \<Rightarrow> UpstreamResponse" where
  "upstreamFromProto p =
     (case p of
        None \<Rightarrow> zero_upstream
      | Some u \<Rightarrow>
          \<lparr>up_StatusCode = int_of_int32 (pu_StatusCode u),
           up_Headers = protoHeadersToHTTP (pu_Headers u), up_Body = pu_Body u\<rparr>)"

definition upstream_view :: "UpstreamResponse \<Rightarrow> UpstreamResponse" where
  "upstream_view u = u\<lparr>up_StatusCode := wire_int32 (up_StatusCode u)\<rparr>"

interpretation upstream_codec: wire_codec upstreamToProto upstreamFromProto upstream_view
  by unfold_locales
    (simp_all add: upstreamToProto_def upstreamFromProto_def upstream_view_def
      header_codec.dec_enc)

section \<open>Usage\<close>

text \<open>A copy of the amount behind the pointer; the value is the same.\<close>

definition cloneBillingAmount :: "float64 option \<Rightarrow> float64 option" where
  "cloneBillingAmount v = (case v of None \<Rightarrow> None | Some x \<Rightarrow> Some x)"

lemma cloneBillingAmount_id [simp]: "cloneBillingAmount v = v"
  by (simp add: cloneBillingAmount_def split: option.splits)

definition billingToProto :: "BillingAdjustments \<Rightarrow> PbBillingAdjustments" where
  "billingToProto b =
     \<lparr>pb_ChargeOverride = cloneBillingAmount (ChargeOverride b),
      pb_ChargeAddon = cloneBillingAmount (ChargeAddon b),
      pb_ApiKeyBaseCost = cloneBillingAmount (APIKeyBaseCost b)\<rparr>"

definition billingFromProto :: "PbBillingAdjustments \<Rightarrow> BillingAdjustments" where
  "billingFromProto b =
     \<lparr>ChargeOverride = cloneBillingAmount (pb_ChargeOverride b),
      ChargeAddon = cloneBillingAmount (pb_ChargeAddon b),
      APIKeyBaseCost = cloneBillingAmount (pb_ApiKeyBaseCost b)\<rparr>"

interpretation billing_codec: wire_codec billingToProto billingFromProto "\<lambda>b. b"
  by unfold_locales (simp_all add: billingToProto_def billingFromProto_def)

definition usageToProto :: "Usage \<Rightarrow> PbUsage" where
  "usageToProto u =
     \<lparr>pus_Model = us_Model u, pus_AccountCost = us_AccountCost u,
      pus_UserCost = us_UserCost u, pus_BillingMultiplier = us_BillingMultiplier u,
      pus_Currency = us_Currency u, pus_Summary = us_Summary u,
      pus_FirstEventMs = us_FirstEventMs u, pus_FirstTokenMs = us_FirstTokenMs u,
      pus_WsDialMs = us_WSDialMs u, pus_Metadata = us_Metadata u,
      pus_InputTokens = us_InputTokens u, pus_OutputTokens = us_OutputTokens u,
      pus_CachedInputTokens = us_CachedInputTokens u,
      pus_CacheCreationTokens = us_CacheCreationTokens u,
      pus_ReasoningOutputTokens = us_ReasoningOutputTokens u,
      pus_ReasoningEffort = us_ReasoningEffort u, pus_InputPrice = us_InputPrice u,
      pus_OutputPrice = us_OutputPrice u, pus_CachedInputPrice = us_CachedInputPrice u,
      pus_CacheCreationPrice = us_CacheCreationPrice u, pus_InputCost = us_InputCost u,
      pus_OutputCost = us_OutputCost u, pus_CachedInputCost = us_CachedInputCost u,
      pus_CacheCreationCost = us_CacheCreationCost u,
      pus_Billing = map_option billingToProto (us_Billing u)\<rparr>"

definition usageFromProto :: "PbUsage \<Rightarrow> Usage" where
  "usageFromProto p =
     \<lparr>us_Model = pus_Model p, us_AccountCost = pus_AccountCost p,
      us_UserCost = pus_UserCost p, us_BillingMultiplier = pus_BillingMultiplier p,
      us_Currency = pus_Currency p, us_Summary = pus_Summary p,
      us_FirstEventMs = pus_FirstEventMs p, us_FirstTokenMs = pus_FirstTokenMs p,
      us_WSDialMs = pus_WsDialMs p, us_InputTokens = pus_InputTokens p,
      us_OutputTokens = pus_OutputTokens p, us_CachedInputTokens = pus_CachedInputTokens p,
      us_CacheCreationTokens = pus_CacheCreationTokens p,
      us_ReasoningOutputTokens = pus_ReasoningOutputTokens p,
      us_ReasoningEffort = pus_ReasoningEffort p, us_InputPrice = pus_InputPrice p,
      us_OutputPrice = pus_OutputPrice p, us_CachedInputPrice = pus_CachedInputPrice p,
      us_CacheCreationPrice = pus_CacheCreationPrice p, us_InputCost = pus_InputCost p,
      us_OutputCost = pus_OutputCost p, us_CachedInputCost = pus_CachedInputCost p,
      us_CacheCreationCost = pus_CacheCreationCost p, us_Metadata = pus_Metadata p,
      us_Billing = map_option billingFromProto (pus_Billing p)\<rparr>"

interpretation usage_codec: wire_codec usageToProto usageFromProto "\<lambda>u. u"
proof unfold_locales
  show "usageFromProto (usageToProto u) = u" for u
  proof -
    have "map_option billingFromProto (map_option billingToProto (us_Billing u)) = us_Billing u"
      using billing_codec.option_dec_enc by (simp add: option.map_ident)
    then show ?thesis
      unfolding usageFromProto_def usageToProto_def by (cases u) simp
  qed
qed simp

section \<open>Error diagnostics\<close>

definition requestToProto :: "OutboundRequestDiagnostic \<Rightarrow> PbOutboundRequestDiagnostic" where
  "requestToProto r =
     \<lparr>prd_Transport = rd_Transport r, prd_Method = rd_Method r, prd_Url = rd_URL r,
      prd_Headers = httpHeadersToProto (rd_Headers r), prd_Body = rd_Body r,
      prd_StatusCode = int32_of (rd_StatusCode r), prd_BodyOriginalSize = rd_BodyOriginalSize r\<rparr>"

definition requestFromProto :: "PbOutboundRequestDiagnostic \<Rightarrow> OutboundRequestDiagnostic" where
  "requestFromProto r =
     \<lparr>rd_Transport = prd_Transport r, rd_Method = prd_Method r, rd_URL = prd_Url r,
      rd_Headers = protoHeadersToHTTP (prd_Headers r), rd_Body = prd_Body r,
      rd_StatusCode = int_of_int32 (prd_StatusCode r),
      rd_BodyOriginalSize = prd_BodyOriginalSize r\<rparr>"

definition request_view :: "OutboundRequestDiagnostic \<Rightarrow> OutboundRequestDiagnostic" where
  "request_view r = r\<lparr>rd_StatusCode := wire_int32 (rd_StatusCode r)\<rparr>"

interpretation request_codec: wire_codec requestToProto requestFromProto request_view
  by unfold_locales
    (simp_all add: requestToProto_def requestFromProto_def request_view_def header_codec.dec_enc)

definition finalErrorDiagnosticToProto ::
  "FinalErrorDiagnostic option \<Rightarrow> PbFinalErrorDiagnostic option" where
  "finalErrorDiagnosticToProto d =
     (case d of
        None \<Rightarrow> None
      | Some d \<Rightarrow>
          Some \<lparr>pfd_OutboundRequests =
                  map (\<lambda>r. Some (requestToProto r)) (OutboundRequests d),
                pfd_UpstreamErrorBody = UpstreamErrorBody d\<rparr>)"

definition finalErrorDiagnosticFromProto ::
  "PbFinalErrorDiagnostic option \<Rightarrow> FinalErrorDiagnostic option" where
  "finalErrorDiagnosticFromProto d =
     (case d of
        None \<Rightarrow> None
      | Some d \<Rightarrow>
          Some \<lparr>OutboundRequests = map requestFromProto (non_nil (pfd_OutboundRequests d)),
                UpstreamErrorBody = pfd_UpstreamErrorBody d\<rparr>)"

definition diagnostic_view :: "FinalErrorDiagnostic option \<Rightarrow> FinalErrorDiagnostic option" where
  "diagnostic_view d =
     map_option (\<lambda>d. d\<lparr>OutboundRequests := map request_view (OutboundRequests d)\<rparr>) d"

interpretation diagnostic_codec:
  wire_codec finalErrorDiagnosticToProto finalErrorDiagnosticFromProto diagnostic_view
proof unfold_locales
  show "finalErrorDiagnosticFromProto (finalErrorDiagnosticToProto d) = diagnostic_view d" for d
    by (cases d) (simp_all add: finalErrorDiagnosticToProto_def finalErrorDiagnosticFromProto_def
        diagnostic_view_def request_codec.dec_enc)
  show "finalErrorDiagnosticToProto (diagnostic_view d) = finalErrorDiagnosticToProto d" for d
    by (cases d) (simp_all add: finalErrorDiagnosticToProto_def diagnostic_view_def
        request_codec.enc_view comp_def)
qed

section \<open>Outcomes\<close>

definition outcomeToProto :: "ForwardOutcome \<Rightarrow> PbForwardOutcome" where
  "outcomeToProto o' =
     \<lparr>pfo_Kind = outcomeKindToProto (Kind o'), pfo_FailoverScope = FailoverScope o',
      pfo_ModelFallbackReason = ModelFallbackReason o',
      pfo_Upstream = upstreamToProto (Upstream o'),
      pfo_Usage = map_option usageToProto (fo_Usage o'),
      pfo_DurationMs = Milliseconds (Duration o'),
      pfo_RetryAfterMs = Milliseconds (RetryAfter o'), pfo_Reason = Reason o',
      pfo_UpdatedCredentials = UpdatedCredentials o',
      pfo_FinalErrorDiagnostic = finalErrorDiagnosticToProto (FinalErrorDiagnostic o'),
      pfo_SafetyRejected = SafetyRejected o'\<rparr>"

definition outcomeFromProto :: "PbForwardOutcome option \<Rightarrow> ForwardOutcome" where
  "outcomeFromProto p =
     (case p of
        None \<Rightarrow> zero_outcome
      | Some p \<Rightarrow>
          \<lparr>Kind = outcomeKindFromProto (pfo_Kind p), FailoverScope = pfo_FailoverScope p,
           ModelFallbackReason = pfo_ModelFallbackReason p,
           Upstream = upstreamFromProto (pfo_Upstream p),
           fo_Usage = map_option usageFromProto (pfo_Usage p),
           Duration = duration_of_ms (pfo_DurationMs p),
           RetryAfter = duration_of_ms (pfo_RetryAfterMs p), Reason = pfo_Reason p,
           UpdatedCredentials = pfo_UpdatedCredentials p,
           FinalErrorDiagnostic = finalErrorDiagnosticFromProto (pfo_FinalErrorDiagnostic p),
           SafetyRejected = pfo_SafetyRejected p\<rparr>)"

text \<open>The outcome the other side of the boundary sees.\<close>

definition outcome_view :: "ForwardOutcome \<Rightarrow> ForwardOutcome" where
  "outcome_view o' =
     o'\<lparr>Kind := kind_view (Kind o'), Upstream := upstream_view (Upstream o'),
        Duration := truncate_ms (Duration o'), RetryAfter := truncate_ms (RetryAfter o'),
        FinalErrorDiagnostic := diagnostic_view (FinalErrorDiagnostic o')\<rparr>"

lemma mult_sdiv_self: "0 < b \<Longrightarrow> q * b sdiv b = (q :: int)"
  by (simp add: signed_divide_int_def sgn_mult abs_mult mult_sgn_abs)

lemma Milliseconds_truncate [simp]: "Milliseconds (truncate_ms d) = Milliseconds d"
proof (rule signed_word_eqI)
  show "sint (Milliseconds (truncate_ms d)) = sint (Milliseconds d)"
    unfolding sint_Milliseconds sint_truncate_ms by (rule mult_sdiv_self) simp
qed

lemma usage_option_codec [simp]:
  "map_option usageFromProto (map_option usageToProto v) = v"
  using usage_codec.option_dec_enc [of v] by (simp add: option.map_ident)

lemma duration_of_Milliseconds [simp]: "duration_of_ms (Milliseconds d) = truncate_ms d"
  by (simp add: truncate_ms_def)

interpretation outcome_codec:
  wire_codec "\<lambda>o'. Some (outcomeToProto o')" outcomeFromProto outcome_view
proof unfold_locales
  show "outcomeFromProto (Some (outcomeToProto o')) = outcome_view o'" for o'
    by (cases o') (simp add: outcomeFromProto_def outcomeToProto_def outcome_view_def
        kind_codec.dec_enc upstream_codec.dec_enc diagnostic_codec.dec_enc)
  show "Some (outcomeToProto (outcome_view o')) = Some (outcomeToProto o')" for o'
    by (simp add: outcomeToProto_def outcome_view_def kind_codec.enc_view
        upstream_codec.enc_view diagnostic_codec.enc_view)
qed

text \<open>When nothing is lost.\<close>

definition wire_safe :: "ForwardOutcome \<Rightarrow> bool" where
  "wire_safe o' \<longleftrightarrow>
     kind_view (Kind o') = Kind o' \<and> fits_int32 (up_StatusCode (Upstream o')) \<and>
     whole_ms (Duration o') \<and> whole_ms (RetryAfter o') \<and>
     diagnostic_view (FinalErrorDiagnostic o') = FinalErrorDiagnostic o'"

lemma upstream_view_fits: "fits_int32 (up_StatusCode u) \<Longrightarrow> upstream_view u = u"
  by (simp add: upstream_view_def)

lemma outcome_view_safe: "wire_safe o' \<Longrightarrow> outcome_view o' = o'"
  by (cases o') (simp add: wire_safe_def outcome_view_def upstream_view_fits)

lemma Kind_ShouldFailover_view [simp]: "Kind_ShouldFailover (kind_view k) = Kind_ShouldFailover k"
  by (cases k) (simp_all add: Kind_ShouldFailover_def kind_view_def)

section \<open>Properties\<close>

lemma wire_kind_view:
  "Kind_ShouldFailover (Kind (outcome_view o')) = Kind_ShouldFailover (Kind o')"
  "FailoverScope (outcome_view o') = FailoverScope o'"
  "ModelFallbackReason (outcome_view o') = ModelFallbackReason o'"
  "Kind (outcome_view o') = OutcomeClientError \<longleftrightarrow> Kind o' = OutcomeClientError"
  by (simp_all add: outcome_view_def) (auto simp: kind_view_def split: OutcomeKind.splits)

lemma truncate_ms_close: "\<bar>sint d - sint (truncate_ms d)\<bar> < 1000000"
proof -
  have "sint d - sint d sdiv 1000000 * 1000000 = sgn (sint d) * (\<bar>sint d\<bar> mod 1000000)"
    by (simp add: signed_divide_int_def minus_div_mult_eq_mod [symmetric] algebra_simps
        abs_mult_sgn)
  moreover have "\<bar>sgn (sint d) * (\<bar>sint d\<bar> mod 1000000)\<bar> < 1000000"
    by (simp add: abs_mult sgn_if)
  ultimately show ?thesis
    by (simp add: sint_truncate_ms)
qed

text \<open>
  C7: What the host decodes is the plugin's verdict up to \<open>outcome_view\<close>: a kind no constant
  names becomes unknown, durations are cut to milliseconds (by less than one), statuses to 32
  bits, and nothing else changes, usage, settlement quotes, credentials and diagnostics included.
  The replay decisions the host takes are the plugin's, and a verdict with a named kind, whole
  milliseconds and 32-bit statuses arrives unchanged.
\<close>

theorem outcome_round_trip:
  "outcomeFromProto (Some (outcomeToProto o')) = outcome_view o' \<and>
   Outcome_ShouldFailover (outcomeFromProto (Some (outcomeToProto o'))) =
     Outcome_ShouldFailover o' \<and>
   RequestsModelFallback (outcomeFromProto (Some (outcomeToProto o'))) =
     RequestsModelFallback o' \<and>
   \<bar>sint (Duration o') - sint (Duration (outcomeFromProto (Some (outcomeToProto o'))))\<bar> < 1000000 \<and>
   (wire_safe o' \<longrightarrow> outcomeFromProto (Some (outcomeToProto o')) = o')"
  unfolding outcome_codec.dec_enc
  using truncate_ms_close [of "Duration o'"]
  by (simp add: Outcome_ShouldFailover_def RequestsModelFallback_def wire_kind_view
      outcome_view_safe) (simp add: outcome_view_def)

theorem outcome_round_trip_witness:
  "outcomeFromProto (Some (outcomeToProto (zero_outcome\<lparr>Kind := OutcomeSuccess,
     Reason := ''ok''\<rparr>))) = zero_outcome\<lparr>Kind := OutcomeSuccess, Reason := ''ok''\<rparr>"
proof -
  have "wire_safe (zero_outcome\<lparr>Kind := OutcomeSuccess, Reason := ''ok''\<rparr>)"
    by (simp add: wire_safe_def zero_outcome_def zero_upstream_def kind_view_def
        diagnostic_view_def fits_int32_def)
  then show ?thesis
    using outcome_round_trip [of "zero_outcome\<lparr>Kind := OutcomeSuccess, Reason := ''ok''\<rparr>"]
    by blast
qed

end
