(* ===== verification/StreamWriter.thy ===== *)
theory StreamWriter
  imports Writer OutcomeConv
begin

text \<open>
  The streaming response writer of the gateway server (\<^verbatim>\<open>streamWriter\<close> in
  \<^verbatim>\<open>runtimego/grpc/gateway_server.go\<close>): it turns the writes of a plugin into \<^verbatim>\<open>ForwardChunk\<close>
  messages of at most 256 KiB, sends status and headers first and once, and, after
  \<^verbatim>\<open>BeginStreamCompletion\<close>, keeps the last bytes back so that they travel with the verdict.

  The gRPC stream is the list of the messages handed to \<^verbatim>\<open>Send\<close>, each with the result of its
  \<^verbatim>\<open>Send\<close>. What the transport answers is a parameter, \<open>tr_fate n\<close> for the \<open>n\<close>-th \<^verbatim>\<open>Send\<close> of the
  stream, and so is \<^verbatim>\<open>proto.Size\<close>.
\<close>

section \<open>The stream\<close>

record ForwardChunk =
  ch_Data :: bytes
  ch_Done :: bool
  ch_FinalOutcome :: "PbForwardOutcome option"
  ch_StatusCode :: go_int32
  ch_Headers :: pb_headers

definition data_chunk :: "bytes \<Rightarrow> ForwardChunk" where
  "data_chunk d =
     \<lparr>ch_Data = d, ch_Done = False, ch_FinalOutcome = None, ch_StatusCode = 0,
      ch_Headers = []\<rparr>"

definition meta_chunk :: "go_int \<Rightarrow> header \<Rightarrow> ForwardChunk" where
  "meta_chunk c h =
     \<lparr>ch_Data = [], ch_Done = False, ch_FinalOutcome = None, ch_StatusCode = int32_of c,
      ch_Headers = httpHeadersToProto h\<rparr>"

type_synonym send_log = "(ForwardChunk \<times> go_error option) list"

record transport =
  tr_fate :: "nat \<Rightarrow> go_error option"
  tr_size :: "ForwardChunk \<Rightarrow> nat"
  tr_outcome_size :: "PbForwardOutcome \<Rightarrow> nat"

definition delivered :: "send_log \<Rightarrow> ForwardChunk list" where
  "delivered log = map fst (filter (\<lambda>(c, e). e = None) log)"

definition chunk_data :: "ForwardChunk list \<Rightarrow> bytes" where
  "chunk_data cs = concat (map ch_Data cs)"

lemma delivered_append [simp]: "delivered (xs @ ys) = delivered xs @ delivered ys"
  by (simp add: delivered_def)

lemma delivered_simps [simp]:
  "delivered [] = []" "delivered ((c, None) # xs) = c # delivered xs"
  "delivered ((c, Some e) # xs) = delivered xs"
  by (simp_all add: delivered_def)

lemma chunk_data_simps [simp]:
  "chunk_data [] = []" "chunk_data (c # cs) = ch_Data c @ chunk_data cs"
  "chunk_data (cs @ ds) = chunk_data cs @ chunk_data ds"
  by (simp_all add: chunk_data_def)

lemma chunk_fields [simp]:
  "ch_Data (data_chunk d) = d" "ch_Data (meta_chunk c h) = []"
  by (simp_all add: data_chunk_def meta_chunk_def)

section \<open>Response limits\<close>

definition MaxBufferedResponseBytes :: nat where
  "MaxBufferedResponseBytes = 96 * 2 ^ 20"

definition MaxResponseMessageBytes :: nat where
  "MaxResponseMessageBytes = 112 * 2 ^ 20"

definition checkResponseMessage :: "nat \<Rightarrow> go_error option" where
  "checkResponseMessage sz =
     (if sz > MaxResponseMessageBytes
      then Some (ErrStatus ResourceExhausted ''plugin response exceeds payload budget'')
      else None)"

section \<open>State\<close>

record streamWriter =
  sw_log :: send_log
  sw_headers :: header
  sw_code :: go_int
  sw_wroteHeader :: bool
  sw_sent :: bool
  sw_completing :: bool
  sw_completionTail :: bytes
  sw_err :: "go_error option"

definition new_streamWriter :: streamWriter where
  "new_streamWriter =
     \<lparr>sw_log = [], sw_headers = [], sw_code = 0, sw_wroteHeader = False, sw_sent = False,
      sw_completing = False, sw_completionTail = [], sw_err = None\<rparr>"

definition streamChunkSize :: nat where
  "streamChunkSize = 256 * 1024"

lemma streamChunkSize_pos [simp]: "0 < streamChunkSize"
  by (simp add: streamChunkSize_def)

section \<open>Operations\<close>

definition sw_send :: "transport \<Rightarrow> ForwardChunk \<Rightarrow> streamWriter \<Rightarrow> go_error option \<times> streamWriter"
where
  "sw_send t c w =
     (let e = tr_fate t (length (sw_log w)) in (e, w\<lparr>sw_log := sw_log w @ [(c, e)]\<rparr>))"

text \<open>\<^verbatim>\<open>fail\<close> also returns the error the writer then has.\<close>

definition sw_fail :: "go_error \<Rightarrow> streamWriter \<Rightarrow> go_error option \<times> streamWriter" where
  "sw_fail e w =
     (let w = (if sw_err w = None then w\<lparr>sw_err := Some e\<rparr> else w);
          w = w\<lparr>sw_completionTail := []\<rparr>
      in (sw_err w, w))"

definition sw_BeginStreamCompletion :: "streamWriter \<Rightarrow> streamWriter" where
  "sw_BeginStreamCompletion w = w\<lparr>sw_completing := True\<rparr>"

definition sw_Header :: "(header \<Rightarrow> header) \<Rightarrow> streamWriter \<Rightarrow> streamWriter" where
  "sw_Header f w = w\<lparr>sw_headers := f (sw_headers w)\<rparr>"

definition sw_WriteHeader :: "go_int \<Rightarrow> streamWriter \<Rightarrow> streamWriter" where
  "sw_WriteHeader c w =
     (if sw_sent w \<or> sw_wroteHeader w then w
      else w\<lparr>sw_code := c, sw_wroteHeader := True\<rparr>)"

definition sw_flushMeta :: "transport \<Rightarrow> streamWriter \<Rightarrow> go_error option \<times> streamWriter" where
  "sw_flushMeta t w =
     (case sw_err w of
        Some e \<Rightarrow> (Some e, w)
      | None \<Rightarrow>
          if sw_sent w then (None, w)
          else
            (let w = w\<lparr>sw_sent := True\<rparr>;
                 statusCode = (if sw_code w = 0 then 200 else sw_code w);
                 chunk = meta_chunk statusCode (sw_headers w)
             in case checkResponseMessage (tr_size t chunk) of
                  Some e \<Rightarrow> sw_fail e w
                | None \<Rightarrow>
                    (case sw_send t chunk w of
                       (Some e, w) \<Rightarrow> sw_fail e w
                     | (None, w) \<Rightarrow> (None, w))))"

text \<open>The loop that sends the slices of one Write.\<close>

function write_loop ::
  "transport \<Rightarrow> bytes \<Rightarrow> nat \<Rightarrow> streamWriter \<Rightarrow> write_result \<times> streamWriter" where
  "write_loop t data offset w =
     (if offset < length data
      then
        (let stop = min (offset + streamChunkSize) (length data)
         in case sw_send t (data_chunk (take (stop - offset) (drop offset data))) w of
              (Some e, w) \<Rightarrow> (let (r, w) = sw_fail e w in ((offset, r), w))
            | (None, w) \<Rightarrow> write_loop t data (offset + streamChunkSize) w)
      else ((length data, None), w))"
  by pat_completeness auto
termination
  by (relation "measure (\<lambda>(t, data, offset, w). length data - offset)")
    (auto intro!: diff_less_mono2)

text \<open>The loop that sends the first \<open>sendBytes\<close> bytes of a Write during completion.\<close>

function completion_loop ::
  "transport \<Rightarrow> nat \<Rightarrow> bytes \<Rightarrow> nat \<Rightarrow> streamWriter \<Rightarrow> write_result \<times> streamWriter" where
  "completion_loop t whole data sendBytes w =
     (if 0 < sendBytes
      then
        (let n = min sendBytes streamChunkSize
         in case sw_send t (data_chunk (take n data)) w of
              (Some e, w) \<Rightarrow> (let (r, w) = sw_fail e w in ((whole - length data, r), w))
            | (None, w) \<Rightarrow> completion_loop t whole (drop n data) (sendBytes - n) w)
      else ((whole, None), w\<lparr>sw_completionTail := sw_completionTail w @ data\<rparr>))"
  by pat_completeness auto
termination
  by (relation "measure (\<lambda>(t, whole, data, sendBytes, w). sendBytes)") auto

declare write_loop.simps [simp del] completion_loop.simps [simp del]

definition sw_write_completing ::
  "transport \<Rightarrow> bytes \<Rightarrow> streamWriter \<Rightarrow> write_result \<times> streamWriter" where
  "sw_write_completing t data w =
     (let whole = length data;
          sendBytes = length (sw_completionTail w) + length data - streamChunkSize;
          n = min sendBytes (length (sw_completionTail w))
      in
      if n > 0
      then
        (case sw_send t (data_chunk (take n (sw_completionTail w))) w of
           (Some e, w) \<Rightarrow> (let (r, w) = sw_fail e w in ((0, r), w))
         | (None, w) \<Rightarrow>
             completion_loop t whole data (sendBytes - n)
               (w\<lparr>sw_completionTail := drop n (sw_completionTail w)\<rparr>))
      else completion_loop t whole data sendBytes w)"

definition sw_Write :: "transport \<Rightarrow> bytes \<Rightarrow> streamWriter \<Rightarrow> write_result \<times> streamWriter" where
  "sw_Write t data w =
     (case sw_err w of
        Some e \<Rightarrow> ((0, Some e), w)
      | None \<Rightarrow>
          (case sw_flushMeta t w of
             (Some e, w) \<Rightarrow> ((0, Some e), w)
           | (None, w) \<Rightarrow>
               if sw_completing w then sw_write_completing t data w
               else if length data = 0
               then
                 (case sw_send t (data_chunk data) w of
                    (Some e, w) \<Rightarrow> (let (r, w) = sw_fail e w in ((0, r), w))
                  | (None, w) \<Rightarrow> ((0, None), w))
               else write_loop t data 0 w))"

definition stream_ops :: "transport \<Rightarrow> streamWriter writer_ops" where
  "stream_ops t =
     \<lparr>wr_header = sw_Header, wr_status = sw_WriteHeader, wr_write = sw_Write t,
      wr_begin = sw_BeginStreamCompletion\<rparr>"

section \<open>Invariant\<close>

definition sw_data :: "streamWriter \<Rightarrow> bytes" where
  "sw_data w = chunk_data (delivered (sw_log w))"

definition sw_body :: "streamWriter \<Rightarrow> bytes" where
  "sw_body w = sw_data w @ sw_completionTail w"

definition is_meta :: "ForwardChunk \<Rightarrow> bool" where
  "is_meta c \<longleftrightarrow> (\<exists>code h. c = meta_chunk code h)"

definition is_slice :: "ForwardChunk \<Rightarrow> bool" where
  "is_slice c \<longleftrightarrow> (\<exists>d. c = data_chunk d \<and> length d \<le> streamChunkSize)"

lemma is_meta_meta [simp]: "is_meta (meta_chunk code h)"
  by (auto simp: is_meta_def)

text \<open>
  The messages of a stream: one with status and headers, then slices; every Send but possibly
  the last one succeeded.
\<close>

definition log_ok :: "send_log \<Rightarrow> bool" where
  "log_ok log \<longleftrightarrow>
     (\<forall>x \<in> set (butlast log). snd x = None) \<and>
     (case log of [] \<Rightarrow> True | x # xs \<Rightarrow> is_meta (fst x) \<and> (\<forall>y \<in> set xs. is_slice (fst y)))"

definition sw_inv :: "streamWriter \<Rightarrow> bool" where
  "sw_inv w \<longleftrightarrow>
     log_ok (sw_log w) \<and> length (sw_completionTail w) \<le> streamChunkSize \<and>
     (sw_completing w \<or> sw_completionTail w = []) \<and>
     (sw_err w = None \<longrightarrow>
        (\<forall>x \<in> set (sw_log w). snd x = None) \<and> (sw_sent w \<longrightarrow> sw_log w \<noteq> []) \<and>
        (\<not> sw_sent w \<longrightarrow> sw_log w = [] \<and> sw_completionTail w = [])) \<and>
     (sw_err w \<noteq> None \<longrightarrow> sw_sent w \<and> sw_completionTail w = [])"

text \<open>Ready to send slices.\<close>

definition sw_open :: "streamWriter \<Rightarrow> bool" where
  "sw_open w \<longleftrightarrow> sw_inv w \<and> sw_sent w \<and> sw_err w = None"

lemma log_ok_append:
  assumes "log_ok log" and "\<forall>x \<in> set log. snd x = None" and "log \<noteq> []" and "is_slice c"
  shows "log_ok (log @ [(c, e)])"
  using assms by (cases log) (auto simp: log_ok_def)

lemma sw_new_inv [simp]: "sw_inv new_streamWriter"
  by (simp add: sw_inv_def new_streamWriter_def log_ok_def)

lemma sw_Header_inv [simp]: "sw_inv (sw_Header f w) = sw_inv w"
  by (simp add: sw_inv_def sw_Header_def split: option.splits)

lemma sw_WriteHeader_inv [simp]: "sw_inv (sw_WriteHeader c w) = sw_inv w"
  by (simp add: sw_inv_def sw_WriteHeader_def split: option.splits)

lemma sw_begin_inv [simp]: "sw_inv w \<Longrightarrow> sw_inv (sw_BeginStreamCompletion w)"
  by (auto simp: sw_inv_def sw_BeginStreamCompletion_def split: option.splits)

subsection \<open>One slice\<close>

lemma sw_open_log:
  assumes "sw_open w"
  shows "log_ok (sw_log w)" "\<forall>x \<in> set (sw_log w). snd x = None" "sw_log w \<noteq> []"
  using assms by (simp_all add: sw_open_def sw_inv_def)

text \<open>A slice that goes out, and a slice that fails.\<close>

lemma send_slice_ok:
  assumes "sw_open w" and "length d \<le> streamChunkSize"
    and "sw_send t (data_chunk d) w = (None, w')"
  shows "sw_open w' \<and> sw_data w' = sw_data w @ d \<and>
         sw_completionTail w' = sw_completionTail w \<and> sw_completing w' = sw_completing w"
proof -
  have w': "w' = w\<lparr>sw_log := sw_log w @ [(data_chunk d, None)]\<rparr>"
    using assms(3) by (auto simp: sw_send_def Let_def)
  have "log_ok (sw_log w @ [(data_chunk d, None)])"
    using sw_open_log [OF assms(1)] assms(2) by (intro log_ok_append) (auto simp: is_slice_def)
  then show ?thesis
    using assms(1) unfolding w' by (simp add: sw_open_def sw_inv_def sw_data_def)
qed

lemma send_slice_fail:
  assumes "sw_open w" and "length d \<le> streamChunkSize"
    and "sw_send t (data_chunk d) w = (Some e, w1)" and "sw_fail e w1 = (r, w')"
  shows "r = Some e \<and> sw_inv w' \<and> sw_err w' = Some e \<and> sw_data w' = sw_data w \<and>
         sw_completionTail w' = [] \<and> sw_body w' = sw_data w"
proof -
  have w1: "w1 = w\<lparr>sw_log := sw_log w @ [(data_chunk d, Some e)]\<rparr>"
    using assms(3) by (auto simp: sw_send_def Let_def)
  have w': "w' = w1\<lparr>sw_err := Some e, sw_completionTail := []\<rparr>" and r: "r = Some e"
    using assms(1,4) by (auto simp: w1 sw_open_def sw_fail_def Let_def)
  have "log_ok (sw_log w @ [(data_chunk d, Some e)])"
    using sw_open_log [OF assms(1)] assms(2) by (intro log_ok_append) (auto simp: is_slice_def)
  then show ?thesis
    using assms(1) r unfolding w' w1
    by (simp add: sw_open_def sw_inv_def sw_data_def sw_body_def)
qed

subsection \<open>The loops\<close>

lemma write_loop_step:
  assumes "offset < length data"
  shows "write_loop t data offset w =
    (case sw_send t (data_chunk (take streamChunkSize (drop offset data))) w of
       (Some e, w) \<Rightarrow> (let (r, w) = sw_fail e w in ((offset, r), w))
     | (None, w) \<Rightarrow> write_loop t data (offset + streamChunkSize) w)"
proof -
  have "take (min (offset + streamChunkSize) (length data) - offset) (drop offset data) =
        take streamChunkSize (drop offset data)"
    by (simp add: min_def)
  then show ?thesis
    using assms by (simp add: write_loop.simps [of t data offset w] Let_def)
qed

lemma write_loop_ok:
  "sw_open w \<Longrightarrow> write_loop t data offset w = ((n, None), w') \<Longrightarrow>
   sw_open w' \<and> n = length data \<and> sw_data w' = sw_data w @ drop offset data \<and>
   sw_completionTail w' = sw_completionTail w"
proof (induction "length data - offset" arbitrary: offset w rule: less_induct)
  case less
  show ?case
  proof (cases "offset < length data")
    case False
    then show ?thesis using less.prems by (simp add: write_loop.simps [of t data offset w])
  next
    case True
    note step = write_loop_step [OF True, of t w]
    define d where "d = take streamChunkSize (drop offset data)"
    obtain e w1 where send: "sw_send t (data_chunk d) w = (e, w1)" by force
    obtain r w2 where fail: "sw_fail (the e) w1 = (r, w2)" by force
    have "e = None"
    proof (rule ccontr)
      assume "e \<noteq> None"
      then have "r \<noteq> None"
        using send_slice_fail [OF less.prems(1), of d t "the e" w1 r w2] send fail
        by (simp add: d_def)
      then show False
        using less.prems(2) send fail \<open>e \<noteq> None\<close> by (auto simp: step d_def)
    qed
    then have rest: "write_loop t data (offset + streamChunkSize) w1 = ((n, None), w')"
      and ok: "sw_open w1" "sw_data w1 = sw_data w @ d"
        "sw_completionTail w1 = sw_completionTail w"
      using less.prems send send_slice_ok [OF less.prems(1), of d t w1]
      by (simp_all add: step d_def)
    have "sw_open w' \<and> n = length data \<and>
          sw_data w' = sw_data w1 @ drop (offset + streamChunkSize) data \<and>
          sw_completionTail w' = sw_completionTail w1"
      using less.hyps [OF _ ok(1) rest] True by (simp add: diff_less_mono2)
    moreover have "d @ drop (offset + streamChunkSize) data = drop offset data"
      by (metis append_take_drop_id d_def drop_drop add.commute)
    ultimately show ?thesis
      using ok by simp
  qed
qed

text \<open>A failing Write reports exactly how much of its data went out.\<close>

lemma write_loop_fail:
  "sw_open w \<Longrightarrow> write_loop t data offset w = ((n, Some e), w') \<Longrightarrow>
   sw_inv w' \<and> sw_err w' = Some e \<and> sw_body w' = sw_data w' \<and> n < length data \<and> offset \<le> n \<and>
   sw_data w' = sw_data w @ take (n - offset) (drop offset data)"
proof (induction "length data - offset" arbitrary: offset w rule: less_induct)
  case less
  show ?case
  proof (cases "offset < length data")
    case False
    then show ?thesis using less.prems by (simp add: write_loop.simps [of t data offset w])
  next
    case True
    note step = write_loop_step [OF True, of t w]
    define d where "d = take streamChunkSize (drop offset data)"
    obtain er w1 where send: "sw_send t (data_chunk d) w = (er, w1)" by force
    show ?thesis
    proof (cases er)
      case (Some e')
      obtain r w2 where fail: "sw_fail e' w1 = (r, w2)" by force
      then show ?thesis
        using less.prems(2) send Some True
          send_slice_fail [OF less.prems(1), of d t e' w1 r w2]
        by (simp add: step d_def)
    next
      case None
      then have rest: "write_loop t data (offset + streamChunkSize) w1 = ((n, Some e), w')"
        and ok: "sw_open w1" "sw_data w1 = sw_data w @ d"
        using less.prems send send_slice_ok [OF less.prems(1), of d t w1]
        by (simp_all add: step d_def)
      have IH: "sw_inv w' \<and> sw_err w' = Some e \<and> sw_body w' = sw_data w' \<and> n < length data \<and>
          offset + streamChunkSize \<le> n \<and>
          sw_data w' = sw_data w1 @
            take (n - (offset + streamChunkSize)) (drop (offset + streamChunkSize) data)"
        using less.hyps [OF _ ok(1) rest] True by (simp add: diff_less_mono2)
      then have "n - offset = streamChunkSize + (n - (offset + streamChunkSize))"
        by simp
      then have "d @ take (n - (offset + streamChunkSize)) (drop (offset + streamChunkSize) data) =
          take (n - offset) (drop offset data)"
        by (simp only: d_def take_add drop_drop add.commute)
      then show ?thesis
        using IH ok by simp
    qed
  qed
qed

text \<open>Buffering into the tail.\<close>

lemma keep_tail:
  assumes "sw_open w" and "sw_completing w" and "length (sw_completionTail w @ d) \<le> streamChunkSize"
  shows "sw_open (w\<lparr>sw_completionTail := sw_completionTail w @ d\<rparr>) \<and>
         sw_body (w\<lparr>sw_completionTail := sw_completionTail w @ d\<rparr>) = sw_body w @ d"
  using assms by (simp add: sw_open_def sw_inv_def sw_body_def sw_data_def)

lemma completion_loop_0 [simp]:
  "completion_loop t whole data 0 w =
     ((whole, None), w\<lparr>sw_completionTail := sw_completionTail w @ data\<rparr>)"
  by (simp add: completion_loop.simps [of t whole data 0 w])

lemma completion_loop_step:
  assumes "0 < sendBytes" and "sendBytes \<le> length data"
  shows "completion_loop t whole data sendBytes w =
    (case sw_send t (data_chunk (take (min sendBytes streamChunkSize) data)) w of
       (Some e, w) \<Rightarrow> (let (r, w) = sw_fail e w in ((whole - length data, r), w))
     | (None, w) \<Rightarrow>
         completion_loop t whole (drop (min sendBytes streamChunkSize) data)
           (sendBytes - min sendBytes streamChunkSize) w)"
  using assms by (simp add: completion_loop.simps [of t whole data sendBytes w] Let_def)

text \<open>
  The loop has to leave at most one slice behind, and the tail must be empty while it sends.
\<close>

definition loop_fits :: "bytes \<Rightarrow> nat \<Rightarrow> streamWriter \<Rightarrow> bool" where
  "loop_fits data sendBytes w \<longleftrightarrow>
     sendBytes \<le> length data \<and>
     length (sw_completionTail w) + (length data - sendBytes) \<le> streamChunkSize \<and>
     (sendBytes = 0 \<or> sw_completionTail w = [])"

lemma completion_loop_ok:
  "sw_open w \<Longrightarrow> sw_completing w \<Longrightarrow> loop_fits data sendBytes w \<Longrightarrow>
   completion_loop t whole data sendBytes w = ((n, None), w') \<Longrightarrow>
   sw_open w' \<and> n = whole \<and> sw_body w' = sw_body w @ data"
proof (induction sendBytes arbitrary: data w rule: less_induct)
  case (less sendBytes)
  show ?case
  proof (cases "0 < sendBytes")
    case False
    then show ?thesis
      using less.prems keep_tail [OF less.prems(1,2), of data]
      by (auto simp: loop_fits_def)
  next
    case True
    define m where "m = min sendBytes streamChunkSize"
    have m: "0 < m" "m \<le> sendBytes" "m \<le> streamChunkSize" "sendBytes \<le> length data"
      using True less.prems(3) by (auto simp: m_def loop_fits_def)
    note step = completion_loop_step [OF True m(4), of t whole w, folded m_def]
    obtain e w1 where send: "sw_send t (data_chunk (take m data)) w = (e, w1)" by force
    obtain r w2 where fail: "sw_fail (the e) w1 = (r, w2)" by force
    have "e = None"
    proof (rule ccontr)
      assume "e \<noteq> None"
      then have "r \<noteq> None"
        using send_slice_fail [OF less.prems(1), of "take m data" t "the e" w1 r w2] send fail m
        by simp
      then show False
        using less.prems(4) send fail \<open>e \<noteq> None\<close> by (auto simp: step)
    qed
    then have rest: "completion_loop t whole (drop m data) (sendBytes - m) w1 = ((n, None), w')"
      and ok: "sw_open w1" "sw_data w1 = sw_data w @ take m data"
        "sw_completionTail w1 = sw_completionTail w" "sw_completing w1"
      using less.prems send send_slice_ok [OF less.prems(1), of "take m data" t w1] m
      by (simp_all add: step)
    have tail: "sw_completionTail w = []"
      using less.prems(3) True by (simp add: loop_fits_def)
    have fits: "loop_fits (drop m data) (sendBytes - m) w1"
      using less.prems(3) m ok(3) tail by (auto simp: loop_fits_def)
    have "sw_open w' \<and> n = whole \<and> sw_body w' = sw_body w1 @ drop m data"
      using less.IH [OF _ ok(1,4) fits rest] m by simp
    then show ?thesis
      using ok tail by (simp add: sw_body_def)
  qed
qed

lemma completion_loop_fail:
  "sw_open w \<Longrightarrow> sw_completing w \<Longrightarrow> loop_fits data sendBytes w \<Longrightarrow> length data \<le> whole \<Longrightarrow>
   completion_loop t whole data sendBytes w = ((n, Some e), w') \<Longrightarrow>
   sw_inv w' \<and> sw_err w' = Some e \<and> sw_body w' = sw_data w' \<and> n \<le> whole \<and>
   prefix (sw_data w') (sw_data w @ data)"
proof (induction sendBytes arbitrary: data w rule: less_induct)
  case (less sendBytes)
  show ?case
  proof (cases "0 < sendBytes")
    case False
    then show ?thesis
      using less.prems by simp
  next
    case True
    define m where "m = min sendBytes streamChunkSize"
    have m: "0 < m" "m \<le> sendBytes" "m \<le> streamChunkSize" "sendBytes \<le> length data"
      using True less.prems(3) by (auto simp: m_def loop_fits_def)
    note step = completion_loop_step [OF True m(4), of t whole w, folded m_def]
    obtain er w1 where send: "sw_send t (data_chunk (take m data)) w = (er, w1)" by force
    show ?thesis
    proof (cases er)
      case (Some e')
      obtain r w2 where fail: "sw_fail e' w1 = (r, w2)" by force
      then show ?thesis
        using less.prems send Some m
          send_slice_fail [OF less.prems(1), of "take m data" t e' w1 r w2]
        by (auto simp: step)
    next
      case None
      then have rest: "completion_loop t whole (drop m data) (sendBytes - m) w1 = ((n, Some e), w')"
        and ok: "sw_open w1" "sw_data w1 = sw_data w @ take m data"
          "sw_completionTail w1 = sw_completionTail w" "sw_completing w1"
        using less.prems send send_slice_ok [OF less.prems(1), of "take m data" t w1] m
        by (simp_all add: step)
      have fits: "loop_fits (drop m data) (sendBytes - m) w1"
        using less.prems(3) True m ok(3) by (auto simp: loop_fits_def)
      have "sw_inv w' \<and> sw_err w' = Some e \<and> sw_body w' = sw_data w' \<and> n \<le> whole \<and>
          prefix (sw_data w') (sw_data w1 @ drop m data)"
        using less.IH [OF _ ok(1,4) fits _ rest] m less.prems(4) by simp
      then show ?thesis
        using ok by simp
    qed
  qed
qed

subsection \<open>Status and headers\<close>

lemma flushMeta_ok:
  assumes "sw_inv w" and "sw_flushMeta t w = (None, w')"
  shows "sw_open w' \<and> sw_body w' = sw_body w \<and> sw_data w' = sw_data w \<and> sw_err w = None \<and>
         sw_completing w' = sw_completing w \<and> sw_completionTail w' = sw_completionTail w"
proof (cases "sw_sent w")
  case True
  then show ?thesis
    using assms by (auto simp: sw_flushMeta_def sw_open_def split: option.splits)
next
  case False
  define code where "code = (if sw_code w = 0 then 200 else sw_code w)"
  define c where "c = meta_chunk code (sw_headers w)"
  have err: "sw_err w = None"
    using assms by (cases "sw_err w") (auto simp: sw_flushMeta_def)
  have fresh: "sw_log w = []" "sw_completionTail w = []"
    using assms(1) False err by (auto simp: sw_inv_def)
  have "w' = w\<lparr>sw_sent := True, sw_log := [(c, None)]\<rparr>"
    using assms(2) False err fresh
    by (auto simp: sw_flushMeta_def sw_send_def sw_fail_def Let_def code_def c_def
        split: option.splits if_splits)
  moreover have "log_ok [(c, None)]"
    by (auto simp: log_ok_def c_def)
  ultimately show ?thesis
    using assms(1) False err fresh
    by (auto simp: sw_open_def sw_inv_def sw_body_def sw_data_def c_def)
qed

lemma flushMeta_fail:
  assumes "sw_inv w" and "sw_err w = None" and "sw_flushMeta t w = (Some e, w')"
  shows "sw_inv w' \<and> sw_err w' = Some e \<and> sw_body w' = [] \<and> sw_body w = []"
proof -
  define code where "code = (if sw_code w = 0 then 200 else sw_code w)"
  define c where "c = meta_chunk code (sw_headers w)"
  have "\<not> sw_sent w"
    using assms by (auto simp: sw_flushMeta_def)
  then have fresh: "sw_log w = []" "sw_completionTail w = []"
    using assms(1,2) by (auto simp: sw_inv_def)
  have "w' = w\<lparr>sw_sent := True, sw_err := Some e, sw_log := sw_log w'\<rparr> \<and>
        (sw_log w' = [] \<or> sw_log w' = [(c, Some e)])"
    using assms(2,3) \<open>\<not> sw_sent w\<close> fresh
    by (cases w) (auto simp: sw_flushMeta_def sw_send_def sw_fail_def Let_def code_def c_def
        split: option.splits if_splits prod.splits)
  then obtain l where w': "w' = w\<lparr>sw_sent := True, sw_err := Some e, sw_log := l\<rparr>"
    and l: "l = [] \<or> l = [(c, Some e)]"
    by blast
  have "log_ok l"
    using l by (auto simp: log_ok_def c_def)
  then show ?thesis
    using assms(1) fresh l by (auto simp: w' sw_inv_def sw_body_def sw_data_def)
qed

subsection \<open>Write\<close>

lemma write_completing_eq:
  assumes "k = length (sw_completionTail w) + length d - streamChunkSize"
    and "m = min k (length (sw_completionTail w))"
  shows "sw_write_completing t d w =
    (if m > 0
     then
       (case sw_send t (data_chunk (take m (sw_completionTail w))) w of
          (Some e, w) \<Rightarrow> (let (r, w) = sw_fail e w in ((0, r), w))
        | (None, w) \<Rightarrow>
            completion_loop t (length d) d (k - m)
              (w\<lparr>sw_completionTail := drop m (sw_completionTail w)\<rparr>))
     else completion_loop t (length d) d k w)"
  unfolding assms sw_write_completing_def Let_def by (rule refl)

lemma write_completing_ok:
  assumes "sw_open w" and "sw_completing w" and "sw_write_completing t d w = ((n, None), w')"
  shows "sw_open w' \<and> n = length d \<and> sw_body w' = sw_body w @ d"
proof -
  define k where "k = length (sw_completionTail w) + length d - streamChunkSize"
  define m where "m = min k (length (sw_completionTail w))"
  have tail: "length (sw_completionTail w) \<le> streamChunkSize"
    using assms(1) by (simp add: sw_open_def sw_inv_def)
  show ?thesis
  proof (cases "m > 0")
    case False
    then have "loop_fits d k w"
      using tail by (auto simp: loop_fits_def k_def m_def)
    moreover have "completion_loop t (length d) d k w = ((n, None), w')"
      using assms(3) False by (simp add: write_completing_eq [OF k_def m_def])
    ultimately show ?thesis
      using completion_loop_ok assms(1,2) by blast
  next
    case True
    obtain e w1 where send: "sw_send t (data_chunk (take m (sw_completionTail w))) w = (e, w1)"
      by force
    have len: "length (take m (sw_completionTail w)) \<le> streamChunkSize"
      using tail by simp
    obtain r w3 where fail: "sw_fail (the e) w1 = (r, w3)" by force
    have "e = None"
    proof (rule ccontr)
      assume "e \<noteq> None"
      then have "r \<noteq> None"
        using send_slice_fail [OF assms(1) len, of t "the e" w1 r w3] send fail by simp
      then show False
        using assms(3) True send fail \<open>e \<noteq> None\<close>
        by (auto simp: write_completing_eq [OF k_def m_def])
    qed
    define w2 where "w2 = w1\<lparr>sw_completionTail := drop m (sw_completionTail w1)\<rparr>"
    have 1: "sw_open w1" "sw_data w1 = sw_data w @ take m (sw_completionTail w)"
      "sw_completionTail w1 = sw_completionTail w" "sw_completing w1"
      using send_slice_ok [OF assms(1) len, of t w1] send \<open>e = None\<close> assms(2) by auto
    have 2: "sw_open w2" "sw_completing w2" "sw_body w2 = sw_body w"
      using 1 tail by (auto simp: w2_def sw_open_def sw_inv_def sw_body_def sw_data_def)
    have "loop_fits d (k - m) w2"
      using tail 1 by (auto simp: loop_fits_def k_def m_def w2_def)
    moreover have "completion_loop t (length d) d (k - m) w2 = ((n, None), w')"
      using assms(3) True send \<open>e = None\<close> 1
      by (simp add: write_completing_eq [OF k_def m_def] w2_def)
    ultimately show ?thesis
      using completion_loop_ok [OF 2(1,2)] 2(3) by metis
  qed
qed

lemma write_completing_fail:
  assumes "sw_open w" and "sw_completing w" and "sw_write_completing t d w = ((n, Some e), w')"
  shows "sw_inv w' \<and> sw_err w' = Some e \<and> n \<le> length d \<and> prefix (sw_body w') (sw_body w @ d)"
proof -
  define k where "k = length (sw_completionTail w) + length d - streamChunkSize"
  define m where "m = min k (length (sw_completionTail w))"
  have tail: "length (sw_completionTail w) \<le> streamChunkSize"
    using assms(1) by (simp add: sw_open_def sw_inv_def)
  show ?thesis
  proof (cases "m > 0")
    case False
    then have fits: "loop_fits d k w"
      using tail by (auto simp: loop_fits_def k_def m_def)
    have loop: "completion_loop t (length d) d k w = ((n, Some e), w')"
      using assms(3) False by (simp add: write_completing_eq [OF k_def m_def])
    have "k = 0 \<or> sw_completionTail w = []"
      using fits by (auto simp: loop_fits_def)
    then have "sw_completionTail w = []"
      using loop by auto
    then show ?thesis
      using completion_loop_fail [OF assms(1,2) fits _ loop] by (simp add: sw_body_def)
  next
    case True
    obtain er w1 where send: "sw_send t (data_chunk (take m (sw_completionTail w))) w = (er, w1)"
      by force
    have len: "length (take m (sw_completionTail w)) \<le> streamChunkSize"
      using tail by simp
    show ?thesis
    proof (cases er)
      case (Some e')
      obtain r w2 where fail: "sw_fail e' w1 = (r, w2)" by force
      then show ?thesis
        using assms(3) True send Some send_slice_fail [OF assms(1) len, of t e' w1 r w2]
        by (auto simp: write_completing_eq [OF k_def m_def] sw_body_def)
    next
      case None
      define w2 where "w2 = w1\<lparr>sw_completionTail := drop m (sw_completionTail w1)\<rparr>"
      have 1: "sw_open w1" "sw_data w1 = sw_data w @ take m (sw_completionTail w)"
        "sw_completionTail w1 = sw_completionTail w" "sw_completing w1"
        using send_slice_ok [OF assms(1) len, of t w1] send None assms(2) by auto
      have 2: "sw_open w2" "sw_completing w2" "sw_body w2 = sw_body w" "sw_data w2 = sw_data w1"
        using 1 tail by (auto simp: w2_def sw_open_def sw_inv_def sw_body_def sw_data_def)
      have fits: "loop_fits d (k - m) w2"
        using tail 1 by (auto simp: loop_fits_def k_def m_def w2_def)
      have loop: "completion_loop t (length d) d (k - m) w2 = ((n, Some e), w')"
        using assms(3) True send None 1
        by (simp add: write_completing_eq [OF k_def m_def] w2_def)
      have "k - m = 0 \<or> sw_completionTail w2 = []"
        using fits by (auto simp: loop_fits_def)
      then have "sw_completionTail w2 = []"
        using loop by auto
      then show ?thesis
        using completion_loop_fail [OF 2(1,2) fits _ loop] 2(3) by (simp add: sw_body_def)
    qed
  qed
qed

lemma sw_Write_ok:
  assumes "sw_inv w" and "sw_Write t d w = ((n, None), w')"
  shows "n = length d \<and> sw_body w' = sw_body w @ d \<and> sw_open w' \<and> sw_err w = None"
proof -
  have err: "sw_err w = None"
    using assms(2) by (cases "sw_err w") (auto simp: sw_Write_def)
  obtain e w1 where flush: "sw_flushMeta t w = (e, w1)" by force
  have "e = None"
    using assms(2) err flush by (cases e) (auto simp: sw_Write_def)
  then have 1: "sw_open w1" "sw_body w1 = sw_body w"
    using flushMeta_ok [OF assms(1)] flush by auto
  show ?thesis
  proof (cases "sw_completing w1")
    case True
    then have "sw_write_completing t d w1 = ((n, None), w')"
      using assms(2) err flush \<open>e = None\<close> by (simp add: sw_Write_def)
    then show ?thesis
      using write_completing_ok [OF 1(1) True] 1(2) err by simp
  next
    case False
    then have tail: "sw_completionTail w1 = []"
      using 1(1) by (auto simp: sw_open_def sw_inv_def)
    show ?thesis
    proof (cases "d = []")
      case True
      obtain er w2 where send: "sw_send t (data_chunk []) w1 = (er, w2)" by force
      obtain r w3 where fail: "sw_fail (the er) w2 = (r, w3)" by force
      have "er = None"
      proof (rule ccontr)
        assume "er \<noteq> None"
        then have "r \<noteq> None"
          using send_slice_fail [OF 1(1), of "[]" t "the er" w2 r w3] send fail by simp
        then show False
          using assms(2) True False err flush \<open>e = None\<close> send fail \<open>er \<noteq> None\<close>
          by (auto simp: sw_Write_def)
      qed
      then show ?thesis
        using assms(2) True False err flush \<open>e = None\<close> send tail 1(2)
          send_slice_ok [OF 1(1), of "[]" t w2]
        by (simp add: sw_Write_def sw_body_def)
    next
      case nonempty: False
      then have "write_loop t d 0 w1 = ((n, None), w')"
        using assms(2) False err flush \<open>e = None\<close> by (simp add: sw_Write_def)
      then show ?thesis
        using write_loop_ok [OF 1(1)] 1(2) tail err by (simp add: sw_body_def)
    qed
  qed
qed

lemma sw_Write_fail:
  assumes "sw_inv w" and "sw_Write t d w = ((n, Some er), w')"
  shows "n \<le> length d \<and> prefix (sw_body w') (sw_body w @ d) \<and> sw_err w' = Some er \<and> sw_inv w'"
proof (cases "sw_err w")
  case (Some e0)
  then show ?thesis using assms by (simp add: sw_Write_def)
next
  case err: None
  obtain e w1 where flush: "sw_flushMeta t w = (e, w1)" by force
  show ?thesis
  proof (cases e)
    case (Some e1)
    then show ?thesis
      using assms err flush flushMeta_fail [OF assms(1) err, of t e1 w1]
      by (auto simp: sw_Write_def)
  next
    case None
    then have 1: "sw_open w1" "sw_body w1 = sw_body w"
      using flushMeta_ok [OF assms(1)] flush by auto
    show ?thesis
    proof (cases "sw_completing w1")
      case True
      then have "sw_write_completing t d w1 = ((n, Some er), w')"
        using assms(2) err flush None by (simp add: sw_Write_def)
      then show ?thesis
        using write_completing_fail [OF 1(1) True] 1(2) by simp
    next
      case False
      then have tail: "sw_completionTail w1 = []"
        using 1(1) by (auto simp: sw_open_def sw_inv_def)
      show ?thesis
      proof (cases "d = []")
        case True
        obtain e2 w2 where send: "sw_send t (data_chunk []) w1 = (e2, w2)" by force
        obtain r w3 where fail: "sw_fail (the e2) w2 = (r, w3)" by force
        have "e2 \<noteq> None"
          using assms(2) True False err flush None send by (cases e2) (auto simp: sw_Write_def)
        then show ?thesis
          using assms(2) True False err flush None send fail tail 1(2)
            send_slice_fail [OF 1(1), of "[]" t "the e2" w2 r w3]
          by (auto simp: sw_Write_def sw_body_def)
      next
        case nonempty: False
        then have "write_loop t d 0 w1 = ((n, Some er), w')"
          using assms(2) False err flush None by (simp add: sw_Write_def)
        then show ?thesis
          using write_loop_fail [OF 1(1), of t d 0 n er w'] 1(2) tail
          by (auto simp: sw_body_def take_is_prefix)
      qed
    qed
  qed
qed

lemma stream_ops_simps [simp]:
  "wr_header (stream_ops t) = sw_Header" "wr_status (stream_ops t) = sw_WriteHeader"
  "wr_write (stream_ops t) = sw_Write t" "wr_begin (stream_ops t) = sw_BeginStreamCompletion"
  by (simp_all add: stream_ops_def)

lemma sw_op_keeps [simp]:
  "sw_body (sw_Header f w) = sw_body w" "sw_err (sw_Header f w) = sw_err w"
  "sw_body (sw_WriteHeader c w) = sw_body w" "sw_err (sw_WriteHeader c w) = sw_err w"
  "sw_body (sw_BeginStreamCompletion w) = sw_body w"
  "sw_err (sw_BeginStreamCompletion w) = sw_err w"
  by (simp_all add: sw_body_def sw_data_def sw_Header_def sw_WriteHeader_def
      sw_BeginStreamCompletion_def)

interpretation stream_writer: response_writer "stream_ops t" sw_body sw_err sw_inv for t
proof unfold_locales
  fix w d n w'
  assume "sw_inv w" "wr_write (stream_ops t) d w = ((n, None), w')"
  then show "n = length d \<and> sw_body w' = sw_body w @ d \<and> sw_err w' = None \<and> sw_err w = None \<and>
      sw_inv w'"
    using sw_Write_ok [of w t d n w'] by (auto simp: sw_open_def)
next
  fix w d n e w'
  assume "sw_inv w" "wr_write (stream_ops t) d w = ((n, Some e), w')"
  then show "n \<le> length d \<and> prefix (sw_body w') (sw_body w @ d) \<and> sw_err w' = Some e \<and> sw_inv w'"
    using sw_Write_fail [of w t d n e w'] by simp
qed (simp_all add: sw_Write_def)

lemma write_loop_end: "length d \<le> offset \<Longrightarrow> write_loop t d offset w = ((length d, None), w)"
  by (simp add: write_loop.simps [of t d offset w])

section \<open>The head of the response\<close>

text \<open>
  What the first message has to say, read off the program: the status of the first WriteHeader
  before the first Write, the headers as they are at that point.
\<close>

primrec head_of ::
  "'r writer_prog \<Rightarrow> header \<Rightarrow> go_int \<Rightarrow> bool \<Rightarrow> header \<times> go_int \<times> bool" where
  "head_of (Return r) h c wrote = (h, c, wrote)"
| "head_of (OnHeader f p) h c wrote = head_of p (f h) c wrote"
| "head_of (CallWriteHeader s p) h c wrote = head_of p h (if wrote then c else s) True"
| "head_of (CallBeginCompletion p) h c wrote = head_of p h c wrote"
| "head_of (CallWrite d k) h c wrote = (h, c, wrote)"

definition head_chunk :: "header \<Rightarrow> go_int \<Rightarrow> ForwardChunk" where
  "head_chunk h c = meta_chunk (if c = 0 then 200 else c) h"

text \<open>The log only grows.\<close>

lemma sw_send_log: "sw_send t c w = (e, w') \<Longrightarrow> prefix (sw_log w) (sw_log w')"
  by (auto simp: sw_send_def Let_def)

lemma sw_fail_log [simp]: "sw_log (snd (sw_fail e w)) = sw_log w"
  by (simp add: sw_fail_def Let_def)

lemma write_loop_log: "prefix (sw_log w) (sw_log (snd (write_loop t data offset w)))"
proof (induction "length data - offset" arbitrary: offset w rule: less_induct)
  case less
  show ?case
  proof (cases "offset < length data")
    case False
    then show ?thesis by (simp add: write_loop_end)
  next
    case True
    obtain e w1 where send: "sw_send t (data_chunk (take streamChunkSize (drop offset data))) w =
        (e, w1)" by force
    obtain r w2 where fail: "sw_fail (the e) w1 = (r, w2)" by force
    have "sw_log w2 = sw_log w1" using fail sw_fail_log [of "the e" w1] by simp
    moreover have "prefix (sw_log w1) (sw_log (snd (write_loop t data (offset + streamChunkSize) w1)))"
      using less [of "offset + streamChunkSize" w1] True by (simp add: diff_less_mono2)
    ultimately show ?thesis
      using sw_send_log [OF send] prefix_order.trans send fail
      by (cases e) (auto simp: write_loop_step [OF True])
  qed
qed

lemma completion_loop_log:
  "sendBytes \<le> length data \<Longrightarrow>
   prefix (sw_log w) (sw_log (snd (completion_loop t whole data sendBytes w)))"
proof (induction sendBytes arbitrary: data w rule: less_induct)
  case (less k)
  show ?case
  proof (cases "0 < k")
    case False
    then show ?thesis by simp
  next
    case True
    define m where "m = min k streamChunkSize"
    have m: "0 < m" "m \<le> k" using True by (auto simp: m_def)
    note step = completion_loop_step [OF True less.prems, of t whole w, folded m_def]
    obtain e w1 where send: "sw_send t (data_chunk (take m data)) w = (e, w1)" by force
    obtain r w2 where fail: "sw_fail (the e) w1 = (r, w2)" by force
    have "sw_log w2 = sw_log w1" using fail sw_fail_log [of "the e" w1] by simp
    moreover have "prefix (sw_log w1) (sw_log (snd (completion_loop t whole (drop m data) (k - m) w1)))"
      using less.IH [of "k - m" "drop m data" w1] less.prems m by simp
    ultimately show ?thesis
      using sw_send_log [OF send] prefix_order.trans send fail
      by (cases e) (auto simp: step)
  qed
qed

lemma write_completing_log: "prefix (sw_log w) (sw_log (snd (sw_write_completing t d w)))"
proof -
  define k where "k = length (sw_completionTail w) + length d - streamChunkSize"
  define m where "m = min k (length (sw_completionTail w))"
  note eq = write_completing_eq [OF k_def m_def, of t]
  show ?thesis
  proof (cases "m > 0")
    case False
    then have "k = 0 \<or> sw_completionTail w = []" by (auto simp: m_def)
    then have "k \<le> length d" by (auto simp: k_def)
    then show ?thesis using False completion_loop_log [of k d w t "length d"] by (simp add: eq)
  next
    case True
    obtain e w1 where send: "sw_send t (data_chunk (take m (sw_completionTail w))) w = (e, w1)"
      by force
    obtain r w2 where fail: "sw_fail (the e) w1 = (r, w2)" by force
    have "sw_log w2 = sw_log w1" using fail sw_fail_log [of "the e" w1] by simp
    moreover have "k - m \<le> length d" by (auto simp: k_def m_def)
    moreover have "prefix (sw_log w1) (sw_log (snd (completion_loop t (length d) d (k - m)
        (w1\<lparr>sw_completionTail := drop m (sw_completionTail w1)\<rparr>))))"
      using completion_loop_log [OF \<open>k - m \<le> length d\<close>,
          of "w1\<lparr>sw_completionTail := drop m (sw_completionTail w1)\<rparr>" t "length d"] by simp
    ultimately show ?thesis
      using sw_send_log [OF send] prefix_order.trans send fail True
      by (cases e) (auto simp: eq)
  qed
qed

lemma flushMeta_log:
  assumes "sw_inv w" and "sw_err w = None" and "sw_log w = []" and "sw_flushMeta t w = (e, w')"
  shows "(sw_log w' = [] \<and> sw_err w' \<noteq> None \<and> e = sw_err w') \<or>
         (\<exists>r. sw_log w' = [(head_chunk (sw_headers w) (sw_code w), r)])"
proof -
  have "\<not> sw_sent w" using assms by (auto simp: sw_inv_def)
  then show ?thesis
    using assms(2-4)
    by (auto simp: sw_flushMeta_def sw_send_def sw_fail_def head_chunk_def Let_def
        split: option.splits prod.splits if_splits)
qed

lemma flushMeta_sent: "sw_sent w \<Longrightarrow> sw_flushMeta t w = (sw_err w, w)"
  by (simp add: sw_flushMeta_def split: option.splits)

lemma sw_Write_open_log:
  assumes "sw_err w = None" and "sw_flushMeta t w = (None, w1)"
  shows "prefix (sw_log w1) (sw_log (snd (sw_Write t d w)))"
proof (cases "\<not> sw_completing w1 \<and> length d = 0")
  case True
  obtain e w2 where send: "sw_send t (data_chunk d) w1 = (e, w2)" by force
  obtain r w3 where fail: "sw_fail (the e) w2 = (r, w3)" by force
  have "sw_log w3 = sw_log w2" using fail sw_fail_log [of "the e" w2] by simp
  then show ?thesis
    using assms True sw_send_log [OF send] send fail by (cases e) (auto simp: sw_Write_def)
next
  case False
  then show ?thesis
    using assms write_completing_log [of w1 t d] write_loop_log [of w1 t d 0]
    by (auto simp: sw_Write_def)
qed

lemma sw_Write_log:
  assumes "sw_inv w"
  shows "if sw_log w = [] \<and> sw_err w = None
         then (sw_log (snd (sw_Write t d w)) = [] \<and> sw_err (snd (sw_Write t d w)) \<noteq> None) \<or>
              (\<exists>r xs. sw_log (snd (sw_Write t d w)) =
                       (head_chunk (sw_headers w) (sw_code w), r) # xs)
         else prefix (sw_log w) (sw_log (snd (sw_Write t d w))) \<and>
              (sw_err w \<noteq> None \<longrightarrow> snd (sw_Write t d w) = w)"
proof (cases "sw_err w")
  case (Some e)
  then show ?thesis by (simp add: sw_Write_def)
next
  case err: None
  obtain e w1 where flush: "sw_flushMeta t w = (e, w1)" by force
  show ?thesis
  proof (cases e)
    case (Some er)
    then have w1: "sw_Write t d w = ((0, Some er), w1)"
      using err flush by (simp add: sw_Write_def)
    show ?thesis
    proof (cases "sw_log w = []")
      case True
      then show ?thesis using flushMeta_log [OF assms err True flush] w1 err by auto
    next
      case False
      then have "sw_sent w" using assms err by (auto simp: sw_inv_def)
      then show ?thesis using flushMeta_sent flush Some err by auto
    qed
  next
    case None
    note pre = sw_Write_open_log [OF err flush [unfolded None], of d]
    show ?thesis
    proof (cases "sw_log w = []")
      case True
      then have "\<exists>r. sw_log w1 = [(head_chunk (sw_headers w) (sw_code w), r)]"
        using flushMeta_log [OF assms err True flush] None by auto
      then show ?thesis using pre True err by (auto simp: prefix_def)
    next
      case False
      then have "sw_sent w" using assms err by (auto simp: sw_inv_def)
      then show ?thesis using flushMeta_sent [of w t] flush pre err False by auto
    qed
  qed
qed

lemma sw_op_log [simp]:
  "sw_log (sw_Header f w) = sw_log w" "sw_log (sw_WriteHeader c w) = sw_log w"
  "sw_log (sw_BeginStreamCompletion w) = sw_log w"
  by (simp_all add: sw_Header_def sw_WriteHeader_def sw_BeginStreamCompletion_def)

text \<open>Once something was handed to the stream, its first message stays.\<close>

lemma run_log_prefix:
  "sw_inv w \<Longrightarrow> run_prog (stream_ops t) p w = (r, w', tr) \<Longrightarrow> sw_log w \<noteq> [] \<or> sw_err w \<noteq> None \<Longrightarrow>
   prefix (sw_log w) (sw_log w') \<and> (sw_err w \<noteq> None \<longrightarrow> sw_log w' = sw_log w)"
proof (induction p arbitrary: w r w' tr)
  case (CallWrite d k)
  from CallWrite.prems(2) show ?case
  proof (rule run_write_cases)
    fix n e w1 tr'
    assume 1: "wr_write (stream_ops t) d w = ((n, e), w1)"
      "run_prog (stream_ops t) (k (n, e)) w1 = (r, w', tr')"
    have w1: "prefix (sw_log w) (sw_log w1)" "sw_err w \<noteq> None \<longrightarrow> w1 = w"
      using sw_Write_log [OF CallWrite.prems(1), of t d] CallWrite.prems(3) 1(1)
      by (auto split: if_splits)
    have inv1: "sw_inv w1" by (rule stream_writer.write_inv [OF CallWrite.prems(1) 1(1)])
    have "sw_log w1 \<noteq> [] \<or> sw_err w1 \<noteq> None"
      using w1 CallWrite.prems(3) by auto
    then have "prefix (sw_log w1) (sw_log w') \<and> (sw_err w1 \<noteq> None \<longrightarrow> sw_log w' = sw_log w1)"
      using CallWrite.IH [OF _ inv1 1(2)] by simp
    then show ?thesis using w1 prefix_order.trans by auto
  qed
next
  case (OnHeader f p)
  show ?case
    using OnHeader.IH [of "sw_Header f w" r w' tr] OnHeader.prems
    by simp
next
  case (CallWriteHeader c p)
  show ?case
    using CallWriteHeader.IH [of "sw_WriteHeader c w" r w' tr] CallWriteHeader.prems
    by simp
next
  case (CallBeginCompletion p)
  show ?case
    using CallBeginCompletion.IH [of "sw_BeginStreamCompletion w" r w' tr] CallBeginCompletion.prems
    by simp
qed simp

lemma run_head:
  "sw_inv w \<Longrightarrow> sw_log w = [] \<Longrightarrow> sw_err w = None \<Longrightarrow>
   run_prog (stream_ops t) p w = (r, w', tr) \<Longrightarrow>
   head_of p (sw_headers w) (sw_code w) (sw_wroteHeader w) = (h, c, wrote) \<Longrightarrow>
   (sw_log w' \<noteq> [] \<longrightarrow> fst (hd (sw_log w')) = head_chunk h c) \<and>
   (sw_log w' = [] \<and> sw_err w' = None \<longrightarrow>
      sw_headers w' = h \<and> sw_code w' = c \<and> sw_wroteHeader w' = wrote)"
proof (induction p arbitrary: w r w' tr)
  case (Return x)
  then show ?case by simp
next
  case (CallWrite d k)
  from CallWrite.prems(4) show ?case
  proof (rule run_write_cases)
    fix n e w1 tr'
    assume 1: "wr_write (stream_ops t) d w = ((n, e), w1)"
      "run_prog (stream_ops t) (k (n, e)) w1 = (r, w', tr')"
    have hc: "h = sw_headers w" "c = sw_code w" using CallWrite.prems(5) by simp_all
    have w1: "(sw_log w1 = [] \<and> sw_err w1 \<noteq> None) \<or> (\<exists>r xs. sw_log w1 = (head_chunk h c, r) # xs)"
      using sw_Write_log [OF CallWrite.prems(1), of t d] CallWrite.prems(2,3) 1(1) hc by simp
    have inv1: "sw_inv w1" by (rule stream_writer.write_inv [OF CallWrite.prems(1) 1(1)])
    have "prefix (sw_log w1) (sw_log w') \<and> (sw_err w1 \<noteq> None \<longrightarrow> sw_log w' = sw_log w1)"
      using run_log_prefix [OF inv1 1(2)] w1 by auto
    moreover have "sw_err w1 \<noteq> None \<longrightarrow> sw_err w' \<noteq> None"
      using stream_writer.run_failed [OF inv1 _ 1(2)] by blast
    ultimately show ?thesis using w1 by (auto simp: prefix_def)
  qed
next
  case (OnHeader f p)
  show ?case
    using OnHeader.IH [of "sw_Header f w" r w' tr] OnHeader.prems
    by (simp add: sw_inv_def sw_Header_def)
next
  case (CallWriteHeader s p)
  have "\<not> sw_sent w" using CallWriteHeader.prems(1-3) by (auto simp: sw_inv_def)
  then show ?case
    using CallWriteHeader.IH [of "sw_WriteHeader s w" r w' tr] CallWriteHeader.prems
    by (cases "sw_wroteHeader w") (auto simp: sw_WriteHeader_def sw_inv_def)
next
  case (CallBeginCompletion p)
  show ?case
    using CallBeginCompletion.IH [of "sw_BeginStreamCompletion w" r w' tr] CallBeginCompletion.prems
    by (simp add: sw_BeginStreamCompletion_def sw_inv_def)
qed

end
