(* ===== verification/ForwardRequest.thy ===== *)
theory ForwardRequest
  imports Codec Dispatch
begin

text \<open>
  The request of a Forward call and how it crosses the plugin boundary: the account and request
  types of \<^verbatim>\<open>sdkgo/models.go\<close> and \<^verbatim>\<open>sdkgo/gateway.go\<close>, \<^verbatim>\<open>buildProtoRequest\<close> of
  \<^verbatim>\<open>runtimego/grpc/gateway_client.go\<close> on the host's side, \<^verbatim>\<open>buildAccount\<close> and the request the two
  Forward handlers of \<^verbatim>\<open>runtimego/grpc/gateway_server.go\<close> build on the plugin's side.

  An account's credentials travel as a JSON object of strings. Package encoding/json is a
  parameter here: \<open>marshal\<close> and \<open>unmarshal\<close>, the latter \<open>None\<close> when it reports an error. What the
  code relies on is \<open>creds_json\<close>: decoding what was encoded gives the map back.
\<close>

section \<open>Types\<close>

record Account =
  ac_ID :: "64 word"
  ac_Name :: string
  ac_Platform :: string
  ac_Type :: string
  ac_Credentials :: metadata
  ac_ProxyURL :: string

definition zero_account :: Account where
  "zero_account =
     \<lparr>ac_ID = 0, ac_Name = [], ac_Platform = [], ac_Type = [], ac_Credentials = [],
      ac_ProxyURL = []\<rparr>"

text \<open>The request without its \<^verbatim>\<open>Writer\<close>, which the handlers pass beside it.\<close>

record ForwardRequest =
  fr_Account :: Account
  fr_Body :: bytes
  fr_Headers :: header
  fr_Model :: string
  fr_DispatchPlan :: DispatchPlan
  fr_Stream :: bool
  fr_TraceFinalError :: bool

record AccountProto =
  pa_Id :: "64 word"
  pa_Name :: string
  pa_Platform :: string
  pa_Type :: string
  pa_CredentialsJson :: bytes
  pa_ProxyUrl :: string

record PbForwardRequest =
  pf_Body :: bytes
  pf_Headers :: pb_headers
  pf_Model :: string
  pf_Stream :: bool
  pf_Account :: "AccountProto option"
  pf_DispatchPlan :: "DispatchPlanProto option"
  pf_TraceFinalError :: bool

section \<open>Accounts\<close>

definition accountFromProto :: "(bytes \<Rightarrow> metadata option) \<Rightarrow> AccountProto \<Rightarrow> Account" where
  "accountFromProto unmarshal a =
     (let creds = (if length (pa_CredentialsJson a) > 0
                   then (case unmarshal (pa_CredentialsJson a) of
                           None \<Rightarrow> []
                         | Some c \<Rightarrow> c)
                   else [])
      in \<lparr>ac_ID = pa_Id a, ac_Name = pa_Name a, ac_Platform = pa_Platform a,
          ac_Type = pa_Type a, ac_Credentials = creds, ac_ProxyURL = pa_ProxyUrl a\<rparr>)"

definition buildAccount :: "(bytes \<Rightarrow> metadata option) \<Rightarrow> PbForwardRequest \<Rightarrow> Account" where
  "buildAccount unmarshal req =
     (case pf_Account req of None \<Rightarrow> zero_account | Some a \<Rightarrow> accountFromProto unmarshal a)"

definition accountToProto :: "(metadata \<Rightarrow> bytes) \<Rightarrow> Account \<Rightarrow> AccountProto" where
  "accountToProto marshal a =
     \<lparr>pa_Id = ac_ID a, pa_Name = ac_Name a, pa_Platform = ac_Platform a, pa_Type = ac_Type a,
      pa_CredentialsJson = marshal (ac_Credentials a), pa_ProxyUrl = ac_ProxyURL a\<rparr>"

section \<open>Requests\<close>

definition buildProtoRequest :: "(metadata \<Rightarrow> bytes) \<Rightarrow> ForwardRequest \<Rightarrow> PbForwardRequest" where
  "buildProtoRequest marshal req =
     \<lparr>pf_Body = fr_Body req, pf_Headers = httpHeadersToProto (fr_Headers req),
      pf_Model = fr_Model req, pf_Stream = fr_Stream req,
      pf_Account = Some (accountToProto marshal (fr_Account req)),
      pf_DispatchPlan = dispatchPlanToProto (fr_DispatchPlan req),
      pf_TraceFinalError = fr_TraceFinalError req\<rparr>"

text \<open>
  The request the handler gives the plugin: \<^verbatim>\<open>Forward\<close> passes the stream flag on,
  \<^verbatim>\<open>ForwardStream\<close> sets it.
\<close>

definition handlerRequest ::
  "(bytes \<Rightarrow> metadata option) \<Rightarrow> bool \<Rightarrow> PbForwardRequest \<Rightarrow> ForwardRequest" where
  "handlerRequest unmarshal stream req =
     \<lparr>fr_Account = buildAccount unmarshal req, fr_Body = pf_Body req,
      fr_Headers = protoHeadersToHTTP (pf_Headers req), fr_Model = pf_Model req,
      fr_DispatchPlan = dispatchPlanFromProto (pf_DispatchPlan req), fr_Stream = stream,
      fr_TraceFinalError = pf_TraceFinalError req\<rparr>"

section \<open>Lemmas\<close>

text \<open>
  What the code relies on of package encoding/json for one map: it is encoded to at least
  \<^verbatim>\<open>{}\<close> or \<^verbatim>\<open>null\<close>, and decodes to itself.
\<close>

definition creds_json :: "(metadata \<Rightarrow> bytes) \<Rightarrow> (bytes \<Rightarrow> metadata option) \<Rightarrow> metadata \<Rightarrow> bool" where
  "creds_json marshal unmarshal c \<longleftrightarrow>
     marshal c \<noteq> [] \<and> unmarshal (marshal c) = Some c"

lemma account_round_trip:
  "creds_json marshal unmarshal (ac_Credentials a) \<Longrightarrow>
   accountFromProto unmarshal (accountToProto marshal a) = a"
  by (cases a) (simp add: creds_json_def accountFromProto_def accountToProto_def)

lemma request_round_trip:
  assumes "creds_json marshal unmarshal (ac_Credentials (fr_Account req))"
  shows "handlerRequest unmarshal s (buildProtoRequest marshal req) =
           req\<lparr>fr_DispatchPlan := plan_view (fr_DispatchPlan req), fr_Stream := s\<rparr>"
  using account_round_trip [OF assms]
  by (cases req) (simp add: handlerRequest_def buildProtoRequest_def buildAccount_def
      header_codec.dec_enc dispatchPlan_dec_enc)

text \<open>Credentials that do not decode never fail the call; the account then has none.\<close>

lemma accountFromProto_bad_json:
  "unmarshal (pa_CredentialsJson a) = None \<Longrightarrow> ac_Credentials (accountFromProto unmarshal a) = []"
  by (simp add: accountFromProto_def)

end
