(* ===== verification/GatewayServer.thy ===== *)
theory GatewayServer
  imports StreamWriter ForwardRequest
begin

text \<open>
  The plugin's side of a Forward call: the handlers \<^verbatim>\<open>Forward\<close> and \<^verbatim>\<open>ForwardStream\<close> of
  \<^verbatim>\<open>runtimego/grpc/gateway_server.go\<close>, the buffer that catches what a plugin writes during a
  unary call, and the response budget of \<^verbatim>\<open>runtimego/grpc/response_limits.go\<close>.

  The plugin is a function from the request to a program over the writer that ends in its
  outcome and error. \<^verbatim>\<open>http.DetectContentType\<close>, \<^verbatim>\<open>proto.Size\<close> and the time the call took are
  parameters.
\<close>

type_synonym forward_result = "ForwardOutcome \<times> go_error option"
type_synonym gateway_impl = "ForwardRequest \<Rightarrow> forward_result writer_prog"

section \<open>The response budget\<close>

text \<open>
  \<^verbatim>\<open>checkOutcomeMessage\<close>: \<open>sz\<close> is the size of the message around the outcome. It may drop the
  diagnostic from the outcome the message points to.
\<close>

definition checkOutcomeMessage ::
  "(PbForwardOutcome \<Rightarrow> nat) \<Rightarrow> PbForwardOutcome \<Rightarrow> go_error option \<times> PbForwardOutcome" where
  "checkOutcomeMessage sz p =
     (if length (case pfo_Upstream p of None \<Rightarrow> [] | Some u \<Rightarrow> pu_Body u) > MaxBufferedResponseBytes
      then
        (Some (ErrStatus ResourceExhausted ''plugin response body exceeds payload budget''), p)
      else
        (let p = (if checkResponseMessage (sz p) \<noteq> None
                  then p\<lparr>pfo_FinalErrorDiagnostic := None\<rparr> else p)
         in (checkResponseMessage (sz p), p)))"

definition checkedOutcome ::
  "(PbForwardOutcome \<Rightarrow> nat) \<Rightarrow> ForwardOutcome \<Rightarrow> go_error option \<times> PbForwardOutcome" where
  "checkedOutcome sz outcome = checkOutcomeMessage sz (outcomeToProto outcome)"

section \<open>The buffer of a unary call\<close>

record bufferWriter =
  bw_headers :: header
  bw_code :: go_int
  bw_body :: bytes
  bw_err :: "go_error option"
  bw_onLimit_called :: bool

definition new_bufferWriter :: bufferWriter where
  "new_bufferWriter =
     \<lparr>bw_headers = [], bw_code = 0, bw_body = [], bw_err = None, bw_onLimit_called = False\<rparr>"

definition bw_Header :: "(header \<Rightarrow> header) \<Rightarrow> bufferWriter \<Rightarrow> bufferWriter" where
  "bw_Header f w = w\<lparr>bw_headers := f (bw_headers w)\<rparr>"

definition bw_WriteHeader :: "go_int \<Rightarrow> bufferWriter \<Rightarrow> bufferWriter" where
  "bw_WriteHeader c w = w\<lparr>bw_code := c\<rparr>"

definition bw_Write :: "(bytes \<Rightarrow> string) \<Rightarrow> bytes \<Rightarrow> bufferWriter \<Rightarrow> write_result \<times> bufferWriter"
where
  "bw_Write detect data w =
     (case bw_err w of
        Some e \<Rightarrow> ((0, Some e), w)
      | None \<Rightarrow>
          if int (length data) > int MaxBufferedResponseBytes - int (length (bw_body w))
          then
            (let e = ErrStatus ResourceExhausted ''buffered plugin response exceeds payload budget''
             in ((0, Some e), w\<lparr>bw_err := Some e, bw_onLimit_called := True\<rparr>))
          else
            (let w = (if bw_code w = 0 then w\<lparr>bw_code := 200\<rparr> else w);
                 w = (if length (bw_body w) = 0 \<and> length data > 0 \<and>
                         HeaderGet (bw_headers w) ''Content-Type'' = []
                      then bw_Header (HeaderSet ''Content-Type'' (detect data)) w else w)
             in ((length data, None), w\<lparr>bw_body := bw_body w @ data\<rparr>)))"

text \<open>\<^verbatim>\<open>bufferWriter\<close> has no \<^verbatim>\<open>BeginStreamCompletion\<close>: the call does nothing.\<close>

definition buffer_ops :: "(bytes \<Rightarrow> string) \<Rightarrow> bufferWriter writer_ops" where
  "buffer_ops detect =
     \<lparr>wr_header = bw_Header, wr_status = bw_WriteHeader, wr_write = bw_Write detect,
      wr_begin = (\<lambda>w. w)\<rparr>"

definition bw_inv :: "bufferWriter \<Rightarrow> bool" where
  "bw_inv w \<longleftrightarrow> length (bw_body w) \<le> MaxBufferedResponseBytes \<and>
     (bw_err w \<noteq> None \<longleftrightarrow> bw_onLimit_called w)"

section \<open>The unary handler\<close>

text \<open>The plugin's error text becomes the reason of a verdict that has none.\<close>

definition merge_reason :: "go_error option \<Rightarrow> ForwardOutcome \<Rightarrow> ForwardOutcome" where
  "merge_reason err outcome =
     (case err of
        None \<Rightarrow> outcome
      | Some e \<Rightarrow> if Reason outcome = [] then outcome\<lparr>Reason := error_text e\<rparr> else outcome)"

text \<open>What the plugin wrote to the buffer fills the upstream response it left empty.\<close>

definition adopt_buffer :: "bufferWriter \<Rightarrow> ForwardOutcome \<Rightarrow> ForwardOutcome" where
  "adopt_buffer bw outcome =
     (let u = Upstream outcome in
      if length (bw_body bw) > 0 \<and> length (up_Body u) = 0
      then
        (let u = u\<lparr>up_Body := bw_body bw\<rparr>;
             u = (if up_StatusCode u = 0 \<and> sint (bw_code bw) > 0
                  then u\<lparr>up_StatusCode := bw_code bw\<rparr> else u);
             u = (if length (up_Headers u) = 0 then u\<lparr>up_Headers := bw_headers bw\<rparr> else u)
         in outcome\<lparr>Upstream := u\<rparr>)
      else outcome)"

definition Forward ::
  "transport \<Rightarrow> (bytes \<Rightarrow> string) \<Rightarrow> (bytes \<Rightarrow> metadata option) \<Rightarrow> gateway_impl
     \<Rightarrow> PbForwardRequest \<Rightarrow> go_error + PbForwardOutcome" where
  "Forward t detect unmarshal impl req =
     (let ((outcome, err), bw, _) =
            run_prog (buffer_ops detect) (impl (handlerRequest unmarshal (pf_Stream req) req))
              new_bufferWriter
      in
      if err \<noteq> None \<and> Kind outcome = OutcomeUnknown then Inl (the err)
      else
        (let outcome = merge_reason err outcome in
         case bw_err bw of
           Some e \<Rightarrow> Inl e
         | None \<Rightarrow>
             (case checkedOutcome (tr_outcome_size t) (adopt_buffer bw outcome) of
                (Some e, _) \<Rightarrow> Inl e
              | (None, p) \<Rightarrow> Inr p)))"

section \<open>The streaming handler\<close>

definition final_chunk :: "bytes \<Rightarrow> PbForwardOutcome \<Rightarrow> ForwardChunk" where
  "final_chunk tail p =
     \<lparr>ch_Data = tail, ch_Done = True, ch_FinalOutcome = Some p, ch_StatusCode = 0,
      ch_Headers = []\<rparr>"

definition fill_duration :: "duration \<Rightarrow> ForwardOutcome \<Rightarrow> ForwardOutcome" where
  "fill_duration elapsed outcome =
     (if Duration outcome = 0 then outcome\<lparr>Duration := elapsed\<rparr> else outcome)"

text \<open>From the check of the verdict to the last \<^verbatim>\<open>Send\<close>: the error returned and the stream.\<close>

definition send_final ::
  "transport \<Rightarrow> ForwardOutcome \<Rightarrow> streamWriter \<Rightarrow> go_error option \<times> send_log" where
  "send_final t outcome sw =
     (case checkOutcomeMessage (\<lambda>p. tr_size t (final_chunk (sw_completionTail sw) p))
             (outcomeToProto outcome) of
        (Some e, _) \<Rightarrow> (Some e, sw_log sw)
      | (None, p) \<Rightarrow>
          (case sw_send t (final_chunk (sw_completionTail sw) p) sw of
             (e, sw) \<Rightarrow> (e, sw_log sw)))"

definition ForwardStream ::
  "transport \<Rightarrow> (bytes \<Rightarrow> metadata option) \<Rightarrow> gateway_impl \<Rightarrow> duration \<Rightarrow> PbForwardRequest
     \<Rightarrow> go_error option \<times> send_log" where
  "ForwardStream t unmarshal impl elapsed req =
     (let ((outcome, err), sw, _) =
            run_prog (stream_ops t) (impl (handlerRequest unmarshal True req)) new_streamWriter
      in
      case sw_err sw of
        Some e \<Rightarrow> (Some e, sw_log sw)
      | None \<Rightarrow>
          if err \<noteq> None \<and> Kind outcome = OutcomeUnknown then (err, sw_log sw)
          else
            (let outcome = fill_duration elapsed (merge_reason err outcome) in
             if sw_sent sw \<or> sw_wroteHeader sw
             then
               (case sw_flushMeta t sw of
                  (Some e, sw) \<Rightarrow> (Some e, sw_log sw)
                | (None, sw) \<Rightarrow> send_final t outcome sw)
             else send_final t outcome sw))"

section \<open>Lemmas: the buffer\<close>

lemma bw_new_inv [simp]: "bw_inv new_bufferWriter"
  by (simp add: bw_inv_def new_bufferWriter_def)

lemma bw_Write_body:
  assumes "bw_inv w" and "bw_Write detect d w = ((n, None), w')"
  shows "n = length d \<and> bw_body w' = bw_body w @ d \<and> bw_err w' = None \<and> bw_err w = None \<and>
         bw_inv w'"
proof -
  have "bw_err w = None"
    using assms(2) by (cases "bw_err w") (auto simp: bw_Write_def)
  then show ?thesis
    using assms by (auto simp: bw_Write_def bw_inv_def bw_Header_def Let_def split: if_splits)
qed

lemma bw_Write_error:
  assumes "bw_inv w" and "bw_Write detect d w = ((n, Some e), w')"
  shows "n = 0 \<and> bw_body w' = bw_body w \<and> bw_err w' = Some e \<and> bw_inv w' \<and>
         (bw_err w = Some e \<and> w' = w \<or>
          bw_err w = None \<and> MaxBufferedResponseBytes < length (bw_body w) + length d \<and>
          bw_onLimit_called w')"
proof (cases "bw_err w")
  case None
  then show ?thesis
    using assms by (auto simp: bw_Write_def bw_inv_def Let_def split: if_splits)
next
  case (Some e')
  then show ?thesis
    using assms by (auto simp: bw_Write_def)
qed

lemma buffer_ops_simps [simp]:
  "wr_header (buffer_ops detect) = bw_Header" "wr_status (buffer_ops detect) = bw_WriteHeader"
  "wr_write (buffer_ops detect) = bw_Write detect" "wr_begin (buffer_ops detect) w = w"
  by (simp_all add: buffer_ops_def)

interpretation buffer_writer: response_writer "buffer_ops detect" bw_body bw_err bw_inv
  for detect
proof unfold_locales
  fix w d n w'
  assume "bw_inv w" "wr_write (buffer_ops detect) d w = ((n, None), w')"
  then show "n = length d \<and> bw_body w' = bw_body w @ d \<and> bw_err w' = None \<and> bw_err w = None \<and>
      bw_inv w'"
    using bw_Write_body [of w detect d n w'] by simp
next
  fix w d n e w'
  assume "bw_inv w" "wr_write (buffer_ops detect) d w = ((n, Some e), w')"
  then show "n \<le> length d \<and> prefix (bw_body w') (bw_body w @ d) \<and> bw_err w' = Some e \<and> bw_inv w'"
    using bw_Write_error [of w detect d n e w'] by simp
qed (auto simp: bw_Write_def bw_inv_def bw_Header_def bw_WriteHeader_def)

lemma bw_op_keeps [simp]:
  "bw_body (bw_Header f w) = bw_body w" "bw_err (bw_Header f w) = bw_err w"
  "bw_inv (bw_Header f w) = bw_inv w" "bw_body (bw_WriteHeader c w) = bw_body w"
  "bw_err (bw_WriteHeader c w) = bw_err w" "bw_inv (bw_WriteHeader c w) = bw_inv w"
  by (simp_all add: bw_Header_def bw_WriteHeader_def bw_inv_def)

text \<open>The buffer only ever stops at its budget.\<close>

definition buffer_full :: go_error where
  "buffer_full = ErrStatus ResourceExhausted ''buffered plugin response exceeds payload budget''"

lemma bw_run_err:
  "run_prog (buffer_ops detect) p w = (r, bw, tr) \<Longrightarrow> bw_inv w \<Longrightarrow>
   bw_err bw = Some e \<Longrightarrow> bw_err w = Some e \<or>
     e = buffer_full \<and>
     MaxBufferedResponseBytes < length (bw_body w) + length (written tr)"
proof (induction p arbitrary: w r bw tr)
  case (CallWrite d k)
  from CallWrite.prems(1) show ?case
  proof (rule run_write_cases)
    fix n er w1 tr'
    assume 1: "wr_write (buffer_ops detect) d w = ((n, er), w1)"
      "run_prog (buffer_ops detect) (k (n, er)) w1 = (r, bw, tr')" "tr = (d, n, er) # tr'"
    have inv1: "bw_inv w1" by (rule buffer_writer.write_inv [OF CallWrite.prems(2) 1(1)])
    have IH: "bw_err w1 = Some e \<or> e = buffer_full \<and>
        MaxBufferedResponseBytes < length (bw_body w1) + length (written tr')"
      using CallWrite.IH [OF _ 1(2) inv1 CallWrite.prems(3)] by simp
    show ?thesis
    proof (cases er)
      case None
      then show ?thesis
        using IH 1(1) bw_Write_body [OF CallWrite.prems(2), of detect d n w1] by (auto simp: 1(3))
    next
      case (Some e1)
      then show ?thesis
        using IH 1(1) bw_Write_error [OF CallWrite.prems(2), of detect d n e1 w1]
        by (auto simp: 1(3) bw_Write_def Let_def buffer_full_def split: if_splits)
    qed
  qed
next
  case (OnHeader f p)
  then show ?case using OnHeader.IH [of "bw_Header f w"] by simp
next
  case (CallWriteHeader c p)
  then show ?case using CallWriteHeader.IH [of "bw_WriteHeader c w"] by simp
qed auto

text \<open>A run on a new buffer: it stops exactly when the plugin wrote more than the budget.\<close>

lemma bw_run_new:
  assumes "run_prog (buffer_ops detect) p new_bufferWriter = (r, bw, tr)"
  shows "bw_err bw =
           (if MaxBufferedResponseBytes < length (written tr) then Some buffer_full else None)"
    and "bw_err bw = None \<Longrightarrow> bw_body bw = written tr"
proof -
  have body: "buffer_writer.conserved new_bufferWriter bw tr"
    by (rule buffer_writer.run_conserves [OF bw_new_inv _ assms])
      (simp add: new_bufferWriter_def)
  then show full: "bw_err bw = None \<Longrightarrow> bw_body bw = written tr"
    by (simp add: buffer_writer.conserved_def new_bufferWriter_def)
  show "bw_err bw =
      (if MaxBufferedResponseBytes < length (written tr) then Some buffer_full else None)"
  proof (cases "bw_err bw")
    case None
    have "bw_inv bw" by (rule buffer_writer.run_inv [OF bw_new_inv assms])
    then show ?thesis using None full by (simp add: bw_inv_def)
  next
    case (Some e)
    then show ?thesis
      using bw_run_err [OF assms bw_new_inv Some] by (simp add: new_bufferWriter_def)
  qed
qed

section \<open>Lemmas: the response budget\<close>

text \<open>What a message carries of an outcome: all of it, or all but the diagnostic.\<close>

definition carried :: "PbForwardOutcome \<Rightarrow> ForwardOutcome \<Rightarrow> bool" where
  "carried p o' \<longleftrightarrow>
     p = outcomeToProto o' \<or> p = (outcomeToProto o')\<lparr>pfo_FinalErrorDiagnostic := None\<rparr>"

lemma checkOutcomeMessage_ok:
  assumes "checkOutcomeMessage sz (outcomeToProto o') = (None, p)"
  shows "carried p o' \<and> sz p \<le> MaxResponseMessageBytes \<and>
         length (up_Body (Upstream o')) \<le> MaxBufferedResponseBytes \<and>
         (sz (outcomeToProto o') \<le> MaxResponseMessageBytes \<longrightarrow> p = outcomeToProto o')"
  using assms
  by (auto simp: checkOutcomeMessage_def checkResponseMessage_def carried_def Let_def
      outcomeToProto_def upstreamToProto_def split: if_splits)

lemma drop_diagnostic:
  "(outcomeToProto o')\<lparr>pfo_FinalErrorDiagnostic := None\<rparr> =
   outcomeToProto (o'\<lparr>FinalErrorDiagnostic := None\<rparr>)"
  by (simp add: outcomeToProto_def finalErrorDiagnosticToProto_def)

lemma carried_decode:
  "carried p o' \<Longrightarrow>
   outcomeFromProto (Some p) = outcome_view o' \<or>
   outcomeFromProto (Some p) = outcome_view (o'\<lparr>FinalErrorDiagnostic := None\<rparr>)"
  unfolding carried_def drop_diagnostic using outcome_codec.dec_enc by metis

section \<open>Lemmas: the streaming handler\<close>

lemma sw_inv_run:
  "run_prog (stream_ops t) p new_streamWriter = (r, sw, tr) \<Longrightarrow> sw_inv sw"
  using stream_writer.run_inv [OF sw_new_inv] .

lemma sw_run_conserves:
  "run_prog (stream_ops t) p new_streamWriter = (r, sw, tr) \<Longrightarrow>
   stream_writer.conserved new_streamWriter sw tr"
  by (rule stream_writer.run_conserves [OF sw_new_inv]) (simp_all add: new_streamWriter_def)

lemma sw_body_new [simp]: "sw_body new_streamWriter = []"
  by (simp add: sw_body_def sw_data_def new_streamWriter_def)

lemma sw_run_ok:
  assumes "run_prog (stream_ops t) p new_streamWriter = (r, sw, tr)" and "sw_err sw = None"
  shows "sw_body sw = written tr \<and> (\<forall>x \<in> set tr. snd x = (length (fst x), None))"
  using sw_run_conserves [OF assms(1)] assms(2) by (simp add: stream_writer.conserved_def)

lemma sw_run_prefix:
  assumes "run_prog (stream_ops t) p new_streamWriter = (r, sw, tr)"
  shows "prefix (sw_body sw) (written tr)"
  using sw_run_conserves [OF assms] by (auto simp: stream_writer.conserved_def split: option.splits)

text \<open>What the last step adds to the stream.\<close>

lemma send_final_log:
  assumes "send_final t o' sw = (e, log)"
  shows "(\<exists>er. e = Some er \<and> log = sw_log sw) \<or>
         (\<exists>p. carried p o' \<and> length (up_Body (Upstream o')) \<le> MaxBufferedResponseBytes \<and>
              tr_size t (final_chunk (sw_completionTail sw) p) \<le> MaxResponseMessageBytes \<and>
              log = sw_log sw @ [(final_chunk (sw_completionTail sw) p, e)])"
proof -
  obtain r p where c: "checkOutcomeMessage
      (\<lambda>p. tr_size t (final_chunk (sw_completionTail sw) p)) (outcomeToProto o') = (r, p)"
    by force
  show ?thesis
  proof (cases r)
    case None
    then show ?thesis
      using assms c checkOutcomeMessage_ok [OF c [unfolded None]]
      by (auto simp: send_final_def sw_send_def Let_def)
  next
    case (Some er)
    then show ?thesis
      using assms c by (auto simp: send_final_def)
  qed
qed

text \<open>
  The handler after the plugin has returned: an error with the stream as the writer left it, or
  the last step on a writer that still works.
\<close>

lemma ForwardStream_cases:
  assumes run: "run_prog (stream_ops t) (impl (handlerRequest unmarshal True req))
      new_streamWriter = ((outcome, err), sw, tr)"
    and result: "ForwardStream t unmarshal impl elapsed req = (e, log)"
  obtains (failed) er sw' where "e = Some er" "log = sw_log sw'" "sw_inv sw'"
      "prefix (sw_body sw') (written tr)"
    | (finished) sw' where "sw_err sw = None" "sw_inv sw'" "sw_err sw' = None"
      "sw_body sw' = written tr" "sw_completionTail sw' = sw_completionTail sw"
      "err = None \<or> Kind outcome \<noteq> OutcomeUnknown"
      "sw_sent sw' \<longleftrightarrow> sw_sent sw \<or> sw_wroteHeader sw"
      "if sw_log sw = [] \<and> sw_wroteHeader sw
       then \<exists>r. sw_log sw' = [(head_chunk (sw_headers sw) (sw_code sw), r)]
       else sw_log sw' = sw_log sw"
      "send_final t (fill_duration elapsed (merge_reason err outcome)) sw' = (e, log)"
proof (cases "sw_err sw")
  case (Some er)
  then have "e = Some er" "log = sw_log sw"
    using result run by (simp_all add: ForwardStream_def)
  then show ?thesis
    using failed sw_inv_run [OF run] sw_run_prefix [OF run] by blast
next
  case None
  note inv = sw_inv_run [OF run]
  note body = sw_run_ok [OF run None]
  show ?thesis
  proof (cases "err \<noteq> None \<and> Kind outcome = OutcomeUnknown")
    case True
    then show ?thesis
      using failed [of "the err" sw] result run None inv body
      by (auto simp: ForwardStream_def)
  next
    case verdict: False
    let ?o = "fill_duration elapsed (merge_reason err outcome)"
    show ?thesis
    proof (cases "sw_sent sw \<or> sw_wroteHeader sw")
      case False
      then have "send_final t ?o sw = (e, log)"
        using result run None verdict by (auto simp: ForwardStream_def)
      then show ?thesis
        using finished [of sw] None inv body verdict False by auto
    next
      case True
      obtain fe sw' where flush: "sw_flushMeta t sw = (fe, sw')" by force
      show ?thesis
      proof (cases fe)
        case (Some er)
        then have "e = Some er \<and> log = sw_log sw'"
          using result run None verdict True flush by (auto simp: ForwardStream_def)
        then show ?thesis
          using failed flushMeta_fail [OF inv None, of t er sw'] flush Some by auto
      next
        case fe: None
        then have "send_final t ?o sw' = (e, log)"
          using result run None verdict True flush by (auto simp: ForwardStream_def)
        moreover have "if sw_log sw = [] \<and> sw_wroteHeader sw
            then \<exists>r. sw_log sw' = [(head_chunk (sw_headers sw) (sw_code sw), r)]
            else sw_log sw' = sw_log sw"
        proof (cases "sw_sent sw")
          case True
          then show ?thesis
            using flushMeta_sent [OF True, of t] flush inv None by (auto simp: sw_inv_def)
        next
          case False
          then have "sw_log sw = []" "sw_wroteHeader sw"
            using inv None \<open>sw_sent sw \<or> sw_wroteHeader sw\<close> by (auto simp: sw_inv_def)
          then show ?thesis
            using flushMeta_log [OF inv None _ flush] fe by auto
        qed
        ultimately show ?thesis
          using finished [of sw'] flushMeta_ok [OF inv, of t sw'] flush fe None verdict body True
          by (auto simp: sw_open_def)
      qed
    qed
  qed
qed

lemma slice_not_done: "is_slice c \<Longrightarrow> \<not> ch_Done c \<and> length (ch_Data c) \<le> streamChunkSize"
  by (auto simp: is_slice_def data_chunk_def)

lemma meta_not_done: "is_meta c \<Longrightarrow> \<not> ch_Done c \<and> ch_Data c = []"
  by (auto simp: is_meta_def meta_chunk_def)

lemma log_ok_not_done:
  assumes "log_ok log" and "x \<in> set log"
  shows "\<not> ch_Done (fst x) \<and> length (ch_Data (fst x)) \<le> streamChunkSize"
  using assms slice_not_done meta_not_done
  by (cases log) (auto simp: log_ok_def)

lemma all_delivered: "\<forall>x \<in> set log. snd x = None \<Longrightarrow> log = map (\<lambda>c. (c, None)) (delivered log)"
proof (induction log)
  case (Cons x log)
  then show ?case by (cases x) simp
qed simp

lemma delivered_map_None [simp]: "delivered (map (\<lambda>c. (c, None)) cs) = cs"
  by (induction cs) simp_all

text \<open>
  A finished stream: a possibly empty list of messages that starts with status and headers and
  goes on with slices, then the final message.
\<close>

definition stream_msgs :: "ForwardChunk list \<Rightarrow> bool" where
  "stream_msgs cs \<longleftrightarrow> (case cs of [] \<Rightarrow> True | c # cs \<Rightarrow> is_meta c \<and> (\<forall>d \<in> set cs. is_slice d))"

lemma log_ok_msgs: "log_ok log \<Longrightarrow> \<forall>x \<in> set log. snd x = None \<Longrightarrow> stream_msgs (delivered log)"
proof (cases log)
  case (Cons x xs)
  assume "log_ok log" "\<forall>x \<in> set log. snd x = None"
  then have "is_meta (fst x)" "\<forall>y \<in> set xs. is_slice (fst y)" "snd x = None"
    using Cons by (auto simp: log_ok_def)
  then show ?thesis
    by (cases x) (auto simp: Cons stream_msgs_def delivered_def)
qed (simp add: stream_msgs_def)

text \<open>The head of the stream.\<close>

lemma sw_run_head:
  assumes "run_prog (stream_ops t) p new_streamWriter = (r, sw, tr)"
    and "head_of p [] 0 False = (h, c, wrote)"
  shows "(sw_log sw \<noteq> [] \<longrightarrow> fst (hd (sw_log sw)) = head_chunk h c) \<and>
         (sw_log sw = [] \<and> sw_err sw = None \<longrightarrow>
            sw_headers sw = h \<and> sw_code sw = c \<and> sw_wroteHeader sw = wrote)"
  by (rule run_head [OF sw_new_inv _ _ assms(1)])
    (use assms(2) in \<open>simp_all add: new_streamWriter_def\<close>)

lemma ForwardStream_head:
  assumes "run_prog (stream_ops t) (impl (handlerRequest unmarshal True req)) new_streamWriter =
      ((outcome, err), sw, tr)"
    and "ForwardStream t unmarshal impl elapsed req = (None, log)"
    and "head_of (impl (handlerRequest unmarshal True req)) [] 0 False = (h, c, wrote)"
  shows "(\<exists>p. log = [(final_chunk [] p, None)] \<and> \<not> wrote \<and> written tr = [] \<and>
              carried p (fill_duration elapsed (merge_reason err outcome))) \<or>
         fst (hd log) = head_chunk h c \<and> length log > 1"
  using assms(1,2)
proof (rule ForwardStream_cases)
  fix sw'
  assume sw': "sw_err sw = None" "sw_inv sw'" "sw_err sw' = None" "sw_body sw' = written tr"
    "if sw_log sw = [] \<and> sw_wroteHeader sw
       then \<exists>r. sw_log sw' = [(head_chunk (sw_headers sw) (sw_code sw), r)]
       else sw_log sw' = sw_log sw"
    "send_final t (fill_duration elapsed (merge_reason err outcome)) sw' = (None, log)"
  obtain p where p: "carried p (fill_duration elapsed (merge_reason err outcome))"
    and log: "log = sw_log sw' @ [(final_chunk (sw_completionTail sw') p, None)]"
    using send_final_log [OF sw'(6)] by blast
  note head = sw_run_head [OF assms(1,3)]
  show ?thesis
  proof (cases "sw_log sw' = []")
    case True
    then have "\<not> sw_sent sw'" "sw_completionTail sw' = []" "sw_log sw = []" "\<not> sw_wroteHeader sw"
      using sw'(2,3,5) by (auto simp: sw_inv_def split: if_splits)
    then show ?thesis
      using p log head sw'(1,4) True by (auto simp: sw_body_def sw_data_def)
  next
    case False
    then have "fst (hd (sw_log sw')) = head_chunk h c"
      using sw'(1,5) head by (auto split: if_splits)
    then show ?thesis using log False by simp
  qed
qed simp

lemma ForwardStream_messages:
  assumes "ForwardStream t unmarshal impl elapsed req = (None, log)"
    and "run_prog (stream_ops t) (impl (handlerRequest unmarshal True req)) new_streamWriter =
           ((outcome, err), sw, tr)"
  shows "\<exists>msgs p. log = map (\<lambda>c. (c, None)) (msgs @ [final_chunk (sw_completionTail sw) p]) \<and>
           stream_msgs msgs \<and> (\<forall>c \<in> set msgs. \<not> ch_Done c) \<and>
           chunk_data (map fst log) = written tr \<and>
           carried p (fill_duration elapsed (merge_reason err outcome)) \<and>
           (msgs = [] \<longrightarrow> \<not> sw_sent sw \<and> \<not> sw_wroteHeader sw)"
  using assms(2,1)
proof (rule ForwardStream_cases)
  fix sw'
  assume sw': "sw_err sw = None" "sw_inv sw'" "sw_err sw' = None" "sw_body sw' = written tr"
    "sw_completionTail sw' = sw_completionTail sw"
    "sw_sent sw' \<longleftrightarrow> sw_sent sw \<or> sw_wroteHeader sw"
    "send_final t (fill_duration elapsed (merge_reason err outcome)) sw' = (None, log)"
  obtain p where p: "carried p (fill_duration elapsed (merge_reason err outcome))"
    and log: "log = sw_log sw' @ [(final_chunk (sw_completionTail sw') p, None)]"
    using send_final_log [OF sw'(7)] by blast
  have ok: "log_ok (sw_log sw')" "\<forall>x \<in> set (sw_log sw'). snd x = None"
    and sent: "sw_log sw' = [] \<Longrightarrow> \<not> sw_sent sw'"
    using sw'(2,3) by (auto simp: sw_inv_def)
  have log': "log = map (\<lambda>c. (c, None)) (delivered (sw_log sw') @ [final_chunk (sw_completionTail sw) p])"
    using all_delivered [OF ok(2)] log sw'(5) by simp
  have data: "chunk_data (map fst log) = written tr"
    using sw'(4,5) unfolding log' by (simp add: sw_body_def sw_data_def final_chunk_def comp_def)
  have done_flag: "\<forall>c \<in> set (delivered (sw_log sw')). \<not> ch_Done c"
    using log_ok_not_done [OF ok(1)] by (auto simp: delivered_def)
  have empty: "delivered (sw_log sw') = [] \<longrightarrow> \<not> sw_sent sw \<and> \<not> sw_wroteHeader sw"
    using all_delivered [OF ok(2)] sent sw'(6) by auto
  show ?thesis
    using log' log_ok_msgs [OF ok(1,2)] done_flag data p empty by blast
qed simp

lemma ForwardStream_slices:
  assumes "ForwardStream t unmarshal impl elapsed req = (None, log)"
    and "run_prog (stream_ops t) (impl (handlerRequest unmarshal True req)) new_streamWriter =
           ((outcome, err), sw, tr)"
  shows "(\<forall>c \<in> fst ` set log. length (ch_Data c) \<le> streamChunkSize) \<and>
         (\<forall>x \<in> set tr. snd x = (length (fst x), None))"
  using assms(2,1)
proof (rule ForwardStream_cases)
  fix sw'
  assume sw': "sw_err sw = None" "sw_inv sw'"
    "send_final t (fill_duration elapsed (merge_reason err outcome)) sw' = (None, log)"
  obtain p where log: "log = sw_log sw' @ [(final_chunk (sw_completionTail sw') p, None)]"
    using send_final_log [OF sw'(3)] by blast
  have ok: "log_ok (sw_log sw')" "length (sw_completionTail sw') \<le> streamChunkSize"
    using sw'(2) by (auto simp: sw_inv_def)
  have "\<forall>c \<in> fst ` set log. length (ch_Data c) \<le> streamChunkSize"
    using log_ok_not_done [OF ok(1)] ok(2) by (auto simp: log final_chunk_def)
  then show ?thesis
    using sw_run_ok [OF assms(2) sw'(1)] by blast
qed simp

section \<open>Properties\<close>

text \<open>
  C2: A streaming call that ends well has delivered everything: every Send succeeded, the first
  message before the last carries status and headers and the others at most 256 KiB of data
  each, the last one is the only one marked done and carries the verdict (without its diagnostic
  at most) and at most 256 KiB of data, and the data of all messages is exactly what the plugin
  wrote, in order; every Write of the plugin reported success.
\<close>

theorem ForwardStream_delivers:
  assumes "ForwardStream t unmarshal impl elapsed req = (None, log)"
    and "run_prog (stream_ops t) (impl (handlerRequest unmarshal True req)) new_streamWriter =
           ((outcome, err), sw, tr)"
  shows "\<exists>msgs p. log = map (\<lambda>c. (c, None)) (msgs @ [final_chunk (sw_completionTail sw) p]) \<and>
           stream_msgs msgs \<and> (\<forall>c \<in> set msgs. \<not> ch_Done c) \<and>
           (\<forall>c \<in> fst ` set log. length (ch_Data c) \<le> streamChunkSize) \<and>
           chunk_data (map fst log) = written tr \<and>
           carried p (fill_duration elapsed (merge_reason err outcome)) \<and>
           (\<forall>x \<in> set tr. snd x = (length (fst x), None)) \<and>
           (msgs = [] \<longrightarrow> \<not> sw_sent sw \<and> \<not> sw_wroteHeader sw)"
  using ForwardStream_messages [OF assms] ForwardStream_slices [OF assms] by blast

text \<open>
  After the first failed Send of a call every later Write of the plugin takes nothing and
  returns the same error, whatever the plugin does with it, and the call returns that error.
\<close>

lemma stream_error_sticks:
  assumes "run_prog (stream_ops t) (impl (handlerRequest unmarshal True req)) new_streamWriter =
             (r, sw, tr1 @ (d, n, Some e) # tr2)"
  shows "(\<forall>x \<in> set tr2. snd x = (0, Some e)) \<and>
         fst (ForwardStream t unmarshal impl elapsed req) = Some e"
proof
  show sticky: "\<forall>x \<in> set tr2. snd x = (0, Some e)"
    by (rule stream_writer.run_sticky [OF sw_new_inv assms])
  have "sw_err sw = Some e"
    by (rule stream_writer.run_error [OF sw_new_inv assms, of d n]) simp
  then show "fst (ForwardStream t unmarshal impl elapsed req) = Some e"
    using assms by (cases r) (simp add: ForwardStream_def)
qed

lemma ForwardStream_failed_log:
  assumes "ForwardStream t unmarshal impl elapsed req = (Some e, log)"
    and "run_prog (stream_ops t) (impl (handlerRequest unmarshal True req)) new_streamWriter =
           ((outcome, err), sw, tr)"
  shows "(\<forall>c \<in> set (delivered log). \<not> ch_Done c) \<and> (\<forall>x \<in> set (butlast log). snd x = None) \<and>
         prefix (chunk_data (delivered log)) (written tr)"
  using assms(2,1)
proof (rule ForwardStream_cases)
  fix er sw'
  assume "log = sw_log sw'" and "sw_inv sw'" and prefix: "prefix (sw_body sw') (written tr)"
  then have ok: "log_ok log" by (simp add: sw_inv_def)
  have "prefix (chunk_data (delivered log)) (sw_body sw')"
    using \<open>log = sw_log sw'\<close> by (simp add: sw_body_def sw_data_def)
  then show ?thesis
    using ok log_ok_not_done [OF ok] prefix_order.trans [OF _ prefix]
    by (auto simp: delivered_def log_ok_def)
next
  fix sw'
  assume sw': "sw_inv sw'" "sw_err sw' = None" "sw_body sw' = written tr"
    "send_final t (fill_duration elapsed (merge_reason err outcome)) sw' = (Some e, log)"
  have ok: "log_ok (sw_log sw')" "\<forall>x \<in> set (sw_log sw'). snd x = None"
    using sw'(1,2) by (auto simp: sw_inv_def)
  have "log = sw_log sw' \<or> (\<exists>c. log = sw_log sw' @ [(c, Some e)])"
    using send_final_log [OF sw'(4)] by blast
  then have "delivered log = delivered (sw_log sw')" "\<forall>x \<in> set (butlast log). snd x = None"
    using ok(2) in_set_butlastD by fastforce+
  moreover have "prefix (chunk_data (delivered (sw_log sw'))) (written tr)"
    using sw'(3) by (metis prefixI sw_body_def sw_data_def)
  ultimately show ?thesis
    using log_ok_not_done [OF ok(1)] by (auto simp: delivered_def)
qed

lemma first_failure_sticks:
  assumes "run_prog (stream_ops t) (impl (handlerRequest unmarshal True req)) new_streamWriter =
             (r, sw, tr)"
    and "dropWhile (\<lambda>x. snd (snd x) = None) tr = x # later"
  shows "snd (snd x) = fst (ForwardStream t unmarshal impl elapsed req) \<and>
    list_all (\<lambda>y. snd y = (0, snd (snd x))) later \<and> snd (snd x) \<noteq> None"
proof -
  obtain d n er where x: "x = (d, n, er)" by (cases x)
  have "er \<noteq> None"
    using assms(2) hd_dropWhile [of "\<lambda>x. snd (snd x) = None" tr] by (simp add: x)
  then obtain e where e: "er = Some e" by blast
  have "tr = takeWhile (\<lambda>x. snd (snd x) = None) tr @ (d, n, Some e) # later"
    using takeWhile_dropWhile_id [of "\<lambda>x. snd (snd x) = None" tr] assms(2) by (simp add: x e)
  then show ?thesis
    using stream_error_sticks [of t impl unmarshal req r sw _ d n e later elapsed] assms(1)
    by (simp add: x e list_all_iff)
qed

text \<open>
  A streaming call that ends with an error never gives the host a verdict: no message that
  was delivered is marked done, only the last Send can have failed (nothing is sent after a
  failure), and the data delivered is a prefix of what the plugin wrote. The first Write that
  failed, if one did, returned the error the call ends with, and every later Write took nothing
  and returned that error too.
\<close>

lemma ForwardStream_failure:
  assumes "ForwardStream t unmarshal impl elapsed req = (Some e, log)"
    and "run_prog (stream_ops t) (impl (handlerRequest unmarshal True req)) new_streamWriter =
           ((outcome, err), sw, tr)"
  shows "(\<forall>c \<in> set (delivered log). \<not> ch_Done c) \<and> (\<forall>x \<in> set (butlast log). snd x = None) \<and>
         prefix (chunk_data (delivered log)) (written tr) \<and>
         (case dropWhile (\<lambda>x. snd (snd x) = None) tr of
            [] \<Rightarrow> True
          | x # later \<Rightarrow> snd (snd x) = Some e \<and> list_all (\<lambda>y. snd y = (0, Some e)) later)"
proof (cases "dropWhile (\<lambda>x. snd (snd x) = None) tr")
  case Nil
  then show ?thesis using ForwardStream_failed_log [OF assms] by (simp only: list.case) blast
next
  case (Cons x later)
  have "snd (snd x) = Some e \<and> list_all (\<lambda>y. snd y = (0, Some e)) later"
    using first_failure_sticks [of t impl unmarshal req "(outcome, err)" sw tr x later elapsed]
      assms Cons by auto
  then show ?thesis using ForwardStream_failed_log [OF assms] Cons by (simp only: list.case) blast
qed

text \<open>
  What a unary call answers for a verdict whose buffer was adopted: an error over a budget, the
  message, or the message without its diagnostic where only that fits.
\<close>

definition unary_message ::
  "(PbForwardOutcome \<Rightarrow> nat) \<Rightarrow> ForwardOutcome \<Rightarrow> go_error + PbForwardOutcome" where
  "unary_message sz o' =
     (let bare = o'\<lparr>FinalErrorDiagnostic := None\<rparr>
      in if length (up_Body (Upstream o')) > MaxBufferedResponseBytes
         then Inl (ErrStatus ResourceExhausted ''plugin response body exceeds payload budget'')
         else if sz (outcomeToProto o') \<le> MaxResponseMessageBytes then Inr (outcomeToProto o')
         else if sz (outcomeToProto bare) \<le> MaxResponseMessageBytes
         then Inr (outcomeToProto bare)
         else Inl (ErrStatus ResourceExhausted ''plugin response exceeds payload budget''))"

lemma checkedOutcome_value:
  "(case checkedOutcome sz o' of (Some e, _) \<Rightarrow> Inl e | (None, p) \<Rightarrow> Inr p) =
   unary_message sz o'"
proof -
  have body: "(case pfo_Upstream (outcomeToProto o') of None \<Rightarrow> [] | Some u \<Rightarrow> pu_Body u) =
      up_Body (Upstream o')"
    by (simp add: outcomeToProto_def upstreamToProto_def)
  show ?thesis
    unfolding checkedOutcome_def checkOutcomeMessage_def body drop_diagnostic unary_message_def
      checkResponseMessage_def Let_def
    by simp
qed

lemma Forward_value:
  assumes "run_prog (buffer_ops detect) (impl (handlerRequest unmarshal (pf_Stream req) req))
             new_bufferWriter = ((outcome, err), bw, tr)"
  shows "Forward t detect unmarshal impl req =
    (if err \<noteq> None \<and> Kind outcome = OutcomeUnknown then Inl (the err)
     else if MaxBufferedResponseBytes < length (written tr) then Inl buffer_full
     else unary_message (tr_outcome_size t) (adopt_buffer bw (merge_reason err outcome)))"
  using bw_run_new(1) [OF assms]
  by (simp add: Forward_def assms checkedOutcome_value split: if_splits)

section \<open>Witnesses\<close>

definition quiet_transport :: transport where
  "quiet_transport = \<lparr>tr_fate = (\<lambda>n. None), tr_size = (\<lambda>c. 0), tr_outcome_size = (\<lambda>p. 0)\<rparr>"

text \<open>A transport whose second Send fails.\<close>

definition broken_transport :: transport where
  "broken_transport = quiet_transport\<lparr>tr_fate := (\<lambda>n. if n = 1 then Some EOF else None)\<rparr>"

text \<open>A plugin that writes twice, the second time as its completion, and reports success.\<close>

definition example_outcome :: ForwardOutcome where
  "example_outcome = zero_outcome\<lparr>Kind := OutcomeSuccess\<rparr>"

definition example_prog :: "forward_result writer_prog" where
  "example_prog =
     CallWriteHeader 201 (CallWrite ''ab'' (\<lambda>_. CallBeginCompletion
       (CallWrite ''c'' (\<lambda>_. Return (example_outcome, None)))))"

definition empty_request :: PbForwardRequest where
  "empty_request =
     \<lparr>pf_Body = [], pf_Headers = [], pf_Model = [], pf_Stream = True, pf_Account = None,
      pf_DispatchPlan = None, pf_TraceFinalError = False\<rparr>"

lemmas stream_eval =
  sw_Write_def sw_flushMeta_def sw_send_def sw_fail_def sw_WriteHeader_def
  sw_BeginStreamCompletion_def new_streamWriter_def checkResponseMessage_def
  quiet_transport_def example_prog_def sw_write_completing_def write_loop_step
  write_loop.simps [of _ _ "Suc _"] streamChunkSize_def Let_def

lemma example_run:
  "\<exists>sw. run_prog (stream_ops quiet_transport) example_prog new_streamWriter =
     ((example_outcome, None), sw, [(''ab'', 2, None), (''c'', 1, None)]) \<and>
     sw_err sw = None \<and> sw_completionTail sw = ''c'' \<and> sw_sent sw \<and>
     sw_log sw = [(meta_chunk 201 [], None), (data_chunk ''ab'', None)]"
  by (simp add: stream_eval write_loop_end)

text \<open>The same plugin, on a transport that breaks on its data.\<close>

lemma example_broken_run:
  "\<exists>sw. run_prog (stream_ops broken_transport) example_prog new_streamWriter =
     ((example_outcome, None), sw, [(''ab'', 0, Some EOF), (''c'', 0, Some EOF)]) \<and>
     sw_err sw = Some EOF \<and>
     sw_log sw = [(meta_chunk 201 [], None), (data_chunk ''ab'', Some EOF)]"
  by (simp add: stream_eval broken_transport_def write_loop_end)

lemma example_broken_stream:
  "ForwardStream broken_transport unmarshal (\<lambda>_. example_prog) elapsed req =
     (Some EOF, [(meta_chunk 201 [], None), (data_chunk ''ab'', Some EOF)])"
  using example_broken_run by (auto simp: ForwardStream_def)

lemma example_stream:
  "\<exists>log. ForwardStream quiet_transport unmarshal (\<lambda>_. example_prog) elapsed req = (None, log)"
proof -
  obtain sw where sw: "run_prog (stream_ops quiet_transport) example_prog new_streamWriter =
      ((example_outcome, None), sw, [(''ab'', 2, None), (''c'', 1, None)])"
    "sw_err sw = None" "sw_sent sw"
    using example_run by blast
  then show ?thesis
    by (simp add: ForwardStream_def sw_flushMeta_def send_final_def checkOutcomeMessage_def
        checkResponseMessage_def sw_send_def Let_def quiet_transport_def MaxBufferedResponseBytes_def
        outcomeToProto_def upstreamToProto_def fill_duration_def merge_reason_def
        example_outcome_def zero_outcome_def zero_upstream_def)
qed

theorem ForwardStream_delivers_witness:
  "\<exists>log. ForwardStream quiet_transport (\<lambda>_. None) (\<lambda>_. example_prog) 0 empty_request =
     (None, log) \<and> chunk_data (map fst log) = ''abc''"
proof -
  obtain sw where sw: "run_prog (stream_ops quiet_transport) example_prog new_streamWriter =
      ((example_outcome, None), sw, [(''ab'', 2, None), (''c'', 1, None)])"
    using example_run by blast
  obtain log where log: "ForwardStream quiet_transport (\<lambda>_. None) (\<lambda>_. example_prog) 0
      empty_request = (None, log)"
    using example_stream by blast
  then show ?thesis
    using ForwardStream_delivers [OF log sw] by fastforce
qed

lemma content_type_canonical: "CanonicalHeaderKey ''Content-Type'' = ''Content-Type''"
  by code_simp

definition example_unary :: "forward_result writer_prog" where
  "example_unary = CallWrite ''no'' (\<lambda>_. Return (example_outcome, Some EOF))"

lemma example_unary_run:
  "run_prog (buffer_ops (\<lambda>_. ''text'')) example_unary new_bufferWriter =
     ((example_outcome, Some EOF),
      \<lparr>bw_headers = [(''Content-Type'', [''text''])], bw_code = 200, bw_body = ''no'',
       bw_err = None, bw_onLimit_called = False\<rparr>, [(''no'', 2, None)])"
  by (simp add: example_unary_def bw_Write_def new_bufferWriter_def MaxBufferedResponseBytes_def
      bw_Header_def HeaderGet_def header_values_def HeaderSet_def content_type_canonical Let_def)

end
