(* ===== verification/GatewayClient.thy ===== *)
theory GatewayClient
  imports GatewayServer
begin

text \<open>
  The host's side of a Forward call: \<^verbatim>\<open>Forward\<close> and \<^verbatim>\<open>forwardStream\<close> of
  \<^verbatim>\<open>runtimego/grpc/gateway_client.go\<close>. The stream is the list of what \<^verbatim>\<open>Recv\<close> returns, a message or
  an error; its end is \<^verbatim>\<open>io.EOF\<close>. The host's writer is any implementation of \<open>response_writer\<close>
  with an optional \<^verbatim>\<open>Flush\<close> (the identity for a writer that has none).

  The last section puts the two sides together: what a plugin writes and decides is what the
  host's writer gets and what the host returns.
\<close>

section \<open>Messages\<close>

text \<open>The UTF-8 bytes of the error texts.\<close>

definition msg_stream_call :: string where
  "msg_stream_call =
     ''gRPC ForwardStream '' @
     [CHR 0xE8, CHR 0xB0, CHR 0x83, CHR 0xE7, CHR 0x94, CHR 0xA8, CHR 0xE5, CHR 0xA4, CHR 0xB1,
      CHR 0xE8, CHR 0xB4, CHR 0xA5]"

definition msg_forward_call :: string where
  "msg_forward_call =
     ''gRPC Forward '' @
     [CHR 0xE8, CHR 0xB0, CHR 0x83, CHR 0xE7, CHR 0x94, CHR 0xA8, CHR 0xE5, CHR 0xA4, CHR 0xB1,
      CHR 0xE8, CHR 0xB4, CHR 0xA5]"

definition msg_recv :: string where
  "msg_recv =
     ''gRPC '' @
     [CHR 0xE6, CHR 0xB5, CHR 0x81, CHR 0xE6, CHR 0x8E, CHR 0xA5, CHR 0xE6, CHR 0x94, CHR 0xB6,
      CHR 0xE5, CHR 0xA4, CHR 0xB1, CHR 0xE8, CHR 0xB4, CHR 0xA5]"

definition msg_write :: string where
  "msg_write =
     [CHR 0xE5, CHR 0x86, CHR 0x99, CHR 0xE5, CHR 0x85, CHR 0xA5, CHR 0xE5, CHR 0x93, CHR 0x8D,
      CHR 0xE5, CHR 0xBA, CHR 0x94, CHR 0xE5, CHR 0xA4, CHR 0xB1, CHR 0xE8, CHR 0xB4, CHR 0xA5]"

definition msg_no_outcome :: string where
  "msg_no_outcome =
     [CHR 0xE6, CHR 0x9C, CHR 0xAA, CHR 0xE6, CHR 0x94, CHR 0xB6, CHR 0xE5, CHR 0x88, CHR 0xB0,
      CHR 0xE6, CHR 0x9C, CHR 0x80, CHR 0xE7, CHR 0xBB, CHR 0x88] @ '' outcome''"

section \<open>Receiving a stream\<close>

definition has_final :: "ForwardChunk \<Rightarrow> bool" where
  "has_final c \<longleftrightarrow> ch_Done c \<and> ch_FinalOutcome c \<noteq> None"

definition final_of :: "ForwardChunk \<Rightarrow> ForwardOutcome" where
  "final_of c = (if has_final c then outcomeFromProto (ch_FinalOutcome c) else zero_outcome)"

text \<open>The first message with a status, headers or data starts the response.\<close>

definition start_response ::
  "'w writer_ops \<Rightarrow> ForwardChunk \<Rightarrow> bool \<Rightarrow> 'w \<Rightarrow> bool \<times> 'w" where
  "start_response ops c started w =
     (if \<not> started \<and> (ch_StatusCode c \<noteq> 0 \<or> length (ch_Headers c) > 0 \<or> length (ch_Data c) > 0)
      then
        (let w = wr_header ops (add_all (protoHeadersToHTTP (ch_Headers c))) w;
             statusCode = int_of_int32 (ch_StatusCode c);
             statusCode = (if statusCode = 0 then 200 else statusCode)
         in (True, wr_status ops statusCode w))
      else (started, w))"

text \<open>The error of a Write, counting a short write as one.\<close>

definition write_error :: "bytes \<Rightarrow> write_result \<Rightarrow> go_error option" where
  "write_error d res =
     (if snd res = None \<and> fst res \<noteq> length d then Some ErrShortWrite else snd res)"

definition undelivered :: "ForwardChunk \<Rightarrow> go_error \<Rightarrow> forward_result" where
  "undelivered c e =
     (if has_final c
      then
        ((final_of c)\<lparr>Kind := OutcomeStreamAborted, FailoverScope := FailoverScopeTerminal,
            Reason := msg_write @ '': '' @ error_text e\<rparr>,
         Some (ErrWrap msg_write e))
      else (zero_outcome, Some (ErrWrap msg_write e)))"

fun recv_loop ::
  "'w writer_ops \<Rightarrow> ('w \<Rightarrow> 'w) \<Rightarrow> (go_error + ForwardChunk) list \<Rightarrow> bool \<Rightarrow> 'w
     \<Rightarrow> forward_result \<times> 'w" where
  "recv_loop ops flush [] started w = ((zero_outcome, Some (ErrMsg msg_no_outcome)), w)"
| "recv_loop ops flush (Inl e # _) started w =
     (if e = EOF then ((zero_outcome, Some (ErrMsg msg_no_outcome)), w)
      else ((zero_outcome, Some (ErrWrap msg_recv e)), w))"
| "recv_loop ops flush (Inr c # es) started w =
     (let (started, w) = start_response ops c started w in
      if length (ch_Data c) > 0
      then
        (let (res, w) = wr_write ops (ch_Data c) w in
         case write_error (ch_Data c) res of
           Some e \<Rightarrow> (undelivered c e, w)
         | None \<Rightarrow>
             (let w = flush w in
              if has_final c then ((final_of c, None), w) else recv_loop ops flush es started w))
      else
        (if has_final c then ((final_of c, None), w) else recv_loop ops flush es started w))"

text \<open>\<open>opened\<close> is what opening the stream returned.\<close>

definition forwardStream ::
  "'w writer_ops \<Rightarrow> ('w \<Rightarrow> 'w) \<Rightarrow> go_error + (go_error + ForwardChunk) list \<Rightarrow> 'w
     \<Rightarrow> forward_result \<times> 'w" where
  "forwardStream ops flush opened w =
     (case opened of
        Inl e \<Rightarrow> ((zero_outcome, Some (ErrWrap msg_stream_call e)), w)
      | Inr es \<Rightarrow> recv_loop ops flush es False w)"

text \<open>The unary call, on what the RPC returned.\<close>

definition client_Forward :: "go_error + PbForwardOutcome \<Rightarrow> forward_result" where
  "client_Forward resp =
     (case resp of
        Inl e \<Rightarrow> (zero_outcome, Some (ErrWrap msg_forward_call e))
      | Inr p \<Rightarrow> (outcomeFromProto (Some p), None))"

section \<open>The host's writer\<close>

locale client_writer = response_writer ops body failed inv
  for ops :: "'w writer_ops" and body :: "'w \<Rightarrow> bytes"
    and failed :: "'w \<Rightarrow> go_error option" and inv :: "'w \<Rightarrow> bool" +
  fixes flush :: "'w \<Rightarrow> 'w"
  assumes flush_keeps:
    "inv w \<Longrightarrow> body (flush w) = body w \<and> failed (flush w) = failed w \<and> inv (flush w)"
begin

lemma start_keeps:
  "inv w \<Longrightarrow> start_response ops c s w = (s', w') \<Longrightarrow>
   body w' = body w \<and> failed w' = failed w \<and> inv w'"
  using header_keeps status_keeps
  by (auto simp: start_response_def Let_def split: if_splits)

text \<open>One write of the loop: taken whole, or reported.\<close>

lemma client_write_ok:
  "inv w \<Longrightarrow> wr_write ops d w = (res, w') \<Longrightarrow> write_error d res = None \<Longrightarrow>
   body w' = body w @ d \<and> failed w' = None \<and> inv w'"
  using write_ok by (cases res) (fastforce simp: write_error_def split: if_splits)

lemma client_write_fail:
  assumes "inv w" and "wr_write ops d w = (res, w')" and "write_error d res = Some e"
  shows "prefix (body w') (body w @ d) \<and> failed w' = Some e \<and> inv w'"
proof -
  obtain n r where res: "res = (n, r)" by force
  show ?thesis
  proof (cases r)
    case None
    then have "n = length d" using write_ok [OF assms(1)] assms(2) res by blast
    then show ?thesis using assms(3) None res by (simp add: write_error_def)
  next
    case (Some e')
    then have "e' = e" using assms(3) res by (simp add: write_error_def)
    then show ?thesis
      using write_err [OF assms(1), of d n e w'] assms(2) res Some by simp
  qed
qed

lemma no_chunks: "\<exists>cs rest. es = map Inr cs @ rest \<and> prefix b (b @ chunk_data cs)"
  by (intro exI [of _ "[]"] exI [of _ es]) simp

text \<open>
  What a call returns and leaves in the writer: without an error, the verdict of the first
  message that has one, and the data of everything up to it; with an error, a prefix of the
  data.
\<close>

lemma recv_loop_result:
  "inv w \<Longrightarrow> failed w = None \<Longrightarrow> recv_loop ops flush es started w = ((o', e), w') \<Longrightarrow>
   inv w' \<and>
   (case e of
      None \<Rightarrow>
        failed w' = None \<and>
        (\<exists>cs c rest. es = map Inr (cs @ [c]) @ rest \<and> (\<forall>d \<in> set cs. \<not> has_final d) \<and>
           has_final c \<and> o' = final_of c \<and> body w' = body w @ chunk_data (cs @ [c]))
    | Some er \<Rightarrow>
        (\<exists>cs rest. es = map Inr cs @ rest \<and> prefix (body w') (body w @ chunk_data cs)) \<and>
        (o' = zero_outcome \<or>
         Kind o' = OutcomeStreamAborted \<and> FailoverScope o' = FailoverScopeTerminal))"
proof (induction es arbitrary: started w)
  case Nil
  then show ?case by auto
next
  case (Cons x es)
  show ?case
  proof (cases x)
    case (Inl er)
    then obtain er' where "e = Some er'" "o' = zero_outcome" "w' = w"
      using Cons.prems(3) by (auto split: if_splits)
    then show ?thesis
      using no_chunks [of "x # es" "body w"] Cons.prems(1) by simp
  next
    case (Inr c)
    obtain s1 w1 where start: "start_response ops c started w = (s1, w1)" by force
    have w1: "body w1 = body w" "failed w1 = None" "inv w1"
      using start_keeps [OF Cons.prems(1) start] Cons.prems(2) by auto
    define w2 where "w2 = (if length (ch_Data c) > 0
      then flush (snd (wr_write ops (ch_Data c) w1)) else w1)"
    obtain res w3 where wr: "wr_write ops (ch_Data c) w1 = (res, w3)" by (rule prod.exhaust)
    show ?thesis
    proof (cases "length (ch_Data c) > 0 \<and> write_error (ch_Data c) res \<noteq> None")
      case True
      then obtain er where er: "write_error (ch_Data c) res = Some er" by blast
      then have "((o', e), w') = (undelivered c er, w3)"
        using Cons.prems(3) start wr True by (simp add: Inr)
      moreover have "prefix (body w3) (body w @ chunk_data [c])"
        using client_write_fail [OF w1(3) wr er] w1(1) by simp
      moreover have "x # es = map Inr [c] @ es" by (simp add: Inr)
      ultimately show ?thesis
        using client_write_fail [OF w1(3) wr er]
        by (cases "has_final c") (auto simp: undelivered_def intro!: exI [of _ "[c]"])
    next
      case False
      have w2: "body w2 = body w @ ch_Data c" "failed w2 = None" "inv w2"
        using w1 False client_write_ok [OF w1(3) wr] flush_keeps [of w3]
        by (auto simp: w2_def wr)
      have step: "((o', e), w') =
          (if has_final c then ((final_of c, None), w2) else recv_loop ops flush es s1 w2)"
        using Cons.prems(3) start wr False
        by (auto simp: Inr w2_def split: option.splits if_splits)
      show ?thesis
      proof (cases "has_final c")
        case True
        then have "x # es = map Inr ([] @ [c]) @ es" "e = None" "o' = final_of c" "w' = w2"
          using step by (simp_all add: Inr)
        then show ?thesis
          using w2 True by (auto intro!: exI [of _ "[]"])
      next
        case no: False
        then have rest: "recv_loop ops flush es s1 w2 = ((o', e), w')"
          using step by simp
        note IH = Cons.IH [OF w2(3,2) rest]
        show ?thesis
        proof (cases e)
          case None
          then obtain cs d tl where "es = map Inr (cs @ [d]) @ tl" "\<forall>d \<in> set cs. \<not> has_final d"
            "has_final d" "o' = final_of d" "body w' = body w2 @ chunk_data (cs @ [d])"
            using IH by auto
          then have "x # es = map Inr ((c # cs) @ [d]) @ tl"
            "body w' = body w @ chunk_data ((c # cs) @ [d])" "\<forall>d \<in> set (c # cs). \<not> has_final d"
            using w2 no by (simp_all add: Inr)
          moreover have "inv w' \<and> failed w' = None"
            using IH None by simp
          ultimately show ?thesis
            using \<open>has_final d\<close> \<open>o' = final_of d\<close> unfolding None option.case by blast
        next
          case (Some er)
          then obtain cs tl where "es = map Inr cs @ tl" "prefix (body w') (body w2 @ chunk_data cs)"
            using IH by auto
          then have "x # es = map Inr (c # cs) @ tl"
            "prefix (body w') (body w @ chunk_data (c # cs))"
            using w2 by (simp_all add: Inr)
          moreover have "inv w' \<and> (o' = zero_outcome \<or>
              Kind o' = OutcomeStreamAborted \<and> FailoverScope o' = FailoverScopeTerminal)"
            using IH Some by simp
          ultimately show ?thesis
            unfolding Some option.case by blast
        qed
      qed
    qed
  qed
qed

text \<open>A stream that holds a verdict ends in an error only if the host's own writer failed.\<close>

lemma recv_loop_error:
  "inv w \<Longrightarrow> failed w = None \<Longrightarrow> has_final c \<Longrightarrow>
   recv_loop ops flush (map Inr (cs @ [c])) started w = ((o', Some e), w') \<Longrightarrow> failed w' \<noteq> None"
proof (induction cs arbitrary: started w)
  case Nil
  obtain s1 w1 where start: "start_response ops c started w = (s1, w1)" by force
  obtain res w3 where wr: "wr_write ops (ch_Data c) w1 = (res, w3)" by (rule prod.exhaust)
  have w1: "inv w1" using start_keeps [OF Nil.prems(1) start] by simp
  show ?case
    using Nil.prems(3,4) start wr client_write_fail [OF w1 wr]
    by (auto split: if_splits option.splits)
next
  case (Cons d cs)
  obtain s1 w1 where start: "start_response ops d started w = (s1, w1)" by force
  obtain res w3 where wr: "wr_write ops (ch_Data d) w1 = (res, w3)" by (rule prod.exhaust)
  have w1: "inv w1" "failed w1 = None"
    using start_keeps [OF Cons.prems(1) start] Cons.prems(2) by simp_all
  show ?case
  proof (cases "length (ch_Data d) > 0")
    case False
    then show ?thesis
      using Cons.IH [OF w1 Cons.prems(3)] Cons.prems(4) start by (auto split: if_splits)
  next
    case True
    show ?thesis
    proof (cases "write_error (ch_Data d) res")
      case None
      have "inv (flush w3)" "failed (flush w3) = None"
        using client_write_ok [OF w1(1) wr None] flush_keeps [of w3] by simp_all
      then show ?thesis
        using Cons.IH [of "flush w3"] Cons.prems(3,4) start wr True None
        by (auto simp: Let_def split: if_splits)
    next
      case (Some e')
      then show ?thesis
        using client_write_fail [OF w1(1) wr Some] Cons.prems(4) start wr True by auto
    qed
  qed
qed

end

text \<open>
  The writers of the SDK satisfy the contract; neither has a \<^verbatim>\<open>Flush\<close> of its own.
\<close>

interpretation buffer_client: client_writer "buffer_ops detect" bw_body bw_err bw_inv "\<lambda>w. w"
  for detect
  by unfold_locales simp

interpretation stream_client: client_writer "stream_ops t" sw_body sw_err sw_inv "\<lambda>w. w" for t
  by unfold_locales simp

lemma prefix_append_mono: "prefix a (b @ c) \<Longrightarrow> prefix c d \<Longrightarrow> prefix a (b @ d)"
  by (metis prefix_order.trans same_prefix_prefix)

lemma prefix_map_Inr:
  "map Inr ds @ [Inl e] = map Inr cs @ rest \<Longrightarrow> prefix cs ds"
proof (induction cs arbitrary: ds)
  case (Cons c cs)
  then show ?case by (cases ds) auto
qed simp

lemma forwardStream_receives:
  assumes "client_writer ops body failed ok flush" and "ok w" and "failed w = None"
    and "forwardStream ops flush (Inr es) w = ((o', e), w')"
  shows "(case e of
            None \<Rightarrow>
              failed w' = None \<and>
              (\<exists>cs c rest. es = map Inr (cs @ [c]) @ rest \<and> (\<forall>d \<in> set cs. \<not> has_final d) \<and>
                 has_final c \<and> o' = final_of c \<and> body w' = body w @ chunk_data (cs @ [c]))
          | Some er \<Rightarrow>
              (\<exists>cs rest. es = map Inr cs @ rest \<and> prefix (body w') (body w @ chunk_data cs)) \<and>
              \<not> Outcome_ShouldFailover o' \<and> \<not> RequestsModelFallback o')"
proof -
  have "recv_loop ops flush es False w = ((o', e), w')"
    using assms(4) by (simp add: forwardStream_def)
  from client_writer.recv_loop_result [OF assms(1-3) this]
  show ?thesis
    by (auto simp: zero_outcome_def Outcome_ShouldFailover_def RequestsModelFallback_def
        Kind_ShouldFailover_def split: option.splits)
qed

section \<open>Properties\<close>


lemma map_Inr_prefix:
  "map Inr ds = map Inr cs @ rest \<Longrightarrow> prefix cs ds"
proof (induction cs arbitrary: ds)
  case (Cons c cs)
  then show ?case by (cases ds) auto
qed simp

text \<open>When only the last message has a verdict, the first message with one is the last.\<close>

lemma only_final_last:
  assumes "map Inr (msgs @ [c]) = map Inr (cs @ [d]) @ rest"
    and "\<forall>m \<in> set msgs. \<not> has_final m" and "has_final d"
  shows "msgs = cs \<and> c = d"
proof -
  obtain tl where tl: "msgs @ [c] = (cs @ [d]) @ tl"
    using map_Inr_prefix [OF assms(1)] by (auto simp: prefix_def)
  have "tl = []"
  proof (rule ccontr)
    assume "tl \<noteq> []"
    then have "d \<in> set (butlast (msgs @ [c]))"
      unfolding tl by (simp add: butlast_append)
    then show False using assms(2,3) by (simp add: butlast_append)
  qed
  then show ?thesis using tl by simp
qed

lemma final_of_final_chunk [simp]:
  "has_final (final_chunk d p)" "final_of (final_chunk d p) = outcomeFromProto (Some p)"
  by (simp_all add: has_final_def final_of_def final_chunk_def)

text \<open>What arrives of a stream: the delivered messages in order, then how the call ended.\<close>

definition arrives :: "go_error option \<times> send_log \<Rightarrow> (go_error + ForwardChunk) list" where
  "arrives r = map Inr (delivered (snd r)) @ (case fst r of None \<Rightarrow> [] | Some e \<Rightarrow> [Inl e])"

text \<open>
  C1: End to end, a streaming call that the plugin's side ends well gives the host's writer
  exactly the bytes the plugin wrote, in order, and the host the plugin's verdict as the wire
  carries it (at most without its diagnostic); if the host reports an error instead, its own
  writer has failed, has got a prefix of those bytes, and no replay is asked for.
\<close>

theorem stream_end_to_end:
  assumes "client_writer ops body failed ok flush" and "ok w" and "failed w = None"
    and "run_prog (stream_ops t) (impl (handlerRequest unmarshal True req)) new_streamWriter =
           ((outcome, err), sw, tr)"
    and "ForwardStream t unmarshal impl elapsed req = (None, log)"
    and "forwardStream ops flush (Inr (arrives (None, log))) w = ((o', e), w')"
    and "sent = fill_duration elapsed (merge_reason err outcome)"
  shows "(case e of
            None \<Rightarrow>
              body w' = body w @ written tr \<and>
              (o' = outcome_view sent \<or> o' = outcome_view (sent\<lparr>FinalErrorDiagnostic := None\<rparr>))
          | Some er \<Rightarrow>
              failed w' \<noteq> None \<and> prefix (body w') (body w @ written tr) \<and>
              \<not> Outcome_ShouldFailover o' \<and> \<not> RequestsModelFallback o')"
proof -
  obtain msgs p where log: "log = map (\<lambda>c. (c, None)) (msgs @ [final_chunk (sw_completionTail sw) p])"
    and flags: "\<forall>c \<in> set msgs. \<not> ch_Done c" and data: "chunk_data (map fst log) = written tr"
    and p: "carried p sent"
    using ForwardStream_messages [OF assms(5,4)] assms(7) by blast
  define c where "c = final_chunk (sw_completionTail sw) p"
  have es: "arrives (None, log) = map Inr (msgs @ [c])"
    by (simp only: arrives_def log snd_conv delivered_map_None c_def) simp
  have loop: "recv_loop ops flush (map Inr (msgs @ [c])) False w = ((o', e), w')"
    using assms(6) es by (simp add: forwardStream_def)
  have all: "chunk_data (msgs @ [c]) = written tr"
    using data by (simp add: log c_def comp_def)
  note result = forwardStream_receives [OF assms(1-3,6)]
  show ?thesis
  proof (cases e)
    case None
    obtain cs d and rest :: "(go_error + ForwardChunk) list"
      where split: "map Inr (msgs @ [c]) = map Inr (cs @ [d]) @ rest" "has_final d"
        "o' = final_of d" "body w' = body w @ chunk_data (cs @ [d])"
      using result [unfolded es None option.case, THEN conjunct2] by blast
    then have eq: "cs = msgs" "d = c"
      using only_final_last [OF split(1)] flags by (simp_all add: has_final_def)
    then have body: "body w' = body w @ written tr" and "o' = outcomeFromProto (Some p)"
      using split(3,4) all unfolding eq by (simp_all add: c_def)
    then show ?thesis
      using carried_decode [OF p] body None by simp
  next
    case (Some er)
    have "failed w' \<noteq> None"
      using client_writer.recv_loop_error [OF assms(1-3) _ loop [unfolded Some]]
      by (simp add: c_def)
    moreover obtain cs and rest :: "(go_error + ForwardChunk) list"
      where cs: "map Inr (msgs @ [c]) = map Inr cs @ rest"
      "prefix (body w') (body w @ chunk_data cs)"
      using result es Some by auto
    moreover have "prefix (chunk_data cs) (written tr)"
      using map_Inr_prefix [OF cs(1)] all by (metis chunk_data_simps(3) prefix_def)
    ultimately show ?thesis
      using result Some by (simp add: prefix_append_mono)
  qed
qed


lemma start_head:
  assumes "fits_int32 c"
  shows "start_response ops (head_chunk h c) False w =
           (True, wr_status ops (if c = 0 then 200 else c) (wr_header ops (add_all h) w))"
proof -
  have "int32_of c \<noteq> 0" if "c \<noteq> 0"
  proof
    assume "int32_of c = 0"
    then have "int_of_int32 0 = c"
      using int_of_int32_of [OF assms] by simp
    then show False using that by (simp add: int_of_int32_def)
  qed
  moreover have "int_of_int32 (int32_of 200) = 200"
    by (rule int_of_int32_of) (simp add: fits_int32_def)
  moreover have "int32_of 200 \<noteq> 0"
    by (simp add: int32_of_def)
  ultimately show ?thesis
    using int_of_int32_of [OF assms]
    by (simp add: start_response_def head_chunk_def meta_chunk_def header_codec.dec_enc Let_def
        del: int_of_int32_wire)
qed

text \<open>
  C5: The head of the response survives end to end. With the headers and the status the plugin
  had set when it first wrote (\<open>head_of\<close>; 200 if none, a later WriteHeader or header change has no
  effect), the host's first calls on its writer are to add exactly those headers and to set that
  status, before any data; and if the plugin neither wrote nor set a status, the host's writer is
  not touched at all, so the host can still answer for itself.
\<close>

theorem stream_head_end_to_end:
  assumes "run_prog (stream_ops t) (impl (handlerRequest unmarshal True req)) new_streamWriter =
      ((outcome, err), sw, tr)"
    and "ForwardStream t unmarshal impl elapsed req = (None, log)"
    and "head_of (impl (handlerRequest unmarshal True req)) [] 0 False = (h, c, wrote)"
    and "fits_int32 c"
  shows "(\<exists>p. \<not> wrote \<and> written tr = [] \<and>
              forwardStream ops flush (Inr (arrives (None, log))) w =
                ((outcomeFromProto (Some p), None), w)) \<or>
         forwardStream ops flush (Inr (arrives (None, log))) w =
           recv_loop ops flush (map Inr (tl (map fst log))) True
             (wr_status ops (if c = 0 then 200 else c) (wr_header ops (add_all h) w))"
proof -
  obtain msgs p where log: "log = map (\<lambda>c. (c, None)) (msgs @ [final_chunk (sw_completionTail sw) p])"
    using ForwardStream_messages [OF assms(2,1)] by blast
  then have es: "arrives (None, log) = map Inr (map fst log)"
    by (simp add: arrives_def comp_def)
  from ForwardStream_head [OF assms(1-3)] show ?thesis
  proof
    assume "\<exists>p. log = [(final_chunk [] p, None)] \<and> \<not> wrote \<and> written tr = [] \<and>
              carried p (fill_duration elapsed (merge_reason err outcome))"
    then show ?thesis
      using es by (auto simp: forwardStream_def start_response_def final_chunk_def has_final_def
          final_of_def)
  next
    assume head: "fst (hd log) = head_chunk h c \<and> length log > 1"
    have "msgs \<noteq> []" using head log by auto
    then obtain l where l: "log = (head_chunk h c, None) # l"
      using log head by (cases msgs) auto
    have "\<not> has_final (head_chunk h c)" "ch_Data (head_chunk h c) = []"
      by (simp_all add: has_final_def head_chunk_def meta_chunk_def)
    then show ?thesis
      unfolding es forwardStream_def by (simp add: l start_head [OF assms(4)] Let_def)
  qed
qed

text \<open>
  What a plugin's own run means for a unary call: the run writes into a buffer and ends in
  \<open>outcome\<close> and \<open>err\<close>.
\<close>

definition unary_meaning ::
  "(go_error \<Rightarrow> go_error) \<Rightarrow> (PbForwardOutcome \<Rightarrow> nat) \<Rightarrow> forward_result \<Rightarrow> bufferWriter \<Rightarrow> bytes
     \<Rightarrow> forward_result" where
  "unary_meaning carry sz res bw out =
     (let (outcome, err) = res;
          fail = (\<lambda>e. (zero_outcome, Some (ErrWrap msg_forward_call (carry e))));
          verdict = adopt_buffer bw (merge_reason err outcome);
          bare = verdict\<lparr>FinalErrorDiagnostic := None\<rparr>
      in if err \<noteq> None \<and> Kind outcome = OutcomeUnknown then fail (the err)
         else if MaxBufferedResponseBytes < length out then fail buffer_full
         else if MaxBufferedResponseBytes < length (up_Body (Upstream verdict))
         then fail (ErrStatus ResourceExhausted ''plugin response body exceeds payload budget'')
         else if sz (outcomeToProto verdict) \<le> MaxResponseMessageBytes
         then (outcome_view verdict, None)
         else if sz (outcomeToProto bare) \<le> MaxResponseMessageBytes
         then (outcome_view bare, None)
         else fail (ErrStatus ResourceExhausted ''plugin response exceeds payload budget''))"

text \<open>
  C6: A unary call is the plugin's own run, seen through the wire. The plugin is given the
  host's request, its rule plan as the wire carries it and nothing else changed; if its run on
  that request ends in a verdict, the host gets that verdict through \<open>outcome_view\<close>, with the
  plugin's error text as its reason and the plugin's writes as its response where the verdict
  left them empty, without the diagnostic if the message only fits without it. The host gets an
  error (as gRPC carries it) and no verdict exactly if the plugin failed without one, wrote more than 96 MiB, put
  more than 96 MiB into the verdict, or if the bare message exceeds its budget; all that the
  plugin wrote is in the buffer unless the budget stopped it.
\<close>

theorem unary_end_to_end:
  assumes "creds_json marshal unmarshal (ac_Credentials (fr_Account req))"
    and "run_prog (buffer_ops detect)
           (impl (req\<lparr>fr_DispatchPlan := plan_view (fr_DispatchPlan req)\<rparr>)) new_bufferWriter =
         (res, bw, tr)"
  shows "client_Forward
             (over_grpc carry (Forward t detect unmarshal impl (buildProtoRequest marshal req))) =
           unary_meaning carry (tr_outcome_size t) res bw (written tr) \<and>
         bw_err bw =
           (if MaxBufferedResponseBytes < length (written tr) then Some buffer_full else None) \<and>
         (if bw_err bw = None then bw_body bw = written tr
          else snd (unary_meaning carry (tr_outcome_size t) res bw (written tr)) \<noteq> None)"
proof -
  obtain outcome err where res: "res = (outcome, err)" by force
  have "handlerRequest unmarshal (pf_Stream (buildProtoRequest marshal req))
      (buildProtoRequest marshal req) = req\<lparr>fr_DispatchPlan := plan_view (fr_DispatchPlan req)\<rparr>"
    using request_round_trip [OF assms(1)] by (cases req) (simp add: buildProtoRequest_def)
  then have srv: "Forward t detect unmarshal impl (buildProtoRequest marshal req) =
    (if err \<noteq> None \<and> Kind outcome = OutcomeUnknown then Inl (the err)
     else if MaxBufferedResponseBytes < length (written tr) then Inl buffer_full
     else unary_message (tr_outcome_size t) (adopt_buffer bw (merge_reason err outcome)))"
    using assms(2) unfolding res by (intro Forward_value) simp
  have "client_Forward
        (over_grpc carry (Forward t detect unmarshal impl (buildProtoRequest marshal req))) =
      unary_meaning carry (tr_outcome_size t) res bw (written tr)"
    by (simp add: srv res unary_meaning_def client_Forward_def unary_message_def
        outcome_codec.dec_enc Let_def)
  then show ?thesis
    using bw_run_new [OF assms(2)] by (auto simp: unary_meaning_def res Let_def)
qed

section \<open>Witnesses\<close>

lemma bw_ok_write:
  "bw_err w = None \<Longrightarrow> length (bw_body w) + length d \<le> MaxBufferedResponseBytes \<Longrightarrow>
   \<exists>w'. bw_Write detect d w = ((length d, None), w') \<and> bw_err w' = None \<and>
        bw_body w' = bw_body w @ d"
  by (auto simp: bw_Write_def bw_Header_def Let_def)

text \<open>A host writer is a \<open>bufferWriter\<close> here; the call finishes without an error.\<close>

lemma example_client:
  "\<exists>w'. forwardStream (buffer_ops (\<lambda>_. ''text'')) (\<lambda>w. w)
     (Inr [Inr (final_chunk ''x'' (outcomeToProto example_outcome))]) new_bufferWriter =
     ((outcome_view example_outcome, None), w')"
proof -
  define w where "w = bw_WriteHeader 200 (bw_Header (add_all []) new_bufferWriter)"
  have "bw_err w = None" "length (bw_body w) + length ''x'' \<le> MaxBufferedResponseBytes"
    by (simp_all add: w_def new_bufferWriter_def MaxBufferedResponseBytes_def)
  from bw_ok_write [OF this] obtain w' where
    "bw_Write (\<lambda>_. ''text'') ''x'' w = ((length ''x'', None), w')" by blast
  then show ?thesis
    by (simp add: forwardStream_def start_response_def w_def write_error_def Let_def
        outcome_codec.dec_enc)
      (simp add: final_chunk_def start_response_def protoHeadersToHTTP_def map_filter_simps
        int_of_int32_def has_final_def final_of_def outcome_codec.dec_enc)
qed


lemmas client_eval =
  forwardStream_def start_response_def write_error_def Let_def outcome_codec.dec_enc
  final_chunk_def data_chunk_def meta_chunk_def protoHeadersToHTTP_def httpHeadersToProto_def
  map_filter_simps has_final_def final_of_def bw_Write_def bw_Header_def bw_WriteHeader_def
  new_bufferWriter_def MaxBufferedResponseBytes_def HeaderGet_def HeaderSet_def header_values_def
  content_type_canonical add_all_def

lemma wire_int32_small: "0 \<le> sint x \<Longrightarrow> sint x < 2 ^ 31 \<Longrightarrow> wire_int32 x = x"
  by (simp add: fits_int32_def)

lemma example_stream_log:
  "\<exists>p. ForwardStream quiet_transport (\<lambda>_. None) (\<lambda>_. example_prog) 0 empty_request =
     (None, [(meta_chunk 201 [], None), (data_chunk ''ab'', None), (final_chunk ''c'' p, None)])"
proof -
  obtain sw where sw: "run_prog (stream_ops quiet_transport) example_prog new_streamWriter =
      ((example_outcome, None), sw, [(''ab'', 2, None), (''c'', 1, None)])"
    "sw_err sw = None" "sw_completionTail sw = ''c''" "sw_sent sw"
    "sw_log sw = [(meta_chunk 201 [], None), (data_chunk ''ab'', None)]"
    using example_run by blast
  then show ?thesis
    by (simp add: ForwardStream_def sw_flushMeta_def send_final_def checkOutcomeMessage_def
        checkResponseMessage_def sw_send_def Let_def quiet_transport_def MaxBufferedResponseBytes_def
        outcomeToProto_def upstreamToProto_def fill_duration_def merge_reason_def
        example_outcome_def zero_outcome_def zero_upstream_def)
      (rule exI, rule refl)
qed

lemma example_client_abc:
  "\<exists>o' w'. forwardStream (buffer_ops (\<lambda>_. ''text'')) (\<lambda>w. w)
     (Inr (arrives (None, [(meta_chunk 201 [], None), (data_chunk ''ab'', None),
        (final_chunk ''c'' p, None)]))) new_bufferWriter = ((o', None), w')"
  by (simp add: arrives_def client_eval)

theorem stream_end_to_end_witness:
  "\<exists>log o' w'. ForwardStream quiet_transport (\<lambda>_. None) (\<lambda>_. example_prog) 0 empty_request =
       (None, log) \<and>
     forwardStream (buffer_ops (\<lambda>_. ''text'')) (\<lambda>w. w) (Inr (arrives (None, log)))
       new_bufferWriter = ((o', None), w') \<and> bw_body w' = ''abc''"
proof -
  obtain p where server: "ForwardStream quiet_transport (\<lambda>_. None) (\<lambda>_. example_prog) 0
      empty_request =
     (None, [(meta_chunk 201 [], None), (data_chunk ''ab'', None), (final_chunk ''c'' p, None)])"
    (is "_ = (None, ?log)")
    using example_stream_log by blast
  obtain o' w' where client: "forwardStream (buffer_ops (\<lambda>_. ''text'')) (\<lambda>w. w)
      (Inr (arrives (None, ?log))) new_bufferWriter = ((o', None), w')"
    using example_client_abc by blast
  obtain sw where sw: "run_prog (stream_ops quiet_transport) example_prog new_streamWriter =
      ((example_outcome, None), sw, [(''ab'', 2, None), (''c'', 1, None)])"
    using example_run by blast
  have "bw_err new_bufferWriter = None" by (simp add: new_bufferWriter_def)
  from stream_end_to_end [OF buffer_client.client_writer_axioms bw_new_inv this sw server client refl]
  have "bw_body w' = ''abc''" by (simp add: new_bufferWriter_def)
  then show ?thesis using server client by blast
qed

lemma example_client_broken:
  "\<exists>o' e w'. forwardStream (buffer_ops (\<lambda>_. ''text'')) (\<lambda>w. w)
     (Inr (arrives (Some EOF, [(meta_chunk 201 [], None), (data_chunk ''ab'', Some EOF)])))
     new_bufferWriter = ((o', Some e), w')"
  by (simp add: arrives_def client_eval)


theorem stream_head_end_to_end_witness:
  "\<exists>log w'. ForwardStream quiet_transport (\<lambda>_. None) (\<lambda>_. example_prog) 0 empty_request =
       (None, log) \<and>
     forwardStream (buffer_ops (\<lambda>_. ''text'')) (\<lambda>w. w) (Inr (arrives (None, log)))
       new_bufferWriter =
     recv_loop (buffer_ops (\<lambda>_. ''text'')) (\<lambda>w. w) (map Inr (tl (map fst log))) True
       (bw_WriteHeader 201 (bw_Header (add_all []) new_bufferWriter))"
proof -
  obtain p where server: "ForwardStream quiet_transport (\<lambda>_. None) (\<lambda>_. example_prog) 0
      empty_request =
     (None, [(meta_chunk 201 [], None), (data_chunk ''ab'', None), (final_chunk ''c'' p, None)])"
    using example_stream_log by blast
  obtain sw where sw: "run_prog (stream_ops quiet_transport) example_prog new_streamWriter =
      ((example_outcome, None), sw, [(''ab'', 2, None), (''c'', 1, None)])"
    using example_run by blast
  have head: "head_of example_prog [] 0 False = ([], 201, True)"
    by (simp add: example_prog_def)
  have fits: "fits_int32 201" by (simp add: fits_int32_def)
  show ?thesis
    using stream_head_end_to_end [of quiet_transport "\<lambda>_. example_prog" "\<lambda>_. None" empty_request,
        OF sw server head fits, of "buffer_ops (\<lambda>_. ''text'')" "\<lambda>w. w" new_bufferWriter]
    by (simp add: server)
qed

definition plain_request :: ForwardRequest where
  "plain_request =
     \<lparr>fr_Account = zero_account, fr_Body = ''hi'', fr_Headers = [], fr_Model = ''m'',
      fr_DispatchPlan = zero_plan, fr_Stream = False, fr_TraceFinalError = False\<rparr>"

text \<open>The plugin writes a body and reports success with an error; both reach the host.\<close>

theorem unary_end_to_end_witness:
  "client_Forward (over_grpc (\<lambda>e. e) (Forward quiet_transport (\<lambda>_. ''text'') (\<lambda>_. Some [])
     (\<lambda>_. example_unary) (buildProtoRequest (\<lambda>_. ''{}'') plain_request))) =
   (zero_outcome\<lparr>Kind := OutcomeSuccess, Reason := ''EOF'',
      Upstream := \<lparr>up_StatusCode = 200, up_Headers = [(''Content-Type'', [''text''])],
                   up_Body = ''no''\<rparr>\<rparr>, None)"
proof -
  have json: "creds_json (\<lambda>_. ''{}'') (\<lambda>_. Some []) (ac_Credentials (fr_Account plain_request))"
    by (simp add: creds_json_def plain_request_def zero_account_def)
  show ?thesis
    using unary_end_to_end [of "\<lambda>_. ''{}''" "\<lambda>_. Some []" plain_request "\<lambda>_. ''text''"
        "\<lambda>_. example_unary", OF json example_unary_run, of "\<lambda>e. e" quiet_transport]
    by (simp add: unary_meaning_def example_outcome_def zero_outcome_def zero_upstream_def Let_def
        merge_reason_def adopt_buffer_def MaxBufferedResponseBytes_def quiet_transport_def
        outcome_view_def upstream_view_def kind_view_def diagnostic_view_def wire_int32_small
        truncate_ms_def Milliseconds_def duration_of_ms_def go_div_def)
qed

end
