(* ===== verification/WebSocket.thy ===== *)
theory WebSocket
  imports GatewayClient
begin

text \<open>
  WebSocket calls on both sides of the plugin boundary: \<^verbatim>\<open>runtimego/grpc/ws_server.go\<close> and
  \<^verbatim>\<open>HandleWebSocket\<close> of \<^verbatim>\<open>runtimego/grpc/gateway_client.go\<close>.

  A direction of the gRPC stream is the list of what \<^verbatim>\<open>Recv\<close> returns on it, its end being
  \<^verbatim>\<open>io.EOF\<close>; \<open>fate n\<close> is what the n-th \<^verbatim>\<open>Send\<close> returns. The plugin is a program over the
  connection it is given, as in theory Writer. The host runs two goroutines, one per direction,
  that share the connection and the context alone; each is a function of its own here, and
  \<open>canceled\<close> says whether the context ended, which closes the connection, before the loop did.
\<close>

section \<open>Messages\<close>

text \<open>The UTF-8 bytes of the error texts.\<close>

definition msg_ws_connect :: string where
  "msg_ws_connect =
     [CHR 0xE6, CHR 0x8E, CHR 0xA5, CHR 0xE6, CHR 0x94, CHR 0xB6] @ '' CONNECT '' @ [CHR
     0xE5, CHR 0xB8, CHR 0xA7, CHR 0xE5, CHR 0xA4, CHR 0xB1, CHR 0xE8, CHR 0xB4, CHR 0xA5]"

definition msg_ws_expected :: string where
  "msg_ws_expected =
     [CHR 0xE6, CHR 0x9C, CHR 0x9F, CHR 0xE6, CHR 0x9C, CHR 0x9B] @ '' CONNECT '' @ [CHR
     0xE5, CHR 0xB8, CHR 0xA7, CHR 0xEF, CHR 0xBC, CHR 0x8C, CHR 0xE6, CHR 0x94, CHR 0xB6,
     CHR 0xE5, CHR 0x88, CHR 0xB0] @ '' ''"

definition msg_ws_call :: string where
  "msg_ws_call =
     ''gRPC HandleWebSocket '' @ [CHR 0xE8, CHR 0xB0, CHR 0x83, CHR 0xE7, CHR 0x94, CHR
     0xA8, CHR 0xE5, CHR 0xA4, CHR 0xB1, CHR 0xE8, CHR 0xB4, CHR 0xA5]"

definition msg_ws_send :: string where
  "msg_ws_send =
     [CHR 0xE5, CHR 0x8F, CHR 0x91, CHR 0xE9, CHR 0x80, CHR 0x81] @ '' CONNECT '' @ [CHR
     0xE5, CHR 0xB8, CHR 0xA7, CHR 0xE5, CHR 0xA4, CHR 0xB1, CHR 0xE8, CHR 0xB4, CHR 0xA5]"

definition msg_ws_recv :: string where
  "msg_ws_recv =
     ''gRPC WebSocket '' @ [CHR 0xE6, CHR 0xB5, CHR 0x81, CHR 0xE6, CHR 0x8E, CHR 0xA5, CHR
     0xE6, CHR 0x94, CHR 0xB6, CHR 0xE5, CHR 0xA4, CHR 0xB1, CHR 0xE8, CHR 0xB4, CHR 0xA5]"

section \<open>Frames and connections\<close>

type_synonym ws_message = "go_int \<times> bytes"

definition WSMessageText :: go_int where "WSMessageText = 1"
definition WSMessageBinary :: go_int where "WSMessageBinary = 2"

text \<open>The frame types of the generated code.\<close>

definition FRAME_CONNECT :: go_int32 where "FRAME_CONNECT = 0"
definition FRAME_TEXT :: go_int32 where "FRAME_TEXT = 1"
definition FRAME_BINARY :: go_int32 where "FRAME_BINARY = 2"
definition FRAME_CLOSE :: go_int32 where "FRAME_CLOSE = 3"
definition FRAME_RESULT :: go_int32 where "FRAME_RESULT = 4"

lemmas frame_type_defs =
  FRAME_CONNECT_def FRAME_TEXT_def FRAME_BINARY_def FRAME_CLOSE_def FRAME_RESULT_def

lemma frame_types_distinct [simp]:
  "FRAME_RESULT \<noteq> FRAME_TEXT" "FRAME_RESULT \<noteq> FRAME_BINARY" "FRAME_RESULT \<noteq> FRAME_CLOSE"
  "FRAME_CLOSE \<noteq> FRAME_TEXT" "FRAME_CLOSE \<noteq> FRAME_BINARY" "FRAME_BINARY \<noteq> FRAME_TEXT"
  "FRAME_TEXT \<noteq> FRAME_BINARY"
  by (simp_all add: frame_type_defs)

record WebSocketConnectInfo =
  wi_Path :: string
  wi_Query :: string
  wi_Headers :: header
  wi_RemoteAddr :: string
  wi_ConnectionID :: string
  wi_Account :: "Account option"

record PbWebSocketConnectInfo =
  pw_Path :: string
  pw_Query :: string
  pw_Headers :: pb_headers
  pw_RemoteAddr :: string
  pw_ConnectionId :: string
  pw_Account :: "AccountProto option"

record WebSocketFrame =
  wf_Type :: go_int32
  wf_Data :: bytes
  wf_ConnectInfo :: "PbWebSocketConnectInfo option"
  wf_CloseCode :: go_int32
  wf_CloseReason :: string
  wf_Outcome :: "PbForwardOutcome option"

text \<open>A frame with every field but its type zero.\<close>

definition new_frame :: "go_int32 \<Rightarrow> WebSocketFrame" where
  "new_frame t =
     \<lparr>wf_Type = t, wf_Data = [], wf_ConnectInfo = None, wf_CloseCode = 0, wf_CloseReason = [],
      wf_Outcome = None\<rparr>"

definition convertConnectInfo ::
  "(bytes \<Rightarrow> metadata option) \<Rightarrow> PbWebSocketConnectInfo option \<Rightarrow> WebSocketConnectInfo" where
  "convertConnectInfo unmarshal info =
     (case info of
        None \<Rightarrow>
          \<lparr>wi_Path = [], wi_Query = [], wi_Headers = [], wi_RemoteAddr = [],
           wi_ConnectionID = [], wi_Account = None\<rparr>
      | Some i \<Rightarrow>
          (let account = (case pw_Account i of
                            None \<Rightarrow> zero_account
                          | Some a \<Rightarrow> accountFromProto unmarshal a)
           in \<lparr>wi_Path = pw_Path i, wi_Query = pw_Query i,
               wi_Headers = protoHeadersToHTTP (pw_Headers i), wi_RemoteAddr = pw_RemoteAddr i,
               wi_ConnectionID = pw_ConnectionId i, wi_Account = Some account\<rparr>))"

text \<open>The frame of one message, the same on both sides.\<close>

definition message_frame :: "ws_message \<Rightarrow> WebSocketFrame" where
  "message_frame m =
     (new_frame (if fst m = WSMessageBinary then FRAME_BINARY else FRAME_TEXT))
       \<lparr>wf_Data := snd m\<rparr>"

section \<open>The plugin's side\<close>

definition conn_ReadMessage ::
  "(go_int32 \<Rightarrow> string) \<Rightarrow> go_error + WebSocketFrame \<Rightarrow> go_error + ws_message" where
  "conn_ReadMessage type_text recv =
     (case recv of
        Inl e \<Rightarrow> Inl e
      | Inr f \<Rightarrow>
          if wf_Type f = FRAME_TEXT then Inr (WSMessageText, wf_Data f)
          else if wf_Type f = FRAME_BINARY then Inr (WSMessageBinary, wf_Data f)
          else if wf_Type f = FRAME_CLOSE then Inl EOF
          else Inl (ErrMsg (''unexpected WebSocket frame type: '' @ type_text (wf_Type f))))"

definition close_frame :: "go_int \<Rightarrow> string \<Rightarrow> WebSocketFrame" where
  "close_frame code reason =
     (new_frame FRAME_CLOSE)\<lparr>wf_CloseCode := int32_of code, wf_CloseReason := reason\<rparr>"

definition result_frame :: "ForwardOutcome \<Rightarrow> WebSocketFrame" where
  "result_frame outcome =
     (new_frame FRAME_RESULT)\<lparr>wf_Outcome := Some (outcomeToProto outcome)\<rparr>"

text \<open>A plugin's handler: what it does with the connection, then its result.\<close>

datatype ws_prog =
    WsReturn ForwardOutcome "go_error option"
  | WsRead "go_error + ws_message \<Rightarrow> ws_prog"
  | WsWrite ws_message "go_error option \<Rightarrow> ws_prog"
  | WsClose go_int string "go_error option \<Rightarrow> ws_prog"

type_synonym ws_input = "(go_error + WebSocketFrame) list"
type_synonym ws_log = "(WebSocketFrame \<times> go_error option) list"

text \<open>Receiving: the next of the list, \<^verbatim>\<open>io.EOF\<close> after its end.\<close>

definition recv_next :: "ws_input \<Rightarrow> go_error + WebSocketFrame" where
  "recv_next ins = (case ins of [] \<Rightarrow> Inl EOF | x # _ \<Rightarrow> x)"

primrec run_ws ::
  "(go_int32 \<Rightarrow> string) \<Rightarrow> (nat \<Rightarrow> go_error option) \<Rightarrow> ws_prog \<Rightarrow> ws_input \<Rightarrow> ws_log
     \<Rightarrow> forward_result \<times> ws_log" where
  "run_ws type_text fate (WsReturn outcome err) ins log = ((outcome, err), log)"
| "run_ws type_text fate (WsRead k) ins log =
     run_ws type_text fate (k (conn_ReadMessage type_text (recv_next ins))) (tl ins) log"
| "run_ws type_text fate (WsWrite m k) ins log =
     (let e = fate (length log)
      in run_ws type_text fate (k e) ins (log @ [(message_frame m, e)]))"
| "run_ws type_text fate (WsClose code reason k) ins log =
     (let e = fate (length log)
      in run_ws type_text fate (k e) ins (log @ [(close_frame code reason, e)]))"

definition ws_HandleWebSocket ::
  "(go_int32 \<Rightarrow> string) \<Rightarrow> (bytes \<Rightarrow> metadata option) \<Rightarrow> (nat \<Rightarrow> go_error option)
     \<Rightarrow> (WebSocketConnectInfo \<Rightarrow> ws_prog) \<Rightarrow> ws_input \<Rightarrow> go_error option \<times> ws_log" where
  "ws_HandleWebSocket type_text unmarshal fate impl ins =
     (case recv_next ins of
        Inl e \<Rightarrow> (Some (ErrWrap msg_ws_connect e), [])
      | Inr first \<Rightarrow>
          if wf_Type first \<noteq> FRAME_CONNECT
          then (Some (ErrMsg (msg_ws_expected @ type_text (wf_Type first))), [])
          else
            (let conn = convertConnectInfo unmarshal (wf_ConnectInfo first);
                 ((outcome, err), log) = run_ws type_text fate (impl conn) (tl ins) []
             in if err \<noteq> None \<and> Kind outcome = OutcomeUnknown then (err, log)
                else
                  (let f = result_frame (merge_reason err outcome); e = fate (length log)
                   in (e, log @ [(f, e)]))))"

section \<open>The host's side\<close>

text \<open>The first CONNECT frame; \<open>None\<close> is the error for a connection without an account.\<close>

definition connect_frame ::
  "(metadata \<Rightarrow> bytes) \<Rightarrow> WebSocketConnectInfo option \<Rightarrow> WebSocketFrame option" where
  "connect_frame marshal info =
     (case info of
        None \<Rightarrow> None
      | Some i \<Rightarrow>
          (case wi_Account i of
             None \<Rightarrow> None
           | Some a \<Rightarrow>
               Some ((new_frame FRAME_CONNECT)
                 \<lparr>wf_ConnectInfo :=
                    Some \<lparr>pw_Path = wi_Path i, pw_Query = wi_Query i,
                          pw_Headers = httpHeadersToProto (wi_Headers i),
                          pw_RemoteAddr = wi_RemoteAddr i,
                          pw_ConnectionId = wi_ConnectionID i,
                          pw_Account = Some (accountToProto marshal a)\<rparr>\<rparr>)))"

text \<open>
  The sending goroutine: \<open>reads\<close> is what the connection's \<^verbatim>\<open>ReadMessage\<close> returns until the
  context ends, \<open>fate n\<close> what the n-th \<^verbatim>\<open>Send\<close> returns. The frames sent and the error left.
\<close>

fun ws_reader ::
  "(nat \<Rightarrow> go_error option) \<Rightarrow> (go_error + ws_message) list \<Rightarrow> WebSocketFrame list
     \<Rightarrow> WebSocketFrame list \<times> go_error option" where
  "ws_reader fate [] sent = (sent, None)"
| "ws_reader fate (Inl e # _) sent = (sent, Some e)"
| "ws_reader fate (Inr m # rs) sent =
     (case fate (length sent) of
        Some e \<Rightarrow> (sent, Some e)
      | None \<Rightarrow> ws_reader fate rs (sent @ [message_frame m]))"

text \<open>How the receiving loop ends: the result and the close code and reason.\<close>

type_synonym ws_close = "go_int \<times> string"

definition ws_closing :: ws_close where
  "ws_closing = (1000, ''grpc websocket closing'')"

definition close_of :: "WebSocketFrame \<Rightarrow> ws_close" where
  "close_of f =
     (let closeCode = int_of_int32 (wf_CloseCode f);
          closeCode = (if closeCode = 0 then 1000 else closeCode);
          closeReason = wf_CloseReason f;
          closeReason = (if closeReason = [] then ''grpc websocket closing'' else closeReason)
      in (closeCode, closeReason))"

definition result_of :: "WebSocketFrame \<Rightarrow> ForwardOutcome" where
  "result_of f =
     (case wf_Outcome f of None \<Rightarrow> zero_outcome | Some p \<Rightarrow> outcomeFromProto (Some p))"

fun ws_loop ::
  "(nat \<Rightarrow> go_error option) \<Rightarrow> ws_input \<Rightarrow> ws_message list
     \<Rightarrow> forward_result \<times> ws_close \<times> ws_message list" where
  "ws_loop wfate [] out = ((zero_outcome, None), ws_closing, out)"
| "ws_loop wfate (Inl e # _) out =
     (if e = EOF then ((zero_outcome, None), ws_closing, out)
      else ((zero_outcome, Some (ErrWrap msg_ws_recv e)), ws_closing, out))"
| "ws_loop wfate (Inr f # fs) out =
     (if wf_Type f = FRAME_TEXT \<or> wf_Type f = FRAME_BINARY
      then
        (let m = (if wf_Type f = FRAME_TEXT then WSMessageText else WSMessageBinary, wf_Data f) in
         case wfate (length out) of
           Some e \<Rightarrow> ((zero_outcome, Some e), ws_closing, out)
         | None \<Rightarrow> ws_loop wfate fs (out @ [m]))
      else if wf_Type f = FRAME_CLOSE then ((zero_outcome, None), close_of f, out)
      else if wf_Type f = FRAME_RESULT then ((result_of f, None), ws_closing, out)
      else ws_loop wfate fs out)"

text \<open>\<^verbatim>\<open>closeOnce\<close>: the first close of the connection is the only one.\<close>

definition close_once :: "ws_close option \<Rightarrow> ws_close \<Rightarrow> ws_close" where
  "close_once closed c = (case closed of None \<Rightarrow> c | Some d \<Rightarrow> d)"

record ws_call =
  wc_result :: forward_result
  wc_closed :: ws_close
  wc_first :: "WebSocketFrame option"
  wc_written :: "ws_message list"

text \<open>
  \<open>opened\<close> is the error of opening the stream, when nothing else happens; \<open>connect_fate\<close> what
  sending the first frame returns.
\<close>

definition client_HandleWebSocket ::
  "(metadata \<Rightarrow> bytes) \<Rightarrow> go_error option \<Rightarrow> bool \<Rightarrow> go_error option \<Rightarrow> (nat \<Rightarrow> go_error option)
     \<Rightarrow> WebSocketConnectInfo option \<Rightarrow> ws_input \<Rightarrow> go_error + ws_call" where
  "client_HandleWebSocket marshal opened canceled connect_fate wfate info ins =
     (case opened of
        Some e \<Rightarrow> Inl (ErrWrap msg_ws_call e)
      | None \<Rightarrow>
          (let closed = (if canceled then Some (1000, ''grpc websocket canceled'') else None) in
           case connect_frame marshal info of
             None \<Rightarrow>
               Inr \<lparr>wc_result =
                      (zero_outcome, Some (ErrMsg ''WebSocket connection account is missing'')),
                    wc_closed = close_once closed ws_closing, wc_first = None, wc_written = []\<rparr>
           | Some f \<Rightarrow>
               (case connect_fate of
                  Some e \<Rightarrow>
                    Inr \<lparr>wc_result = (zero_outcome, Some (ErrWrap msg_ws_send e)),
                         wc_closed = close_once closed ws_closing, wc_first = None,
                         wc_written = []\<rparr>
                | None \<Rightarrow>
                    (let (result, c, out) = ws_loop wfate ins []
                     in Inr \<lparr>wc_result = result, wc_closed = close_once closed c,
                             wc_first = Some f, wc_written = out\<rparr>))))"

section \<open>Lemmas\<close>

text \<open>A message crosses as it is, every type other than binary as text.\<close>

definition message_view :: "ws_message \<Rightarrow> ws_message" where
  "message_view m =
     (if fst m = WSMessageBinary then WSMessageBinary else WSMessageText, snd m)"

definition frame_message :: "WebSocketFrame \<Rightarrow> ws_message" where
  "frame_message f =
     (if wf_Type f = FRAME_TEXT then WSMessageText else WSMessageBinary, wf_Data f)"

definition is_message :: "WebSocketFrame \<Rightarrow> bool" where
  "is_message f \<longleftrightarrow> wf_Type f = FRAME_TEXT \<or> wf_Type f = FRAME_BINARY"

lemma wf_Type_frames [simp]:
  "wf_Type (new_frame t) = t" "wf_Type (close_frame c r) = FRAME_CLOSE"
  "wf_Type (result_frame o') = FRAME_RESULT"
  by (simp_all add: new_frame_def close_frame_def result_frame_def)

lemma message_frame_simps [simp]:
  "is_message (message_frame m)" "frame_message (message_frame m) = message_view m"
  "conn_ReadMessage tt (Inr (message_frame m)) = Inr (message_view m)"
  by (simp_all add: is_message_def frame_message_def message_frame_def message_view_def
      conn_ReadMessage_def new_frame_def)

lemma not_message [simp]:
  "\<not> is_message (close_frame c r)" "\<not> is_message (result_frame o')"
  by (simp_all add: is_message_def)

lemma result_of_result_frame [simp]: "result_of (result_frame o') = outcome_view o'"
  by (simp add: result_of_def result_frame_def outcome_codec.dec_enc)

lemma connect_round_trip:
  assumes "creds_json marshal unmarshal (ac_Credentials a)" and "wi_Account i = Some a"
  shows "\<exists>f. connect_frame marshal (Some i) = Some f \<and> wf_Type f = FRAME_CONNECT \<and>
             convertConnectInfo unmarshal (wf_ConnectInfo f) = i"
  using assms account_round_trip [OF assms(1)]
  by (cases i) (simp add: connect_frame_def convertConnectInfo_def new_frame_def
      header_codec.dec_enc)

text \<open>The frames a plugin's program sends are messages and closes.\<close>

definition plugin_frame :: "WebSocketFrame \<Rightarrow> bool" where
  "plugin_frame f \<longleftrightarrow> is_message f \<or> wf_Type f = FRAME_CLOSE"

lemma run_ws_frames:
  "run_ws tt fate p ins log = (r, log') \<Longrightarrow>
   \<exists>fs. log' = log @ fs \<and> (\<forall>x \<in> set fs. plugin_frame (fst x))"
proof (induction p arbitrary: ins log)
  case (WsReturn o' e)
  then show ?case by simp
next
  case (WsRead k)
  show ?case
    by (rule WsRead.IH [OF rangeI, of _ "tl ins"])
      (rule WsRead.prems [unfolded run_ws.simps])
next
  case (WsWrite m k)
  have run: "run_ws tt fate (k (fate (length log))) ins
      (log @ [(message_frame m, fate (length log))]) = (r, log')"
    using WsWrite.prems by (simp only: run_ws.simps Let_def)
  show ?case
    using WsWrite.IH [OF rangeI run]
    by (elim exE) (auto simp: plugin_frame_def)
next
  case (WsClose c r' k)
  have run: "run_ws tt fate (k (fate (length log))) ins
      (log @ [(close_frame c r', fate (length log))]) = (r, log')"
    using WsClose.prems by (simp only: run_ws.simps Let_def)
  show ?case
    using WsClose.IH [OF rangeI run]
    by (elim exE) (auto simp: plugin_frame_def)
qed

text \<open>The loop up to the first close: the messages before it, then the frame that stops it.\<close>

lemma ws_loop_messages:
  "list_all is_message fs \<Longrightarrow>
   ws_loop (\<lambda>_. None) (map Inr fs @ rest) out =
     ws_loop (\<lambda>_. None) rest (out @ map frame_message fs)"
  by (induction fs arbitrary: out) (auto simp: is_message_def frame_message_def)

lemma ws_loop_result:
  "ws_loop wfate [Inr (result_frame o')] out = ((outcome_view o', None), ws_closing, out)"
  by simp

lemma ws_loop_close:
  "wf_Type f = FRAME_CLOSE \<Longrightarrow>
   ws_loop wfate (Inr f # rest) out = ((zero_outcome, None), close_of f, out)"
  by simp

lemma ws_reader_sends:
  "fst (ws_reader (\<lambda>_. None) (map Inr ms) sent) = sent @ map message_frame ms"
  by (induction ms arbitrary: sent) simp_all

declare ws_loop.simps(3) [simp del]

text \<open>What the host makes of a plugin's frames with the result frame after them.\<close>

lemma ws_loop_plugin:
  assumes "\<forall>f \<in> set fs. plugin_frame f" and "msgs = takeWhile is_message fs"
  shows "ws_loop (\<lambda>_. None) (map Inr fs @ [Inr (result_frame o')]) [] =
           (if list_all is_message fs
            then ((outcome_view o', None), ws_closing, map frame_message msgs)
            else ((zero_outcome, None), close_of (fs ! length msgs), map frame_message msgs))"
proof (cases "list_all is_message fs")
  case True
  then have "msgs = fs"
    using assms(2) by (simp add: list_all_iff takeWhile_eq_all_conv)
  then show ?thesis
    using ws_loop_messages [OF True, of "[Inr (result_frame o')]" "[]"] True
    by (simp add: ws_loop_result)
next
  case False
  define cl rest where "cl = hd (dropWhile is_message fs)" and
    "rest = tl (dropWhile is_message fs)"
  have nonempty: "dropWhile is_message fs \<noteq> []"
    using False by (auto simp: list_all_iff)
  then have split: "fs = msgs @ cl # rest" "\<not> is_message cl"
    using assms(2) hd_dropWhile [OF nonempty] takeWhile_dropWhile_id [of is_message fs]
    by (simp_all add: cl_def rest_def)
  then have "wf_Type cl = FRAME_CLOSE" "fs ! length msgs = cl"
    using assms(1) by (auto simp: plugin_frame_def)
  moreover have "list_all is_message msgs"
    using assms(2) set_takeWhileD by (fastforce simp: list_all_iff)
  ultimately show ?thesis
    using False split(2) ws_loop_messages [of msgs "Inr cl # map Inr rest @ [Inr (result_frame o')]" "[]"]
    by (simp add: split(1) ws_loop_close)
qed

section \<open>Properties\<close>

text \<open>
  C35: A WebSocket call across the boundary. The plugin is told exactly the connection the host
  has, and reads the host's messages in order, a type other than binary as text. When every frame
  is delivered, the host's connection gets the plugin's messages in order, up to the plugin's first \<^verbatim>\<open>Close\<close>. Without a \<^verbatim>\<open>Close\<close> the host returns the plugin's verdict as
  the wire carries it; with one it stops there, so the verdict that follows is lost: it returns
  the zero outcome and no error.
\<close>

theorem websocket_end_to_end:
  assumes "wi_Account info = Some a" and "creds_json marshal unmarshal (ac_Credentials a)"
    and "run_ws type_text (\<lambda>_. None) (impl info) ins [] = ((outcome, err), log)"
    and "err = None \<or> Kind outcome \<noteq> OutcomeUnknown"
    and "connect_frame marshal (Some info) = Some first"
    and "ws_HandleWebSocket type_text unmarshal (\<lambda>_. None) impl (Inr first # ins) = (e, sent)"
    and "client_HandleWebSocket marshal None False None (\<lambda>_. None) (Some info)
           (map (Inr \<circ> fst) sent) = Inr call"
    and "msgs = takeWhile is_message (map fst log)"
  shows "e = None \<and> wc_first call = Some first \<and>
         map (conn_ReadMessage type_text \<circ> Inr) (fst (ws_reader (\<lambda>_. None) (map Inr ms) [])) =
           map (Inr \<circ> message_view) ms \<and>
         wc_written call = map frame_message msgs \<and>
         (if list_all is_message (map fst log)
          then wc_result call = (outcome_view (merge_reason err outcome), None) \<and>
               wc_closed call = ws_closing
          else wc_result call = (zero_outcome, None) \<and>
               wc_closed call = close_of (map fst log ! length msgs))"
proof -
  have first: "wf_Type first = FRAME_CONNECT"
    "convertConnectInfo unmarshal (wf_ConnectInfo first) = info"
    using connect_round_trip [OF assms(2,1)] assms(5) by simp_all
  define res where "res = result_frame (merge_reason err outcome)"
  have sent: "e = None" "sent = log @ [(res, None)]"
    using assms(3,4,6) first by (auto simp: ws_HandleWebSocket_def recv_next_def res_def)
  have frames: "\<forall>f \<in> set (map fst log). plugin_frame f"
    using run_ws_frames [OF assms(3)] by auto
  have ins: "map (Inr \<circ> fst) sent = map Inr (map fst log) @ [Inr res]"
    by (simp add: sent)
  obtain result c out where loop:
    "ws_loop (\<lambda>_. None) (map Inr (map fst log) @ [Inr res]) [] = (result, c, out)"
    by (rule prod_cases3)
  have call: "call = \<lparr>wc_result = result, wc_closed = c, wc_first = Some first, wc_written = out\<rparr>"
    using assms(5,7) loop by (simp add: client_HandleWebSocket_def ins close_once_def)
  show ?thesis
    using loop ws_loop_plugin [OF frames assms(8), of "merge_reason err outcome"]
    by (simp add: call sent(1) ws_reader_sends res_def [symmetric] split: if_splits)
qed

lemma close_of_close_frame: "close_of (close_frame 1000 ''bye'') = (1000, ''bye'')"
  by code_simp

text \<open>A plugin that echoes one message, closes the connection and reports success.\<close>

definition echo_plugin :: "WebSocketConnectInfo \<Rightarrow> ws_prog" where
  "echo_plugin info =
     WsRead (\<lambda>r. case r of
         Inl e \<Rightarrow> WsReturn zero_outcome (Some e)
       | Inr m \<Rightarrow> WsWrite m (\<lambda>_. WsClose 1000 ''bye''
           (\<lambda>_. WsReturn (zero_outcome\<lparr>Kind := OutcomeSuccess\<rparr>) None)))"

definition sample_info :: WebSocketConnectInfo where
  "sample_info =
     \<lparr>wi_Path = ''/v1/realtime'', wi_Query = [], wi_Headers = [], wi_RemoteAddr = [],
      wi_ConnectionID = ''c1'', wi_Account = Some zero_account\<rparr>"

lemma websocket_end_to_end_witness:
  "\<exists>first e sent call.
     connect_frame (\<lambda>_. ''{}'') (Some sample_info) = Some first \<and>
     ws_HandleWebSocket (\<lambda>_. []) (\<lambda>_. Some []) (\<lambda>_. None) echo_plugin
       [Inr first, Inr (message_frame (2, ''hi''))] = (e, sent) \<and>
     client_HandleWebSocket (\<lambda>_. ''{}'') None False None (\<lambda>_. None) (Some sample_info)
       (map (Inr \<circ> fst) sent) = Inr call \<and>
     e = None \<and> wc_written call = [(2, ''hi'')] \<and> wc_result call = (zero_outcome, None) \<and>
     wc_closed call = (1000, ''bye'')"
proof -
  have creds: "creds_json (\<lambda>_. ''{}'') (\<lambda>_. Some []) (ac_Credentials zero_account)"
    by (simp add: creds_json_def zero_account_def)
  obtain first where first: "connect_frame (\<lambda>_. ''{}'') (Some sample_info) = Some first"
    by (simp add: connect_frame_def sample_info_def)
  define log where "log =
    [(message_frame (WSMessageBinary, ''hi''), None :: go_error option),
     (close_frame 1000 ''bye'', None)]"
  have run: "run_ws (\<lambda>_. []) (\<lambda>_. None) (echo_plugin sample_info)
      [Inr (message_frame (2, ''hi''))] [] =
      ((zero_outcome\<lparr>Kind := OutcomeSuccess\<rparr>, None), log)"
    by (simp add: echo_plugin_def recv_next_def log_def message_view_def WSMessageBinary_def)
  obtain e sent where server: "ws_HandleWebSocket (\<lambda>_. []) (\<lambda>_. Some []) (\<lambda>_. None) echo_plugin
      [Inr first, Inr (message_frame (2, ''hi''))] = (e, sent)"
    by (rule prod.exhaust)
  obtain call where client: "client_HandleWebSocket (\<lambda>_. ''{}'') None False None (\<lambda>_. None)
      (Some sample_info) (map (Inr \<circ> fst) sent) = Inr call"
    using first
    by (cases "ws_loop (\<lambda>_. None) (map (Inr \<circ> fst) sent) []")
      (simp add: client_HandleWebSocket_def)
  note result = websocket_end_to_end [where impl = echo_plugin and ms = "[]",
      OF _ creds run _ first server client refl]
  have "e = None \<and> wc_written call = [(2, ''hi'')] \<and> wc_result call = (zero_outcome, None) \<and>
     wc_closed call = (1000, ''bye'')"
    using result
    by (simp add: sample_info_def log_def message_view_def WSMessageBinary_def
        close_of_close_frame)
  with first server client show ?thesis by blast
qed

end
