(* ===== verification/WireTypes.thy ===== *)
theory WireTypes
  imports WebSocket
begin

text \<open>
  What either side of the boundary may rely on of a value the other side sent, whatever that
  side is: the types of the values the decoders of \<^verbatim>\<open>runtimego/grpc\<close> produce. A message is only
  known to be one of its protobuf type, so its maps are maps; its enum may be any number, its
  pointers may be nil and its headers may hold nil entries.
\<close>

section \<open>Types of messages\<close>

definition pb_outcome_wt :: "PbForwardOutcome \<Rightarrow> bool" where
  "pb_outcome_wt p \<longleftrightarrow>
     (case pfo_Upstream p of None \<Rightarrow> True | Some u \<Rightarrow> gomap_ok (pu_Headers u)) \<and>
     (case pfo_Usage p of None \<Rightarrow> True | Some u \<Rightarrow> gomap_ok (pus_Metadata u)) \<and>
     gomap_ok (pfo_UpdatedCredentials p) \<and>
     (case pfo_FinalErrorDiagnostic p of
        None \<Rightarrow> True
      | Some d \<Rightarrow> list_all (\<lambda>r. gomap_ok (prd_Headers r)) (non_nil (pfd_OutboundRequests d)))"

text \<open>Milliseconds that are a duration in nanoseconds; the decoder multiplies without a check.\<close>

definition ms_fits :: "64 word \<Rightarrow> bool" where
  "ms_fits ms \<longleftrightarrow> - (2 ^ 63) \<le> sint ms * 1000000 \<and> sint ms * 1000000 < 2 ^ 63"

definition pb_times_fit :: "PbForwardOutcome \<Rightarrow> bool" where
  "pb_times_fit p \<longleftrightarrow> ms_fits (pfo_DurationMs p) \<and> ms_fits (pfo_RetryAfterMs p)"

section \<open>Types of decoded values\<close>

text \<open>A verdict of a named kind, its statuses 32-bit numbers and its maps maps.\<close>

definition outcome_wt :: "ForwardOutcome \<Rightarrow> bool" where
  "outcome_wt o' \<longleftrightarrow>
     kind_view (Kind o') = Kind o' \<and> fits_int32 (up_StatusCode (Upstream o')) \<and>
     gomap_ok (up_Headers (Upstream o')) \<and>
     (case fo_Usage o' of None \<Rightarrow> True | Some u \<Rightarrow> gomap_ok (us_Metadata u)) \<and>
     gomap_ok (UpdatedCredentials o') \<and>
     (case FinalErrorDiagnostic o' of
        None \<Rightarrow> True
      | Some d \<Rightarrow> list_all (\<lambda>r. fits_int32 (rd_StatusCode r) \<and> gomap_ok (rd_Headers r))
                    (OutboundRequests d))"

definition account_wt :: "Account \<Rightarrow> bool" where
  "account_wt a \<longleftrightarrow> gomap_ok (ac_Credentials a)"

definition request_wt :: "ForwardRequest \<Rightarrow> bool" where
  "request_wt r \<longleftrightarrow>
     account_wt (fr_Account r) \<and> gomap_ok (fr_Headers r) \<and>
     plan_view (fr_DispatchPlan r) = fr_DispatchPlan r"

definition connect_wt :: "WebSocketConnectInfo \<Rightarrow> bool" where
  "connect_wt i \<longleftrightarrow>
     gomap_ok (wi_Headers i) \<and>
     (case wi_Account i of None \<Rightarrow> True | Some a \<Rightarrow> account_wt a)"

section \<open>Lemmas: one decoder at a time\<close>

lemma kind_view_decoded [simp]: "kind_view (outcomeKindFromProto k) = outcomeKindFromProto k"
  by (simp add: outcomeKindFromProto_def kind_view_def)

lemma wire_int32_decoded [simp]: "wire_int32 (int_of_int32 y) = int_of_int32 y"
  by (rule wire_int32_simps(2)) simp

lemma gate_view_decoded [simp]: "gate_view (dispatchGateFromProto g) = dispatchGateFromProto g"
  by (simp add: dispatchGateFromProto_def gate_view_def zero_gate_def split: option.splits)

lemma plan_view_decoded [simp]: "plan_view (dispatchPlanFromProto p) = dispatchPlanFromProto p"
  by (simp add: dispatchPlanFromProto_def plan_view_def zero_plan_def split: option.splits)

lemma upstream_view_decoded [simp]: "upstream_view (upstreamFromProto u) = upstreamFromProto u"
  by (simp add: upstreamFromProto_def upstream_view_def zero_upstream_def split: option.splits)

lemma diagnostic_view_decoded [simp]:
  "diagnostic_view (finalErrorDiagnosticFromProto d) = finalErrorDiagnosticFromProto d"
  by (simp add: finalErrorDiagnosticFromProto_def diagnostic_view_def requestFromProto_def
      request_view_def split: option.splits)

lemma whole_ms_decoded: "ms_fits ms \<Longrightarrow> whole_ms (duration_of_ms ms)"
proof -
  assume fits: "ms_fits ms"
  have "duration_of_ms ms = word_of_int (sint ms * 1000000)"
    by (simp add: duration_of_ms_def)
  then have "sint (duration_of_ms ms) = sint ms * 1000000"
    using fits sint_word_of_int_64 [of "sint ms * 1000000"] by (simp add: ms_fits_def)
  then show ?thesis by (simp add: whole_ms_def)
qed

text \<open>The bound is needed: a delay of some 292 years wraps to a negative duration.\<close>

lemma duration_of_ms_wraps: "sint (duration_of_ms 9223372036855) < 0"
  by (simp add: duration_of_ms_def)

lemma usage_decoded_wt:
  "us_Metadata (usageFromProto p) = pus_Metadata p"
  by (simp add: usageFromProto_def)

lemma outcome_decoded_wt:
  assumes "pb_outcome_wt p"
  shows "outcome_wt (outcomeFromProto (Some p))"
  using assms
  by (auto simp: pb_outcome_wt_def outcome_wt_def outcomeFromProto_def upstreamFromProto_def
      zero_upstream_def fits_int32_def [of 0] usage_decoded_wt finalErrorDiagnosticFromProto_def
      requestFromProto_def list_all_iff split: option.splits)

text \<open>A decoded verdict with times in range is one that can be sent on without loss.\<close>

lemma outcome_decoded_stable:
  "pb_times_fit p \<Longrightarrow> outcome_view (outcomeFromProto (Some p)) = outcomeFromProto (Some p)"
  by (simp add: pb_times_fit_def outcome_view_def outcomeFromProto_def whole_ms_decoded)

lemma zero_outcome_wt: "outcome_wt zero_outcome" "outcome_view zero_outcome = zero_outcome"
  by (simp_all add: outcome_wt_def outcome_view_def zero_outcome_def zero_upstream_def
      kind_view_def fits_int32_def upstream_view_def diagnostic_view_def)

text \<open>A verdict whose data could not be delivered.\<close>

lemma aborted_wt:
  "outcome_wt o' \<Longrightarrow> outcome_wt (o'\<lparr>Kind := OutcomeStreamAborted, FailoverScope := s, Reason := r\<rparr>)"
  "outcome_view o' = o' \<Longrightarrow>
   outcome_view (o'\<lparr>Kind := OutcomeStreamAborted, FailoverScope := s, Reason := r\<rparr>) =
     o'\<lparr>Kind := OutcomeStreamAborted, FailoverScope := s, Reason := r\<rparr>"
proof -
  show "outcome_wt o' \<Longrightarrow>
      outcome_wt (o'\<lparr>Kind := OutcomeStreamAborted, FailoverScope := s, Reason := r\<rparr>)"
    by (simp add: outcome_wt_def kind_view_def)
  show "outcome_view o' = o' \<Longrightarrow>
      outcome_view (o'\<lparr>Kind := OutcomeStreamAborted, FailoverScope := s, Reason := r\<rparr>) =
        o'\<lparr>Kind := OutcomeStreamAborted, FailoverScope := s, Reason := r\<rparr>"
    by (cases o') (simp add: outcome_view_def kind_view_def)
qed

lemma account_decoded_wt:
  "\<forall>b c. unmarshal b = Some c \<longrightarrow> gomap_ok c \<Longrightarrow> account_wt (accountFromProto unmarshal a)"
  by (simp add: account_wt_def accountFromProto_def split: option.splits)

lemma request_decoded_wt:
  "\<forall>b c. unmarshal b = Some c \<longrightarrow> gomap_ok c \<Longrightarrow> gomap_ok (pf_Headers req) \<Longrightarrow>
   request_wt (handlerRequest unmarshal s req)"
  using account_decoded_wt [of unmarshal]
  by (simp add: request_wt_def handlerRequest_def buildAccount_def split: option.splits)
    (simp add: account_wt_def zero_account_def)

lemma connect_decoded_wt:
  "\<forall>b c. unmarshal b = Some c \<longrightarrow> gomap_ok c \<Longrightarrow>
   (case info of None \<Rightarrow> True | Some i \<Rightarrow> gomap_ok (pw_Headers i)) \<Longrightarrow>
   connect_wt (convertConnectInfo unmarshal info)"
  using account_decoded_wt [of unmarshal]
  by (auto simp: connect_wt_def convertConnectInfo_def Let_def account_wt_def zero_account_def
      split: option.split option.split_asm)

section \<open>Lemmas: the results of the host's calls\<close>

text \<open>The verdicts the host receives, in any of the three calls.\<close>

definition received ::
  "go_error + PbForwardOutcome \<Rightarrow> (go_error + ForwardChunk) list \<Rightarrow> ws_input
     \<Rightarrow> PbForwardOutcome list" where
  "received resp es fs =
     (case resp of Inl e \<Rightarrow> [] | Inr p \<Rightarrow> [p]) @
     List.map_filter (\<lambda>x. case x of Inl e \<Rightarrow> None | Inr c \<Rightarrow> ch_FinalOutcome c) es @
     List.map_filter (\<lambda>x. case x of Inl e \<Rightarrow> None | Inr f \<Rightarrow> wf_Outcome f) fs"

definition ws_outcome :: "go_error + ws_call \<Rightarrow> ForwardOutcome" where
  "ws_outcome c = (case c of Inl e \<Rightarrow> zero_outcome | Inr call \<Rightarrow> fst (wc_result call))"

text \<open>A property of verdicts that the calls keep.\<close>

locale verdict_property =
  fixes Q :: "ForwardOutcome \<Rightarrow> bool"
  assumes zero: "Q zero_outcome"
    and aborted: "Q o' \<Longrightarrow>
      Q (o'\<lparr>Kind := OutcomeStreamAborted, FailoverScope := FailoverScopeTerminal, Reason := r\<rparr>)"
begin

lemma final_of_keeps:
  "(\<And>p. ch_FinalOutcome c = Some p \<Longrightarrow> Q (outcomeFromProto (Some p))) \<Longrightarrow> Q (final_of c)"
  using zero by (auto simp: final_of_def has_final_def)

lemma recv_loop_keeps:
  "(\<And>c p. Inr c \<in> set es \<Longrightarrow> ch_FinalOutcome c = Some p \<Longrightarrow> Q (outcomeFromProto (Some p))) \<Longrightarrow>
   Q (fst (fst (recv_loop ops flush es started w)))"
proof (induction es arbitrary: started w)
  case (Cons x es)
  have rest: "Q (fst (fst (recv_loop ops flush es s v)))" for s v
    by (rule Cons.IH) (use Cons.prems in auto)
  show ?case
  proof (cases x)
    case (Inr c)
    have final: "Q (final_of c)" by (rule final_of_keeps) (use Cons.prems Inr in auto)
    then have "Q (fst (undelivered c e))" for e
      using zero aborted by (simp add: undelivered_def)
    then show ?thesis
      using final rest by (simp add: Inr Let_def split: prod.split option.split)
  qed (use zero in simp)
qed (use zero in simp)

lemma ws_loop_keeps:
  "(\<And>f p. Inr f \<in> set fs \<Longrightarrow> wf_Outcome f = Some p \<Longrightarrow> Q (outcomeFromProto (Some p))) \<Longrightarrow>
   Q (fst (fst (ws_loop wfate fs out)))"
proof (induction fs arbitrary: out)
  case (Cons x fs)
  have rest: "Q (fst (fst (ws_loop wfate fs out)))" for out
    by (rule Cons.IH) (use Cons.prems in auto)
  show ?case
  proof (cases x)
    case (Inr f)
    have "Q (result_of f)"
      using Cons.prems Inr zero by (auto simp: result_of_def split: option.split)
    then show ?thesis
      using rest zero by (simp add: Inr ws_loop.simps Let_def split: option.split)
  qed (use zero in \<open>simp add: ws_loop.simps\<close>)
qed (use zero in \<open>simp add: ws_loop.simps\<close>)

lemma calls_keep:
  assumes "\<And>p. p \<in> set (received resp es fs) \<Longrightarrow> Q (outcomeFromProto (Some p))"
  shows "Q (fst (client_Forward resp))"
    and "Q (fst (fst (forwardStream ops flush (Inr es) w)))"
    and "Q (ws_outcome (client_HandleWebSocket marshal opened canceled connect_fate wfate info fs))"
proof -
  show "Q (fst (client_Forward resp))"
    using assms zero by (auto simp: client_Forward_def received_def split: sum.split)
  show "Q (fst (fst (forwardStream ops flush (Inr es) w)))"
    unfolding forwardStream_def sum.case
    by (rule recv_loop_keeps, rule assms) (force simp: received_def map_filter_def)
  have "Q (fst (fst (ws_loop wfate fs [])))"
    by (rule ws_loop_keeps, rule assms) (force simp: received_def map_filter_def)
  then show "Q (ws_outcome
      (client_HandleWebSocket marshal opened canceled connect_fate wfate info fs))"
    using zero
    by (auto simp: ws_outcome_def client_HandleWebSocket_def Let_def split: option.split prod.split)
qed

end

interpretation typed: verdict_property outcome_wt
  by unfold_locales (simp_all add: zero_outcome_wt aborted_wt)

interpretation stable: verdict_property "\<lambda>o'. outcome_view o' = o'"
  by unfold_locales (simp_all add: zero_outcome_wt aborted_wt)

section \<open>Properties\<close>

text \<open>
  C8: The boundary is typed on both sides, whatever the other process sends. A verdict the host
  returns from Forward, from a streamed Forward or from a WebSocket call, and with or without an
  error, is of a kind the SDK names, its statuses are 32-bit numbers and its header, usage and
  credential maps have no key twice, even if messages are missing, nil, out of order or carry
  enum numbers nobody declared; if the times of the messages fit a duration, the verdict can be
  sent on without any loss. A request or a WebSocket connection a plugin is given has such maps
  too and a rule plan that is one the wire carries unchanged.
\<close>

theorem boundary_is_typed:
  assumes "list_all pb_outcome_wt (received resp es fs)"
    and "list_all gomap_ok (map pf_Headers reqs @ map pw_Headers infos)"
    and "\<And>b c. unmarshal b = Some c \<Longrightarrow> gomap_ok c"
  shows "list_all (\<lambda>o'. outcome_wt o' \<and>
             (if list_all pb_times_fit (received resp es fs) then outcome_view o' = o' else True))
           [fst (client_Forward resp), fst (fst (forwardStream ops flush (Inr es) w)),
            ws_outcome
              (client_HandleWebSocket marshal opened canceled connect_fate wfate info fs)] \<and>
         list_all (\<lambda>r. request_wt (handlerRequest unmarshal s r)) reqs \<and>
         list_all (\<lambda>i. connect_wt (convertConnectInfo unmarshal (Some i))) infos"
proof -
  have wt: "outcome_wt (outcomeFromProto (Some p))" if "p \<in> set (received resp es fs)" for p
    using assms(1) that by (simp add: list_all_iff outcome_decoded_wt)
  have view: "outcome_view (outcomeFromProto (Some p)) = outcomeFromProto (Some p)"
    if "list_all pb_times_fit (received resp es fs)" "p \<in> set (received resp es fs)" for p
    using that by (simp add: list_all_iff outcome_decoded_stable)
  have ins: "list_all (\<lambda>r. request_wt (handlerRequest unmarshal s r)) reqs"
    "list_all (\<lambda>i. connect_wt (convertConnectInfo unmarshal (Some i))) infos"
    using assms(2,3) by (simp_all add: list_all_iff request_decoded_wt connect_decoded_wt)
  note typed = typed.calls_keep [of resp es fs, OF wt]
  show ?thesis
  proof (cases "list_all pb_times_fit (received resp es fs)")
    case True
    note stable = stable.calls_keep [of resp es fs, OF view [OF True]]
    show ?thesis by (simp add: ins typed stable)
  next
    case False
    then show ?thesis by (simp only: if_False if_True list.pred_inject ins typed simp_thms)
  qed
qed

text \<open>A plugin that sends an undeclared kind, a nil header entry and a nil diagnostic entry.\<close>

definition odd_message :: PbForwardOutcome where
  "odd_message =
     (outcomeToProto zero_outcome)
       \<lparr>pfo_Kind := 77, pfo_DurationMs := 5,
        pfo_Upstream := Some \<lparr>pu_StatusCode = 200, pu_Headers = [(''A'', None)], pu_Body = []\<rparr>,
        pfo_FinalErrorDiagnostic :=
          Some \<lparr>pfd_OutboundRequests = [None], pfd_UpstreamErrorBody = []\<rparr>\<rparr>"

lemma odd_message_ok: "pb_outcome_wt odd_message" "pb_times_fit odd_message"
  by (simp_all add: odd_message_def pb_outcome_wt_def pb_times_fit_def ms_fits_def gomap_ok_def
      outcomeToProto_def zero_outcome_def Milliseconds_def go_div_def)

theorem boundary_is_typed_witness:
  "outcome_view (fst (client_Forward (Inr odd_message))) = fst (client_Forward (Inr odd_message)) \<and>
   Kind (fst (client_Forward (Inr odd_message))) = OutcomeUnknown"
proof -
  have received: "received (Inr odd_message) [] [] = [odd_message]"
    by (simp add: received_def map_filter_simps)
  have "Kind (fst (client_Forward (Inr odd_message))) = OutcomeUnknown"
    by (simp add: client_Forward_def outcomeFromProto_def odd_message_def outcomeKindFromProto_def
        pb_kind_defs)
  then show ?thesis
    using boundary_is_typed [where resp = "Inr odd_message" and es = "[]" and fs = "[]"
        and reqs = "[]" and infos = "[]" and unmarshal = "\<lambda>_. None"
        and ops = "buffer_ops (\<lambda>_. [])" and flush = "\<lambda>w. w" and w = new_bufferWriter
        and marshal = "\<lambda>_. []" and opened = None and canceled = False and connect_fate = None
        and wfate = "\<lambda>_. None" and info = None and s = False]
    by (simp add: received odd_message_ok)
qed

end
