(* ===== verification/Completion.thy ===== *)
theory Completion
  imports StreamWriter
begin

text \<open>
  \<^verbatim>\<open>BeginStreamCompletion\<close> of \<^verbatim>\<open>sdkgo/stream_completion.go\<close>: it looks through the wrappers around a
  response writer for one that has the method and calls it. A wrapper may wrap anything, itself
  and a wrapper of its own included, so the walk is bounded.

  Writers are the values of any type; \<open>ifaces\<close> says which of the two methods a value has and what
  its \<^verbatim>\<open>Unwrap\<close> returns, \<open>None\<close> inside being a nil writer.
\<close>

record 'w ifaces =
  has_begin :: "'w \<Rightarrow> bool"
  unwraps :: "'w \<Rightarrow> 'w option option"

definition max_unwraps :: nat where
  "max_unwraps = 32"

text \<open>The loop: the writer whose method it calls, and the writers it unwrapped on the way.\<close>

function begin_loop ::
  "'w ifaces \<Rightarrow> nat \<Rightarrow> 'w option \<Rightarrow> 'w list \<Rightarrow> 'w option \<times> 'w list" where
  "begin_loop I depth w us =
     (case w of
        None \<Rightarrow> (None, us)
      | Some x \<Rightarrow>
          if depth < max_unwraps
          then
            (if has_begin I x then (Some x, us)
             else
               (case unwraps I x of
                  Some w' \<Rightarrow> begin_loop I (depth + 1) w' (us @ [x])
                | None \<Rightarrow> (None, us)))
          else (None, us))"
  by pat_completeness auto
termination
  by (relation "measure (\<lambda>(I, depth, w, us). max_unwraps - depth)") auto

declare begin_loop.simps [simp del]

definition BeginStreamCompletion :: "'w ifaces \<Rightarrow> 'w option \<Rightarrow> 'w option \<times> 'w list" where
  "BeginStreamCompletion I w = begin_loop I 0 w []"

section \<open>The writer inside n wrappers\<close>

text \<open>Nothing is unwrapped beyond a writer that has the method.\<close>

definition unwrap_once :: "'w ifaces \<Rightarrow> 'w \<Rightarrow> 'w option" where
  "unwrap_once I x =
     (if has_begin I x then None
      else (case unwraps I x of None \<Rightarrow> None | Some w' \<Rightarrow> w'))"

primrec wrapped :: "'w ifaces \<Rightarrow> 'w option \<Rightarrow> nat \<Rightarrow> 'w option" where
  "wrapped I w 0 = w"
| "wrapped I w (Suc n) = Option.bind (wrapped I w n) (unwrap_once I)"

definition within :: "'w ifaces \<Rightarrow> 'w option \<Rightarrow> nat \<Rightarrow> 'w list" where
  "within I w n = List.map_filter (wrapped I w) [0..<n]"

lemma wrapped_None [simp]: "wrapped I None n = None"
  by (induction n) simp_all

lemma wrapped_shift: "wrapped I w (Suc n) = wrapped I (Option.bind w (unwrap_once I)) n"
  by (induction n) simp_all

lemma map_filter_upt_shift:
  "List.map_filter f [0..<Suc n] =
     (case f 0 of None \<Rightarrow> [] | Some y \<Rightarrow> [y]) @ List.map_filter (\<lambda>k. f (Suc k)) [0..<n]"
proof -
  have shift: "List.map_filter f (map Suc [0..<n]) = List.map_filter (\<lambda>k. f (Suc k)) [0..<n]"
    by (simp add: List.map_filter_def filter_map comp_def)
  have "[0..<Suc n] = 0 # map Suc [0..<n]"
    by (simp only: map_Suc_upt upt_conv_Cons [OF zero_less_Suc])
  then show ?thesis
    by (simp only: map_filter_simps shift) (simp split: option.split)
qed

lemma within_simps:
  "within I w 0 = []" "within I None n = []"
  "within I (Some x) (Suc n) = x # within I (unwrap_once I x) n"
proof -
  show "within I w 0 = []" by (simp add: within_def map_filter_simps)
  show "within I None n = []" by (simp add: within_def List.map_filter_def)
  show "within I (Some x) (Suc n) = x # within I (unwrap_once I x) n"
    unfolding within_def map_filter_upt_shift wrapped_shift by simp
qed

lemma within_length: "length (within I w n) \<le> n"
  by (simp add: within_def List.map_filter_def)
    (rule order_trans [OF length_filter_le], simp)

text \<open>The loop visits exactly the writers within the bound, up to the one it calls.\<close>

lemma begin_loop_within:
  "begin_loop I depth w us =
     (find (has_begin I) (within I w (max_unwraps - depth)),
      us @ takeWhile (\<lambda>x. \<not> has_begin I x \<and> unwraps I x \<noteq> None)
             (within I w (max_unwraps - depth)))"
proof (induction I depth w us rule: begin_loop.induct)
  case (1 I depth w us)
  show ?case
  proof (cases w)
    case None
    then show ?thesis by (simp add: begin_loop.simps within_simps)
  next
    case (Some x)
    show ?thesis
    proof (cases "depth < max_unwraps")
      case False
      then show ?thesis
        using Some by (simp add: begin_loop.simps within_simps)
    next
      case True
      then have visits: "within I (Some x) (max_unwraps - depth) =
          x # within I (unwrap_once I x) (max_unwraps - (depth + 1))"
        using within_simps(3) [of I x "max_unwraps - (depth + 1)"]
        by (simp add: Suc_diff_Suc)
      show ?thesis
      proof (cases "has_begin I x")
        case begins: True
        then show ?thesis
          using Some True by (subst begin_loop.simps) (simp add: visits)
      next
        case False
        show ?thesis
        proof (cases "unwraps I x")
          case None
          then show ?thesis
            using Some True False
            by (subst begin_loop.simps) (simp add: visits unwrap_once_def within_simps)
        next
          case inner: (Some w')
          show ?thesis
            using "1.IH" [OF Some True False inner] Some True False inner
            by (subst begin_loop.simps) (simp add: visits unwrap_once_def)
        qed
      qed
    qed
  qed
qed

text \<open>Writer 0, which has the method, inside \<open>k\<close> wrappers.\<close>

definition nested :: "nat ifaces" where
  "nested = \<lparr>has_begin = (\<lambda>k. k = 0), unwraps = (\<lambda>k. Some (Some (k - 1)))\<rparr>"

lemma within_nested:
  "find (has_begin nested) (within nested (Some k) n) = (if k < n then Some 0 else None)"
proof (induction k arbitrary: n)
  case 0
  then show ?case by (cases n) (simp_all add: within_simps nested_def)
next
  case (Suc k)
  have "unwrap_once nested (Suc k) = Some k" "\<not> has_begin nested (Suc k)"
    by (simp_all add: unwrap_once_def nested_def)
  then show ?case
    using Suc.IH by (cases n) (simp_all add: within_simps)
qed

section \<open>Properties\<close>

text \<open>
  C36: The walk through the wrappers of a writer always ends, also when they form a cycle: it
  unwraps at most 32 writers and calls the method of the first writer that has it among the 32
  outermost ones, none when there is no such writer. So a writer inside \<open>k\<close> wrappers is reached for every \<open>k\<close> below 32.
\<close>

theorem BeginStreamCompletion_ends:
  "length (snd (BeginStreamCompletion I w)) \<le> max_unwraps \<and>
   fst (BeginStreamCompletion I w) = find (has_begin I) (within I w max_unwraps) \<and>
   fst (BeginStreamCompletion nested (Some k)) = (if k < 32 then Some 0 else None)"
proof -
  have "length (takeWhile P (within I w max_unwraps)) \<le> max_unwraps" for P
    by (rule order_trans [OF length_takeWhile_le within_length])
  then show ?thesis
    by (simp add: BeginStreamCompletion_def begin_loop_within within_nested)
      (simp add: max_unwraps_def)
qed

end
