(* ===== verification/Strconv.thy ===== *)
theory Strconv
  imports Prelude
begin

text \<open>
  The parts of Go's packages strconv, strings and path that the development server, the router
  and the runtime state use: decimal numerals, substring search, splitting at a separator, and
  \<^verbatim>\<open>path.Clean\<close>.
\<close>

section \<open>Decimal numerals\<close>

definition digit_char :: "nat \<Rightarrow> char" where
  "digit_char d = char_of (48 + d)"

fun decimal :: "nat \<Rightarrow> string" where
  "decimal n = (if n < 10 then [digit_char n] else decimal (n div 10) @ [digit_char (n mod 10)])"

declare decimal.simps [simp del]

definition is_digit :: "char \<Rightarrow> bool" where
  "is_digit c \<longleftrightarrow> 48 \<le> (of_char c :: nat) \<and> (of_char c :: nat) \<le> 57"

definition digit_value :: "char \<Rightarrow> nat" where
  "digit_value c = (of_char c :: nat) - 48"

definition number_of_digits :: "string \<Rightarrow> nat" where
  "number_of_digits s = fold (\<lambda>c n. 10 * n + digit_value c) s 0"

text \<open>\<^verbatim>\<open>strconv.FormatUint(n, 10)\<close>, \<^verbatim>\<open>FormatInt\<close>.\<close>

definition FormatInt :: "go_int \<Rightarrow> string" where
  "FormatInt x =
     (if sint x < 0 then ''-'' @ decimal (nat (- sint x)) else decimal (nat (sint x)))"

definition FormatUint :: "64 word \<Rightarrow> string" where
  "FormatUint x = decimal (unat x)"

text \<open>
  \<^verbatim>\<open>strconv.ParseUint(s, 10, 64)\<close>: \<open>None\<close> is an error. The value returned with an error is 0 for a
  syntax error and the largest number for a range error.
\<close>

definition ParseUint :: "string \<Rightarrow> 64 word option" where
  "ParseUint s =
     (if s = [] \<or> \<not> list_all is_digit s \<or> number_of_digits s \<ge> 2 ^ 64 then None
      else Some (of_nat (number_of_digits s)))"

text \<open>
  \<^verbatim>\<open>strconv.ParseInt(s, 10, 64)\<close>: the value and whether there was an error. A syntax error gives
  0, a number out of range the nearest bound.
\<close>

definition ParseInt :: "string \<Rightarrow> go_int \<times> bool" where
  "ParseInt s =
     (let (neg, ds) =
            (case s of
               c # cs \<Rightarrow> if c = CHR ''-'' then (True, cs) else if c = CHR ''+'' then (False, cs)
                         else (False, s)
             | [] \<Rightarrow> (False, s))
      in
      if ds = [] \<or> \<not> list_all is_digit ds then (0, True)
      else
        (let n = int (number_of_digits ds) in
         if \<not> neg \<and> n \<ge> 2 ^ 63 then (word_of_int (2 ^ 63 - 1), True)
         else if neg \<and> n > 2 ^ 63 then (word_of_int (- (2 ^ 63)), True)
         else (word_of_int (if neg then - n else n), False)))"

lemma of_char_digit_char: "d < 10 \<Longrightarrow> (of_char (digit_char d) :: nat) = 48 + d"
  by (simp add: digit_char_def of_char_of)

lemma digit_char_simps [simp]:
  "d < 10 \<Longrightarrow> is_digit (digit_char d)" "d < 10 \<Longrightarrow> digit_value (digit_char d) = d"
  by (simp_all add: is_digit_def digit_value_def of_char_digit_char)

lemma decimal_digits: "decimal n \<noteq> [] \<and> list_all is_digit (decimal n)"
proof (induction n rule: decimal.induct)
  case (1 n)
  then show ?case by (simp add: decimal.simps [of n])
qed

lemma number_of_decimal [simp]: "number_of_digits (decimal n) = n"
proof (induction n rule: decimal.induct)
  case (1 n)
  show ?case
  proof (cases "n < 10")
    case True
    then show ?thesis by (simp add: decimal.simps [of n] number_of_digits_def)
  next
    case False
    then show ?thesis
      using 1 by (simp add: decimal.simps [of n] number_of_digits_def)
  qed
qed

lemma decimal_inject [simp]: "decimal m = decimal n \<longleftrightarrow> m = n"
  by (metis number_of_decimal)

lemma ParseUint_FormatUint [simp]: "ParseUint (FormatUint x) = Some x"
proof -
  have "unat x < 2 ^ 64"
    using unsigned_less [of x, where ?'a = nat] by simp
  then show ?thesis
    using decimal_digits [of "unat x"] by (simp add: ParseUint_def FormatUint_def)
qed

lemma FormatUint_inject [simp]: "FormatUint x = FormatUint y \<longleftrightarrow> x = y"
  by (simp add: FormatUint_def unsigned_word_eqI word_unat_eq_iff)

lemma decimal_hd: "\<exists>c cs. decimal n = c # cs \<and> is_digit c"
  using decimal_digits [of n] by (cases "decimal n") auto

lemma ParseInt_FormatInt [simp]: "ParseInt (FormatInt x) = (x, False)"
proof (cases "sint x < 0")
  case True
  then have "int (nat (- sint x)) = - sint x" by simp
  then show ?thesis
    using True decimal_digits [of "nat (- sint x)"] sint_64_range [of x]
    by (simp add: FormatInt_def ParseInt_def)
next
  case False
  obtain c cs where c: "decimal (nat (sint x)) = c # cs" "is_digit c"
    using decimal_hd by blast
  have "c \<noteq> CHR ''-''" "c \<noteq> CHR ''+''"
    using c(2) by (auto simp: is_digit_def)
  moreover have "number_of_digits (c # cs) = nat (sint x)" "list_all is_digit (c # cs)"
    using c(1) number_of_decimal [of "nat (sint x)"] decimal_digits [of "nat (sint x)"] by auto
  ultimately show ?thesis
    using False c sint_64_range [of x] by (simp add: FormatInt_def ParseInt_def)
qed

section \<open>Substrings\<close>

text \<open>\<^verbatim>\<open>strings.Contains\<close>.\<close>

definition Contains :: "string \<Rightarrow> string \<Rightarrow> bool" where
  "Contains s p \<longleftrightarrow> list_ex (\<lambda>t. prefix p t) (suffixes s)"

text \<open>\<^verbatim>\<open>strings.Split(s, sep)\<close> for a separator of one byte.\<close>

fun split_at :: "char \<Rightarrow> string \<Rightarrow> string list" where
  "split_at c [] = [[]]"
| "split_at c (x # xs) =
     (if x = c then [] # split_at c xs
      else (case split_at c xs of [] \<Rightarrow> [[x]] | p # ps \<Rightarrow> (x # p) # ps))"

definition join_with :: "char \<Rightarrow> string list \<Rightarrow> string" where
  "join_with c ps = concat (map (\<lambda>p. c # p) ps)"

section \<open>path.Clean\<close>

text \<open>
  \<^verbatim>\<open>path.Clean\<close> of a rooted path: empty and \<^verbatim>\<open>.\<close> elements go away, \<^verbatim>\<open>..\<close> takes the element before
  it with it and goes away at the root. The paths the code cleans start with a slash.
\<close>

fun clean_elements :: "string list \<Rightarrow> string list \<Rightarrow> string list" where
  "clean_elements acc [] = rev acc"
| "clean_elements acc (p # ps) =
     (if p = [] \<or> p = ''.'' then clean_elements acc ps
      else if p = ''..'' then clean_elements (tl acc) ps
      else clean_elements (p # acc) ps)"

definition path_Clean :: "string \<Rightarrow> string" where
  "path_Clean s =
     (let es = clean_elements [] (split_at (CHR ''/'') s)
      in if es = [] then ''/'' else join_with (CHR ''/'') es)"

definition plain_element :: "string \<Rightarrow> bool" where
  "plain_element p \<longleftrightarrow> p \<noteq> [] \<and> p \<noteq> ''.'' \<and> p \<noteq> ''..''"

lemma clean_elements_plain:
  "list_all plain_element acc \<Longrightarrow> list_all plain_element (clean_elements acc ps)"
proof (induction acc ps rule: clean_elements.induct)
  case (2 acc p ps)
  moreover have "list_all plain_element (tl acc)"
    using "2.prems" by (cases acc) simp_all
  ultimately show ?case by (auto simp: plain_element_def [abs_def])
qed (simp add: list_all_iff)

lemma clean_elements_id: "list_all plain_element ps \<Longrightarrow> clean_elements acc ps = rev acc @ ps"
  by (induction ps arbitrary: acc) (auto simp: plain_element_def)

lemma split_at_pieces: "p \<in> set (split_at c s) \<Longrightarrow> c \<notin> set p"
  by (induction c s arbitrary: p rule: split_at.induct) (auto split: list.splits if_splits)

lemma clean_elements_set: "set (clean_elements acc ps) \<subseteq> set acc \<union> set ps"
proof (induction acc ps rule: clean_elements.induct)
  case (2 acc p ps)
  then show ?case by (cases acc) auto
qed simp

lemma split_at_nonempty: "split_at c s \<noteq> []"
  by (induction c s rule: split_at.induct) (auto split: list.splits)

lemma split_at_append: "c \<notin> set p \<Longrightarrow> split_at c (p @ c # s) = p # split_at c s"
  by (induction p) auto

lemma split_at_single: "c \<notin> set p \<Longrightarrow> split_at c p = [p]"
  by (induction p) auto

lemma split_join:
  "\<forall>p \<in> set ps. c \<notin> set p \<Longrightarrow> split_at c (join_with c ps) = [] # ps \<or> ps = []"
proof (induction ps)
  case (Cons p ps)
  show ?case
  proof (cases ps)
    case Nil
    then show ?thesis using Cons.prems by (simp add: join_with_def split_at_single)
  next
    case (Cons q qs)
    then have "split_at c (join_with c ps) = [] # ps"
      using Cons.IH Cons.prems by simp
    then have "split_at c (q @ concat (map (\<lambda>p. c # p) qs)) = ps"
      using Cons by (simp add: join_with_def)
    then show ?thesis
      using Cons Cons.prems by (simp add: join_with_def split_at_append)
  qed
qed simp

text \<open>Cleaning is idempotent.\<close>

lemma path_Clean_idem: "path_Clean (path_Clean s) = path_Clean s"
proof -
  define es where "es = clean_elements [] (split_at (CHR ''/'') s)"
  have plain: "list_all plain_element es"
    by (simp add: es_def clean_elements_plain)
  have pieces: "\<forall>p \<in> set es. CHR ''/'' \<notin> set p"
    using clean_elements_set [of "[]" "split_at (CHR ''/'') s"] split_at_pieces
    by (auto simp: es_def)
  show ?thesis
  proof (cases "es = []")
    case True
    then show ?thesis by (simp add: path_Clean_def es_def [symmetric] Let_def)
  next
    case False
    then have "split_at (CHR ''/'') (join_with (CHR ''/'') es) = [] # es"
      using split_join [OF pieces] by simp
    then have "clean_elements [] (split_at (CHR ''/'') (join_with (CHR ''/'') es)) = es"
      using clean_elements_id [OF plain, of "[]"] by simp
    then show ?thesis
      using False by (simp add: path_Clean_def es_def [symmetric] Let_def)
  qed
qed

end
