(* ===== verification/RuntimeState.thy ===== *)
theory RuntimeState
  imports Strconv
begin

text \<open>
  Runtime state: the client of \<^verbatim>\<open>sdkgo/runtime_state.go\<close>, the Host interface of \<^verbatim>\<open>sdkgo/host.go\<close> it
  is written against, and the provider of \<^verbatim>\<open>devkit/testhost/state.go\<close>.

  The client's operations are functions of a Host, a function that answers one request and passes
  its state on. What a provider promises is the locale \<open>state_provider\<close>; the clients of one key are
  related to it there, with the requests of other clients interleaved before every call, and the
  test host interprets it. A Go panic is the error value \<open>panic\<close>, which callers pass on as they do
  any other error.
\<close>

section \<open>The Host interface\<close>

text \<open>\<^verbatim>\<open>interface{}\<close>: the dynamic types the code produces or inspects; \<open>IOther\<close> is any other.\<close>

datatype iface =
    INil
  | IString string
  | IBool bool
  | IStrings "string list"
  | IStringMap "(string, string) gomap"
  | IMap "(string \<times> iface) list"
  | IOther string

record HostInvokeRequest =
  hr_Method :: string
  hr_Payload :: "(string, iface) gomap"
  hr_IdempotencyKey :: string
  hr_Metadata :: metadata

record HostInvokeResponse =
  hs_Status :: string
  hs_Payload :: "(string, iface) gomap"
  hs_Metadata :: metadata

text \<open>A response is a pointer: \<open>None\<close> is nil.\<close>

type_synonym host_result = "go_error + HostInvokeResponse option"
type_synonym 'h host = "HostInvokeRequest \<Rightarrow> 'h \<Rightarrow> host_result \<times> 'h"

definition go_panic :: "string \<Rightarrow> go_error" where "go_panic s = ErrWrap ''panic'' (ErrMsg s)"

text \<open>\<^verbatim>\<open>v, _ := payload[k].(string)\<close> and \<^verbatim>\<open>.(bool)\<close>: the zero value when absent or of another type.\<close>

fun assert_string :: "iface option \<Rightarrow> string" where
  "assert_string (Some (IString s)) = s"
| "assert_string _ = []"

fun assert_bool :: "iface option \<Rightarrow> bool" where
  "assert_bool (Some (IBool b)) = b"
| "assert_bool _ = False"

section \<open>The client\<close>

definition RuntimeStateMethod :: string where "RuntimeStateMethod = ''runtime.state''"

definition state_request :: "(string, iface) gomap \<Rightarrow> HostInvokeRequest" where
  "state_request payload =
     \<lparr>hr_Method = RuntimeStateMethod, hr_Payload = payload, hr_IdempotencyKey = [],
      hr_Metadata = []\<rparr>"

definition take_request :: "string \<Rightarrow> HostInvokeRequest" where
  "take_request key = state_request [(''action'', IString ''take''), (''key'', IString key)]"

definition get_request :: "string \<Rightarrow> HostInvokeRequest" where
  "get_request key = state_request [(''action'', IString ''get''), (''key'', IString key)]"

definition get_many_request :: "string list \<Rightarrow> HostInvokeRequest" where
  "get_many_request keys = state_request [(''action'', IString ''get_many''), (''keys'', IStrings keys)]"

definition cas_request :: "string \<Rightarrow> string \<Rightarrow> string \<Rightarrow> HostInvokeRequest" where
  "cas_request key version v =
     state_request [(''action'', IString ''cas''), (''key'', IString key),
       (''version'', IString version), (''value'', IString v)]"

definition delete_request :: "string \<Rightarrow> string \<Rightarrow> HostInvokeRequest" where
  "delete_request key version =
     state_request [(''action'', IString ''delete''), (''key'', IString key),
       (''version'', IString version)]"

text \<open>The call of \<^verbatim>\<open>s.Host.Invoke\<close> with its two error checks, which every operation has.\<close>

definition call_host :: "'h host \<Rightarrow> HostInvokeRequest \<Rightarrow> 'h \<Rightarrow> (go_error + HostInvokeResponse) \<times> 'h" where
  "call_host host r h =
     (case host r h of
        (Inl e, h) \<Rightarrow> (Inl e, h)
      | (Inr None, h) \<Rightarrow> (Inl (ErrMsg ''empty runtime state response''), h)
      | (Inr (Some resp), h) \<Rightarrow> (Inr resp, h))"

text \<open>
  A nil Host is \<open>None\<close>: \<^verbatim>\<open>Get\<close> checks for it, the other operations call it and panic.
\<close>

definition nil_host :: go_error where
  "nil_host = go_panic ''invalid memory address or nil pointer dereference''"

definition rs_Take :: "'h host option \<Rightarrow> string \<Rightarrow> 'h \<Rightarrow> (go_error + string \<times> bool) \<times> 'h" where
  "rs_Take H key h =
     (case H of
        None \<Rightarrow> (Inl nil_host, h)
      | Some host \<Rightarrow>
          (case call_host host (take_request key) h of
             (Inl e, h) \<Rightarrow> (Inl e, h)
           | (Inr r, h) \<Rightarrow>
               (Inr (assert_string (map_of (hs_Payload r) ''value''),
                     assert_bool (map_of (hs_Payload r) ''found'')), h)))"

definition rs_Get :: "'h host option \<Rightarrow> string \<Rightarrow> 'h \<Rightarrow> (go_error + string \<times> string \<times> bool) \<times> 'h" where
  "rs_Get H key h =
     (case H of
        None \<Rightarrow> (Inl (ErrMsg ''runtime state Host unavailable''), h)
      | Some host \<Rightarrow>
          (case call_host host (get_request key) h of
             (Inl e, h) \<Rightarrow> (Inl e, h)
           | (Inr r, h) \<Rightarrow>
               (let v = assert_string (map_of (hs_Payload r) ''value'');
                    version = assert_string (map_of (hs_Payload r) ''version'');
                    found = assert_bool (map_of (hs_Payload r) ''found'')
                in
                if version = [] then (Inl (ErrMsg ''invalid runtime state version''), h)
                else (Inr (v, version, found), h))))"

fun string_entries :: "(string \<times> iface) list \<Rightarrow> (string, string) gomap" where
  "string_entries [] = []"
| "string_entries ((k, IString v) # raw) = (k, v) # string_entries raw"
| "string_entries (_ # raw) = string_entries raw"

definition rs_GetMany ::
  "'h host option \<Rightarrow> string list \<Rightarrow> 'h \<Rightarrow> (go_error + (string, string) gomap) \<times> 'h" where
  "rs_GetMany H keys h =
     (case H of
        None \<Rightarrow> (Inl nil_host, h)
      | Some host \<Rightarrow>
          (case call_host host (get_many_request keys) h of
             (Inl e, h) \<Rightarrow> (Inl e, h)
           | (Inr r, h) \<Rightarrow>
               (case map_of (hs_Payload r) ''values'' of
                  Some (IMap raw) \<Rightarrow> (Inr (string_entries raw), h)
                | Some (IStringMap raw) \<Rightarrow> (Inr raw, h)
                | _ \<Rightarrow> (Inl (ErrMsg ''invalid runtime state values''), h))))"

definition rs_CompareAndSwap ::
  "'h host option \<Rightarrow> string \<Rightarrow> string \<Rightarrow> string \<Rightarrow> 'h \<Rightarrow> (go_error + bool) \<times> 'h" where
  "rs_CompareAndSwap H key version v h =
     (case H of
        None \<Rightarrow> (Inl nil_host, h)
      | Some host \<Rightarrow>
          (case call_host host (cas_request key version v) h of
             (Inl e, h) \<Rightarrow> (Inl e, h)
           | (Inr r, h) \<Rightarrow> (Inr (assert_bool (map_of (hs_Payload r) ''swapped'')), h)))"

text \<open>
  \<open>update_loop H waiting upd key n attempt\<close>: \<open>n\<close> attempts are left, \<open>attempt\<close> is the loop's counter.
  \<open>waiting attempt\<close> is the \<^verbatim>\<open>select\<close> between the timer and \<^verbatim>\<open>ctx.Done()\<close>: \<open>Some\<close> error when the
  context ended first.
\<close>

definition updateAttempts :: nat where "updateAttempts = 16"

primrec update_loop ::
  "'h host option \<Rightarrow> (nat \<Rightarrow> go_error option) \<Rightarrow> (string \<Rightarrow> go_error + string) \<Rightarrow> string \<Rightarrow> nat \<Rightarrow>
   nat \<Rightarrow> 'h \<Rightarrow> (go_error + string) \<times> 'h" where
  "update_loop H waiting upd key 0 attempt h =
     (Inl (ErrMsg ''runtime state update contention''), h)"
| "update_loop H waiting upd key (Suc n) attempt h =
     (case rs_Get H key h of
        (Inl e, h) \<Rightarrow> (Inl e, h)
      | (Inr (old, version, _), h) \<Rightarrow>
          (case upd old of
             Inl e \<Rightarrow> (Inl e, h)
           | Inr v \<Rightarrow>
               (case rs_CompareAndSwap H key version v h of
                  (Inl e, h) \<Rightarrow> (Inl e, h)
                | (Inr ok, h) \<Rightarrow>
                    if ok then (Inr v, h)
                    else
                      (case waiting attempt of
                         Some e \<Rightarrow> (Inl e, h)
                       | None \<Rightarrow> update_loop H waiting upd key n (Suc attempt) h))))"

definition rs_Update ::
  "'h host option \<Rightarrow> (nat \<Rightarrow> go_error option) \<Rightarrow> (string \<Rightarrow> go_error + string) \<Rightarrow> string \<Rightarrow> 'h \<Rightarrow>
   (go_error + string) \<times> 'h" where
  "rs_Update H waiting upd key h = update_loop H waiting upd key updateAttempts 0 h"

definition rs_Delete :: "'h host option \<Rightarrow> string \<Rightarrow> 'h \<Rightarrow> go_error option \<times> 'h" where
  "rs_Delete H key h =
     (case rs_Get H key h of
        (Inl e, h) \<Rightarrow> (Some e, h)
      | (Inr (_, version, found), h) \<Rightarrow>
          if \<not> found then (None, h)
          else
            (case H of
               None \<Rightarrow> (Some nil_host, h)
             | Some host \<Rightarrow>
                 (case host (delete_request key version) h of
                    (Inl e, h) \<Rightarrow> (Some e, h)
                  | (Inr _, h) \<Rightarrow> (None, h))))"

text \<open>
  \<^verbatim>\<open>json.Marshal\<close> and \<^verbatim>\<open>json.Unmarshal\<close> at the type of the value: \<open>decode\<close> also returns the target,
  which may change before an error.
\<close>

definition rs_Store ::
  "'h host option \<Rightarrow> (nat \<Rightarrow> go_error option) \<Rightarrow> ('v \<Rightarrow> go_error + string) \<Rightarrow> string \<Rightarrow> 'v \<Rightarrow> 'h \<Rightarrow>
   go_error option \<times> 'h" where
  "rs_Store H waiting encode key v h =
     (case encode v of
        Inl e \<Rightarrow> (Some e, h)
      | Inr data \<Rightarrow>
          (case rs_Update H waiting (\<lambda>_. Inr data) key h of
             (Inl e, h) \<Rightarrow> (Some e, h)
           | (Inr _, h) \<Rightarrow> (None, h)))"

definition rs_Load ::
  "'h host option \<Rightarrow> (string \<Rightarrow> 'v \<Rightarrow> go_error option \<times> 'v) \<Rightarrow> string \<Rightarrow> 'v \<Rightarrow> 'h \<Rightarrow>
   ((go_error + bool) \<times> 'v) \<times> 'h" where
  "rs_Load H decode key target h =
     (case rs_Get H key h of
        (Inl e, h) \<Rightarrow> ((Inl e, target), h)
      | (Inr (raw, _, found), h) \<Rightarrow>
          if \<not> found then ((Inr False, target), h)
          else
            (case decode raw target of
               (Some e, t) \<Rightarrow> ((Inl e, t), h)
             | (None, t) \<Rightarrow> ((Inr True, t), h)))"

section \<open>The test host\<close>

text \<open>
  The fields of \<^verbatim>\<open>State\<close> behind its mutex; \<^verbatim>\<open>Invoke\<close> holds the mutex from start to end. A nil map
  reads as the empty one and is made before the first write, so \<open>[]\<close> stands for both.
\<close>

record State =
  st_values :: "(string, string) gomap"
  st_versions :: "(string, string) gomap"
  st_sequence :: "64 word"

definition zero_State :: State where
  "zero_State = \<lparr>st_values = [], st_versions = [], st_sequence = 0\<rparr>"

definition map_index :: "('k, string) gomap \<Rightarrow> 'k \<Rightarrow> string" where
  "map_index m k = (case map_of m k of None \<Rightarrow> [] | Some v \<Rightarrow> v)"

definition state_forget :: "string \<Rightarrow> State \<Rightarrow> State" where
  "state_forget key s =
     s\<lparr>st_values := AList.delete key (st_values s), st_versions := AList.delete key (st_versions s)\<rparr>"

definition state_swap :: "string \<Rightarrow> string \<Rightarrow> State \<Rightarrow> State" where
  "state_swap key v s =
     (let n = st_sequence s + 1 in
      s\<lparr>st_sequence := n, st_values := AList.update key v (st_values s),
        st_versions := AList.update key (FormatUint n) (st_versions s)\<rparr>)"

fun pick_values :: "(string, string) gomap \<Rightarrow> string list \<Rightarrow> (string, string) gomap \<Rightarrow>
    (string, string) gomap" where
  "pick_values m [] acc = acc"
| "pick_values m (k # ks) acc =
     (case map_of m k of
        None \<Rightarrow> pick_values m ks acc
      | Some v \<Rightarrow> pick_values m ks (AList.update k v acc))"

definition ok_response :: "(string, iface) gomap \<Rightarrow> host_result" where
  "ok_response out = Inr (Some \<lparr>hs_Status = ''ok'', hs_Payload = out, hs_Metadata = []\<rparr>)"

definition State_InvokeStream :: "go_error + unit" where
  "State_InvokeStream = Inl (ErrMsg ''fixture does not support streams'')"

text \<open>\<open>ctx_err\<close> is \<^verbatim>\<open>ctx.Err()\<close> when the call starts.\<close>

definition State_Invoke :: "go_error option \<Rightarrow> State host" where
  "State_Invoke ctx_err r s =
     (case ctx_err of
        Some e \<Rightarrow> (Inl e, s)
      | None \<Rightarrow>
          if hr_Method r \<noteq> RuntimeStateMethod then (Inl (ErrMsg ''unsupported fixture method''), s)
          else
            (let payload = map_of (hr_Payload r);
                 key = assert_string (payload ''key'');
                 action = assert_string (payload ''action'');
                 v = map_index (st_values s) key;
                 found = (map_of (st_values s) key \<noteq> None);
                 version = (if map_index (st_versions s) key = [] then ''0''
                            else map_index (st_versions s) key)
             in
             if action = ''get'' \<or> action = ''take'' then
               (ok_response [(''found'', IBool found), (''value'', IString v),
                             (''version'', IString version)],
                if action = ''take'' then state_forget key s else s)
             else if action = ''cas'' then
               (if payload ''version'' \<noteq> Some (IString version)
                then (ok_response [(''swapped'', IBool False)], s)
                else
                  (let s = state_swap key (assert_string (payload ''value'')) s in
                   (ok_response [(''swapped'', IBool True),
                                 (''version'', IString (map_index (st_versions s) key))], s)))
             else if action = ''delete'' then
               (ok_response [],
                if payload ''version'' = Some (IString version) then state_forget key s else s)
             else if action = ''get_many'' then
               (case payload ''keys'' of
                  Some (IStrings keys) \<Rightarrow>
                    (ok_response [(''values'', IStringMap (pick_values (st_values s) keys []))], s)
                | _ \<Rightarrow> (Inl (go_panic ''interface conversion''), s))
             else (Inl (ErrMsg ''unsupported fixture action''), s)))"

section \<open>Several clients\<close>

text \<open>
  A run of one client among others. Before each of its calls the others' requests since its last
  call are served: turn \<open>i\<close> is the list of them and the client's \<^verbatim>\<open>ctx.Err()\<close> at its call \<open>i\<close>. The
  state of the run is the provider's state and the number of the next call.
\<close>

type_synonym turns = "nat \<Rightarrow> HostInvokeRequest list \<times> go_error option"

definition serve :: "(go_error option \<Rightarrow> 's host) \<Rightarrow> HostInvokeRequest list \<Rightarrow> 's \<Rightarrow> 's" where
  "serve invoke rs s = fold (\<lambda>r s. snd (invoke None r s)) rs s"

definition shared :: "(go_error option \<Rightarrow> 's host) \<Rightarrow> turns \<Rightarrow> ('s \<times> nat) host" where
  "shared invoke turns r h =
     (let (rs, ctx_err) = turns (snd h);
          (res, s) = invoke ctx_err r (serve invoke rs (fst h))
      in (res, s, Suc (snd h)))"

text \<open>The others' requests before the calls \<open>i\<close> to \<open>j - 1\<close>, and all requests up to then.\<close>

definition others :: "turns \<Rightarrow> nat \<Rightarrow> nat \<Rightarrow> HostInvokeRequest list" where
  "others turns i j = concat (map (\<lambda>m. fst (turns m)) [i..<j])"

definition traffic :: "turns \<Rightarrow> nat \<Rightarrow> nat \<Rightarrow> nat" where
  "traffic turns i j = length (others turns i j) + (j - i)"

lemma serve_simps [simp]:
  "serve invoke [] s = s"
  "serve invoke (r # rs) s = serve invoke rs (snd (invoke None r s))"
  "serve invoke (rs @ qs) s = serve invoke qs (serve invoke rs s)"
  by (simp_all add: serve_def)

lemma others_empty [simp]: "others turns i i = []"
  by (simp add: others_def)

lemma others_first: "i < j \<Longrightarrow> others turns i j = fst (turns i) @ others turns (Suc i) j"
  by (simp add: others_def upt_conv_Cons)

lemma traffic_first:
  "i < j \<Longrightarrow> traffic turns i j = Suc (length (fst (turns i)) + traffic turns (Suc i) j)"
  by (simp add: traffic_def others_first)

text \<open>What a client sees of a key: its value and version, or nothing.\<close>

definition seen_value :: "(string \<times> string) option \<Rightarrow> string" where
  "seen_value e = (case e of None \<Rightarrow> [] | Some (v, _) \<Rightarrow> v)"

definition seen_version :: "(string \<times> string) option \<Rightarrow> string" where
  "seen_version e = (case e of None \<Rightarrow> ''0'' | Some (_, n) \<Rightarrow> n)"

text \<open>
  The contract of a provider. \<open>good n s\<close>: the state is well formed and can serve \<open>n\<close> more requests
  without using a version twice.
\<close>

locale state_provider =
  fixes invoke :: "go_error option \<Rightarrow> 's host"
    and entry :: "'s \<Rightarrow> string \<Rightarrow> (string \<times> string) option"
    and good :: "nat \<Rightarrow> 's \<Rightarrow> bool"
  assumes good_step: "good (Suc n) s \<Longrightarrow> good n (snd (invoke c r s))"
    and good_mono: "good n s \<Longrightarrow> m \<le> n \<Longrightarrow> good m s"
    and cancelled: "invoke (Some e) r s = (Inl e, s)"
    and version_set: "good n s \<Longrightarrow> seen_version (entry s k) \<noteq> []"
    and get_law: "good n s \<Longrightarrow> \<exists>resp. invoke None (get_request k) s = (Inr (Some resp), s)
      \<and> assert_string (map_of (hs_Payload resp) ''value'') = seen_value (entry s k)
      \<and> assert_string (map_of (hs_Payload resp) ''version'') = seen_version (entry s k)
      \<and> assert_bool (map_of (hs_Payload resp) ''found'') = (entry s k \<noteq> None)"
    and swap_law: "good n s \<Longrightarrow> \<exists>resp s' ver.
      invoke None (cas_request k (seen_version (entry s k)) v) s = (Inr (Some resp), s')
      \<and> assert_bool (map_of (hs_Payload resp) ''swapped'')
      \<and> entry s' = (entry s)(k \<mapsto> (v, ver))"
    and refuse_law: "good n s \<Longrightarrow> x \<noteq> seen_version (entry s k) \<Longrightarrow> \<exists>resp.
      invoke None (cas_request k x v) s = (Inr (Some resp), s)
      \<and> \<not> assert_bool (map_of (hs_Payload resp) ''swapped'')"
    and no_reuse: "good (length rs) s \<Longrightarrow>
      seen_version (entry (serve invoke rs s) k) = seen_version (entry s k) \<Longrightarrow>
      entry (serve invoke rs s) k = entry s k"
begin

lemma good_serve: "good (length rs + n) s \<Longrightarrow> good n (serve invoke rs s)"
proof (induction rs arbitrary: s)
  case (Cons r rs)
  then show ?case using good_step [of "length rs + n" s None r] by simp
qed simp

abbreviation client :: "turns \<Rightarrow> ('s \<times> nat) host option" where
  "client turns \<equiv> Some (shared invoke turns)"

lemma client_Get:
  assumes "good (length (fst (turns i)) + n) s"
  shows "rs_Get (client turns) k (s, i) =
    (let s' = serve invoke (fst (turns i)) s in
     ((case snd (turns i) of
         Some e \<Rightarrow> Inl e
       | None \<Rightarrow> Inr (seen_value (entry s' k), seen_version (entry s' k), entry s' k \<noteq> None)),
      s', Suc i))"
  using get_law [OF good_serve [OF assms], of k] version_set [OF good_serve [OF assms], of k]
  by (cases "turns i"; cases "snd (turns i)")
    (auto simp: rs_Get_def call_host_def shared_def cancelled Let_def)

lemma client_CompareAndSwap:
  assumes "good (length (fst (turns i)) + n) s"
  defines "s' \<equiv> serve invoke (fst (turns i)) s"
  shows "case snd (turns i) of
      Some e \<Rightarrow> rs_CompareAndSwap (client turns) k x v (s, i) = (Inl e, s', Suc i)
    | None \<Rightarrow>
        if x = seen_version (entry s' k)
        then \<exists>t ver. rs_CompareAndSwap (client turns) k x v (s, i) = (Inr True, t, Suc i)
          \<and> entry t = (entry s')(k \<mapsto> (v, ver))
        else rs_CompareAndSwap (client turns) k x v (s, i) = (Inr False, s', Suc i)"
  using swap_law [OF good_serve [OF assms(1)], of k v]
    refuse_law [OF good_serve [OF assms(1)], of x k v]
  by (cases "turns i"; cases "snd (turns i)")
    (auto simp: s'_def rs_CompareAndSwap_def call_host_def shared_def cancelled)

text \<open>One attempt of the update loop, with the states at its two calls.\<close>

lemma update_attempt:
  assumes good: "good (traffic turns i (i + 2 * Suc n)) s"
  defines "a \<equiv> serve invoke (fst (turns i)) s"
  defines "b \<equiv> serve invoke (fst (turns (Suc i))) a"
  assumes run: "update_loop (client turns) waiting upd k (Suc n) m (s, i) = (res, t, j)"
  shows "(\<exists>e. res = Inl e \<and> t = a \<and> j = Suc i \<and>
            (snd (turns i) \<noteq> None \<or> upd (seen_value (entry a k)) = Inl e))
    \<or> (\<exists>e. res = Inl e \<and> t = b \<and> j = Suc (Suc i) \<and>
            (snd (turns (Suc i)) \<noteq> None \<or> waiting m = Some e))
    \<or> (\<exists>v ver. res = Inr v \<and> j = Suc (Suc i) \<and> upd (seen_value (entry b k)) = Inr v
            \<and> entry t = (entry b)(k \<mapsto> (v, ver)))
    \<or> (entry b k \<noteq> entry a k \<and> good (traffic turns (Suc (Suc i)) (Suc (Suc i) + 2 * n)) b
       \<and> update_loop (client turns) waiting upd k n (Suc m) (b, Suc (Suc i)) = (res, t, j))"
proof -
  let ?rest = "traffic turns (Suc (Suc i)) (Suc (Suc i) + 2 * n)"
  have g1: "good (length (fst (turns i)) + Suc (length (fst (turns (Suc i))) + Suc ?rest)) s"
    using good by (simp add: traffic_first)
  have ga: "good (Suc (length (fst (turns (Suc i))) + Suc ?rest)) a"
    unfolding a_def by (rule good_serve) (use g1 in simp)
  have ga': "good (length (fst (turns (Suc i))) + Suc ?rest) a"
    using ga by (rule good_mono) simp
  have gb: "good ?rest b"
    unfolding b_def using good_serve [OF ga'] by (rule good_mono) simp
  have same: "entry b k = entry a k" if "seen_version (entry b k) = seen_version (entry a k)"
    using that unfolding b_def by (rule no_reuse [rotated]) (rule good_mono [OF ga'], simp)
  note get = client_Get [where turns = turns and i = i, OF g1, of k, folded a_def]
  note cas = client_CompareAndSwap [where turns = turns and i = "Suc i" and k = k and
    x = "seen_version (entry a k)", OF ga', folded b_def]
  show ?thesis
  proof (cases "snd (turns i)")
    case (Some e)
    then show ?thesis using run get by auto
  next
    case None
    note first = this
    show ?thesis
    proof (cases "upd (seen_value (entry a k))")
      case (Inl e)
      then have "res = Inl e \<and> t = a \<and> j = Suc i" using run get first by simp
      then show ?thesis using Inl by blast
    next
      case (Inr v)
      show ?thesis
      proof (cases "snd (turns (Suc i))")
        case (Some e)
        then show ?thesis using run get first Inr cas [of v] by auto
      next
        case None
        show ?thesis
        proof (cases "seen_version (entry a k) = seen_version (entry b k)")
          case True
          then obtain t' ver where
            "rs_CompareAndSwap (client turns) k (seen_version (entry a k)) v (a, Suc i)
               = (Inr True, t', Suc (Suc i))" "entry t' = (entry b)(k \<mapsto> (v, ver))"
            using cas [of v] None by auto
          moreover from this(1) have "res = Inr v \<and> t = t' \<and> j = Suc (Suc i)"
            using run get first Inr by simp
          ultimately show ?thesis using Inr same True by metis
        next
          case False
          then have
            "rs_CompareAndSwap (client turns) k (seen_version (entry a k)) v (a, Suc i)
               = (Inr False, b, Suc (Suc i))"
            using cas [of v] None by auto
          then show ?thesis
            using run get first Inr False gb by (auto split: option.splits)
        qed
      qed
    qed
  qed
qed

text \<open>
  The update is atomic: it has the effect of one assignment at its last call, or none. \<open>b\<close> is the
  state just before that assignment, made by the others' requests alone.
\<close>

lemma update_loop_atomic:
  assumes "good (traffic turns i (i + 2 * n)) s"
    and "update_loop (client turns) waiting upd k n m (s, i) = (res, t, j)"
  defines "b \<equiv> serve invoke (others turns i j) s"
  shows "i \<le> j \<and> j \<le> i + 2 * n \<and>
    (case res of
       Inl e \<Rightarrow> t = b
     | Inr v \<Rightarrow> upd (seen_value (entry b k)) = Inr v \<and> (\<exists>ver. entry t = (entry b)(k \<mapsto> (v, ver))))"
  using assms(1,2) unfolding b_def
proof (induction n arbitrary: i s m)
  case (Suc n)
  let ?b = "serve invoke (fst (turns (Suc i))) (serve invoke (fst (turns i)) s)"
  have two: "serve invoke (others turns (Suc (Suc i)) j) ?b = serve invoke (others turns i j) s"
    if "Suc (Suc i) \<le> j"
    using that by (simp add: others_first [of i] others_first [of "Suc i"])
  have one: "serve invoke (others turns i (Suc i)) s = serve invoke (fst (turns i)) s"
    by (simp add: others_first)
  from update_attempt [OF Suc.prems] show ?case
  proof (elim disjE)
    assume "entry ?b k \<noteq> entry (serve invoke (fst (turns i)) s) k
       \<and> good (traffic turns (Suc (Suc i)) (Suc (Suc i) + 2 * n)) ?b
       \<and> update_loop (client turns) waiting upd k n (Suc m) (?b, Suc (Suc i)) = (res, t, j)"
    then show ?thesis
      using Suc.IH [of "Suc (Suc i)" ?b "Suc m"] two by (cases res) auto
  qed (use one two in auto)
qed auto

text \<open>Progress: one attempt in which nobody changes the key between the two calls is enough.\<close>

lemma update_loop_progress:
  assumes "good (traffic turns i (i + 2 * n)) s"
    and calm: "\<And>j. snd (turns j) = None" "\<And>j. waiting j = None" "\<And>x e. upd x \<noteq> Inl e"
    and "a < n"
    and "entry (serve invoke (others turns i (i + 2 * a + 2)) s) k =
         entry (serve invoke (others turns i (i + 2 * a + 1)) s) k"
  shows "\<exists>v h. update_loop (client turns) waiting upd k n m (s, i) = (Inr v, h)"
  using assms(1,5,6)
proof (induction n arbitrary: i s m a)
  case (Suc n)
  obtain res t j where run: "update_loop (client turns) waiting upd k (Suc n) m (s, i) = (res, t, j)"
    by (rule prod_cases3)
  let ?a = "serve invoke (fst (turns i)) s"
  let ?b = "serve invoke (fst (turns (Suc i))) ?a"
  have two: "serve invoke (others turns i j) s = serve invoke (others turns (Suc (Suc i)) j) ?b"
    if "Suc (Suc i) \<le> j" for j
    using that by (simp add: others_first [of i] others_first [of "Suc i"])
  have one: "serve invoke (others turns i (Suc i)) s = ?a"
    by (simp add: others_first)
  have never: "waiting j \<noteq> Some e" for j e using calm(2) by simp
  consider (over) v where "res = Inr v"
    | (again) "entry ?b k \<noteq> entry ?a k"
        "good (traffic turns (Suc (Suc i)) (Suc (Suc i) + 2 * n)) ?b"
        "update_loop (client turns) waiting upd k n (Suc m) (?b, Suc (Suc i)) = (res, t, j)"
    using update_attempt [OF Suc.prems(1) run] calm(1) [of i] calm(1) [of "Suc i"] calm(3) never
    by (elim disjE exE conjE) (simp_all del: update_loop.simps)
  then show ?case
  proof cases
    case over
    then show ?thesis using run by blast
  next
    case again
    then obtain a' where a': "a = Suc a'"
      using Suc.prems(3) one two [of "Suc (Suc i)"] by (cases a) auto
    then show ?thesis
      using Suc.IH [of "Suc (Suc i)" ?b a' "Suc m"] Suc.prems(2,3) again run
        two [of "i + 2 * a + 2"] two [of "i + 2 * a + 1"]
      by (simp del: update_loop.simps split_paired_Ex)
  qed
qed simp

end

section \<open>The test host is a provider\<close>

definition state_entry :: "State \<Rightarrow> string \<Rightarrow> (string \<times> string) option" where
  "state_entry s k =
     (case map_of (st_values s) k of
        None \<Rightarrow> None
      | Some v \<Rightarrow> Some (v, map_index (st_versions s) k))"

definition issued :: "State \<Rightarrow> string \<Rightarrow> bool" where
  "issued s v \<longleftrightarrow> (\<exists>n. v = decimal n \<and> 0 < n \<and> n \<le> unat (st_sequence s))"

definition state_good :: "nat \<Rightarrow> State \<Rightarrow> bool" where
  "state_good n s \<longleftrightarrow>
     unat (st_sequence s) + n < 2 ^ 64
     \<and> dom (map_of (st_values s)) = dom (map_of (st_versions s))
     \<and> (\<forall>v \<in> ran (map_of (st_versions s)). issued s v)"

lemma zero_State_good: "n < 2 ^ 64 \<Longrightarrow> state_good n zero_State"
  by (simp add: state_good_def zero_State_def)

lemma State_Invoke_cases:
  assumes "Q s" "\<And>k. Q (state_forget k s)" "\<And>k v. Q (state_swap k v s)"
  shows "Q (snd (State_Invoke c r s))"
  unfolding State_Invoke_def Let_def
  by (simp only: assms snd_conv if_distrib [of snd] if_cancel option.case_distrib [of snd]
      iface.case_distrib [of snd] simp_thms split: option.split iface.split if_split)

lemma state_maps [simp]:
  "map_of (st_values (state_forget k s)) = (map_of (st_values s))(k := None)"
  "map_of (st_versions (state_forget k s)) = (map_of (st_versions s))(k := None)"
  "st_sequence (state_forget k s) = st_sequence s"
  "map_of (st_values (state_swap k v s)) = (map_of (st_values s))(k \<mapsto> v)"
  "map_of (st_versions (state_swap k v s)) =
     (map_of (st_versions s))(k \<mapsto> FormatUint (st_sequence s + 1))"
  "st_sequence (state_swap k v s) = st_sequence s + 1"
  by (simp_all add: state_forget_def state_swap_def Let_def AList.delete_conv' update_conv')

lemma entry_forget [simp]: "state_entry (state_forget k s) = (state_entry s)(k := None)"
  by (auto simp: state_entry_def map_index_def fun_eq_iff split: option.split)

lemma entry_swap [simp]:
  "state_entry (state_swap k v s) =
     (state_entry s)(k \<mapsto> (v, FormatUint (st_sequence s + 1)))"
  by (auto simp: state_entry_def map_index_def fun_eq_iff split: option.split)

lemma unat_sequence: "state_good (Suc n) s \<Longrightarrow> unat (st_sequence s + 1) = unat (st_sequence s) + 1"
  by (subst unat_word_ariths) (simp add: state_good_def)

lemma state_good_mono: "state_good n s \<Longrightarrow> m \<le> n \<Longrightarrow> state_good m s"
  by (simp add: state_good_def)

lemma forget_good:
  assumes "state_good n s" shows "state_good n (state_forget k s)"
proof -
  have "ran ((map_of (st_versions s))(k := None)) \<subseteq> ran (map_of (st_versions s))"
    by (auto simp: ran_def)
  then show ?thesis using assms by (auto simp: state_good_def issued_def)
qed

lemma swap_good:
  assumes "state_good (Suc n) s"
  shows "state_good n (state_swap k v s)"
proof -
  note n = unat_sequence [OF assms]
  have "ran ((map_of (st_versions s))(k \<mapsto> x)) \<subseteq> insert x (ran (map_of (st_versions s)))" for x
    by (auto simp: ran_def)
  moreover have "issued (state_swap k v s) x" if "issued s x" for x
    using that by (auto simp: issued_def n intro: le_SucI)
  moreover have "issued (state_swap k v s) (FormatUint (st_sequence s + 1))"
    by (auto simp: issued_def n FormatUint_def)
  ultimately have "\<forall>x \<in> ran (map_of (st_versions (state_swap k v s))).
      issued (state_swap k v s) x"
    using assms unfolding state_good_def state_maps by blast
  then show ?thesis
    using assms by (simp add: state_good_def n)
qed

lemma state_good_step:
  assumes "state_good (Suc n) s"
  shows "state_good n (snd (State_Invoke c r s))"
proof -
  have "state_good n s" by (rule state_good_mono [OF assms]) simp
  then show ?thesis
    using swap_good [OF assms] by (auto intro: State_Invoke_cases forget_good)
qed

text \<open>Compared with an older state \<open>s\<^sub>0\<close>, a key is as it was, gone, or of a version \<open>s\<^sub>0\<close> had not issued.\<close>

definition newer :: "State \<Rightarrow> string \<Rightarrow> State \<Rightarrow> bool" where
  "newer s0 k s \<longleftrightarrow>
     unat (st_sequence s0) \<le> unat (st_sequence s)
     \<and> (case state_entry s k of
          None \<Rightarrow> True
        | Some (v, ver) \<Rightarrow>
            state_entry s0 k = Some (v, ver) \<or> (\<exists>n > unat (st_sequence s0). ver = decimal n))"

lemma newer_step:
  assumes "state_good (Suc n) s" and "newer s0 k s"
  shows "newer s0 k (snd (State_Invoke c r s))"
proof (rule State_Invoke_cases)
  show "newer s0 k (state_forget k' s)" for k'
    using assms(2) by (auto simp: newer_def)
  show "newer s0 k (state_swap k' v s)" for k' v
    using assms(2) unat_sequence [OF assms(1)]
    by (fastforce simp: newer_def FormatUint_def split: option.splits)
qed (fact assms(2))

lemma newer_serve:
  assumes "state_good (length rs) s" and "newer s0 k s"
  shows "newer s0 k (serve State_Invoke rs s)"
  using assms
proof (induction rs arbitrary: s)
  case (Cons r rs)
  then show ?case
    using state_good_step [of "length rs" s None r] newer_step [of "length rs" s s0 k None r] by simp
qed simp

lemma entry_version:
  assumes "state_good n s" and "state_entry s k = Some (v, ver)"
  shows "\<exists>m. ver = decimal m \<and> 0 < m \<and> m \<le> unat (st_sequence s)"
proof -
  obtain x where "map_of (st_versions s) k = Some x"
    using assms by (fastforce simp: state_good_def state_entry_def split: option.splits)
  then have "ver = x" "x \<in> ran (map_of (st_versions s))"
    using assms(2) by (auto simp: state_entry_def map_index_def ran_def split: option.splits)
  then show ?thesis using assms(1) by (auto simp: state_good_def issued_def)
qed

lemma decimal_0: "decimal 0 = ''0''"
  by (simp add: decimal.simps [of 0] digit_char_def char_of_def bit_simps)

lemma no_version_reuse:
  assumes "state_good (length rs) s"
    and "seen_version (state_entry (serve State_Invoke rs s) k) = seen_version (state_entry s k)"
  shows "state_entry (serve State_Invoke rs s) k = state_entry s k"
proof -
  let ?t = "serve State_Invoke rs s"
  have "newer s k s" by (simp add: newer_def split: option.split)
  then have new: "newer s k ?t" by (rule newer_serve [OF assms(1)])
  show ?thesis
  proof (cases "state_entry ?t k")
    case None
    then have "seen_version (state_entry s k) = decimal 0"
      using assms(2) by (simp add: seen_version_def decimal_0)
    then show ?thesis
      using None entry_version [OF assms(1), of k]
      by (cases "state_entry s k") (auto simp: seen_version_def)
  next
    case (Some e)
    obtain v ver where e: "e = (v, ver)" by (cases e)
    have "\<not> (\<exists>n > unat (st_sequence s). ver = decimal n)"
      using assms(2) Some e entry_version [OF assms(1), of k]
      by (cases "state_entry s k") (force simp: seen_version_def decimal_0 [symmetric])+
    then show ?thesis using new Some e by (auto simp: newer_def)
  qed
qed

lemma invoke_get:
  "State_Invoke None (get_request k) s =
     (ok_response [(''found'', IBool (state_entry s k \<noteq> None)),
                   (''value'', IString (seen_value (state_entry s k))),
                   (''version'', IString (if map_index (st_versions s) k = [] then ''0''
                                          else map_index (st_versions s) k))], s)"
  by (simp add: State_Invoke_def get_request_def state_request_def Let_def state_entry_def
      seen_value_def map_index_def split: option.split)

lemma decimal_nonempty [simp]: "decimal n \<noteq> []" "[] \<noteq> decimal n"
  using decimal_digits [of n] by (simp_all add: eq_commute [of "[]"])

lemma reported_version:
  assumes "state_good n s"
  shows "(if map_index (st_versions s) k = [] then ''0'' else map_index (st_versions s) k) =
    seen_version (state_entry s k)"
proof (cases "state_entry s k")
  case None
  then have "map_of (st_values s) k = None"
    by (simp add: state_entry_def split: option.splits)
  then have "map_of (st_versions s) k = None"
    using assms unfolding state_good_def by (metis domIff)
  then show ?thesis using None by (simp add: seen_version_def map_index_def)
next
  case (Some e)
  obtain v ver where e: "e = (v, ver)" by (cases e)
  then have "ver = map_index (st_versions s) k"
    using Some by (auto simp: state_entry_def split: option.splits)
  then show ?thesis
    using Some e entry_version [OF assms, of k v ver] by (auto simp: seen_version_def)
qed

lemma invoke_cas:
  assumes "state_good n s"
  shows "State_Invoke None (cas_request k x v) s =
    (if x = seen_version (state_entry s k)
     then (ok_response [(''swapped'', IBool True),
             (''version'', IString (FormatUint (st_sequence s + 1)))], state_swap k v s)
     else (ok_response [(''swapped'', IBool False)], s))"
  by (simp add: State_Invoke_def cas_request_def state_request_def Let_def
      reported_version [OF assms, symmetric] map_index_def del: state_maps)
    (simp add: map_index_def)

interpretation fixture: state_provider State_Invoke state_entry state_good
proof
  show "state_good n (snd (State_Invoke c r s))" if "state_good (Suc n) s" for n s c r
    using that by (rule state_good_step)
  show "state_good m s" if "state_good n s" "m \<le> n" for n s m
    using that by (rule state_good_mono)
  show "State_Invoke (Some e) r s = (Inl e, s)" for e r s
    by (simp add: State_Invoke_def)
  show "seen_version (state_entry s k) \<noteq> []" if "state_good n s" for n s k
    using entry_version [OF that, of k] by (auto simp: seen_version_def split: option.split)
  show "\<exists>resp. State_Invoke None (get_request k) s = (Inr (Some resp), s)
      \<and> assert_string (map_of (hs_Payload resp) ''value'') = seen_value (state_entry s k)
      \<and> assert_string (map_of (hs_Payload resp) ''version'') = seen_version (state_entry s k)
      \<and> assert_bool (map_of (hs_Payload resp) ''found'') = (state_entry s k \<noteq> None)"
    if "state_good n s" for n s k
    by (simp add: invoke_get reported_version [OF that] ok_response_def)
  show "\<exists>resp s' ver.
      State_Invoke None (cas_request k (seen_version (state_entry s k)) v) s = (Inr (Some resp), s')
      \<and> assert_bool (map_of (hs_Payload resp) ''swapped'')
      \<and> state_entry s' = (state_entry s)(k \<mapsto> (v, ver))"
    if "state_good n s" for n s k v
    by (simp add: invoke_cas [OF that] ok_response_def) (metis entry_swap)
  show "\<exists>resp. State_Invoke None (cas_request k x v) s = (Inr (Some resp), s)
      \<and> \<not> assert_bool (map_of (hs_Payload resp) ''swapped'')"
    if "state_good n s" "x \<noteq> seen_version (state_entry s k)" for n s x k v
    using that(2) by (simp add: invoke_cas [OF that(1)] ok_response_def)
  show "state_entry (serve State_Invoke rs s) k = state_entry s k"
    if "state_good (length rs) s"
      "seen_version (state_entry (serve State_Invoke rs s) k) = seen_version (state_entry s k)"
    for rs s k
    using that by (rule no_version_reuse)
qed

section \<open>Properties\<close>

text \<open>
  C25: an update is atomic. Whatever the other clients do before and between the calls of one
  \<open>Update\<close>, it makes at most 32 calls, and either returns an error and leaves the state the others
  made, or returns a value that is the update function's answer to the key's value at the moment
  of the last call, and the state is the others' with just that key set to it.
\<close>
theorem Update_is_atomic:
  assumes "state_good (traffic turns 0 32) s"
    and "rs_Update (Some (shared State_Invoke turns)) waiting upd k (s, 0) = (res, t, j)"
  shows "let b = serve State_Invoke (others turns 0 j) s in
    j \<le> 32 \<and>
    (case res of
       Inl e \<Rightarrow> t = b
     | Inr v \<Rightarrow> upd (seen_value (state_entry b k)) = Inr v
         \<and> state_entry t k = Some (v, seen_version (state_entry t k))
         \<and> (state_entry t)(k := None) = (state_entry b)(k := None))"
  using fixture.update_loop_atomic [of turns 0 16 s waiting upd k 0 res t j] assms
  by (cases res) (auto simp: rs_Update_def updateAttempts_def Let_def seen_version_def)

text \<open>
  C26: an update gets through. With no error from the context or the update function, one attempt
  among the sixteen in which no other client changes the key between the two calls is enough for
  \<open>Update\<close> to return a value.
\<close>
theorem Update_progress:
  assumes "state_good (traffic turns 0 32) s"
    and "\<And>i. snd (turns i) = None" "\<And>i. waiting i = None" "\<And>x e. upd x \<noteq> Inl e"
    and "a < 16"
    and "state_entry (serve State_Invoke (others turns 0 (2 * a + 2)) s) k =
         state_entry (serve State_Invoke (others turns 0 (2 * a + 1)) s) k"
  shows "\<exists>v h. rs_Update (Some (shared State_Invoke turns)) waiting upd k (s, 0) = (Inr v, h)"
  using fixture.update_loop_progress [of turns 0 16 s waiting upd a k 0] assms
  by (simp add: rs_Update_def updateAttempts_def)

definition example_turns :: turns where
  "example_turns i =
     (if i = 0 then [cas_request ''j'' ''0'' ''y'', cas_request ''k'' ''0'' ''x'']
      else if i = 1 then [cas_request ''k'' ''2'' ''xx''] else [], None)"

lemma example_traffic: "state_good (traffic example_turns 0 32) zero_State"
proof -
  have "traffic example_turns 0 32 = 35" by code_simp
  then show ?thesis by (simp add: zero_State_good)
qed

definition example_update :: "(go_error + string) \<times> State \<times> nat" where
  "example_update =
     rs_Update (Some (shared State_Invoke example_turns)) (\<lambda>_. None) (\<lambda>v. Inr (v @ ''!'')) ''k''
       (zero_State, 0)"

lemma example_update_run:
  "example_update =
     (Inr ''xx!'',
      \<lparr>st_values = [(''j'', ''y''), (''k'', ''xx!'')], st_versions = [(''j'', ''1''), (''k'', ''4'')],
       st_sequence = 4\<rparr>, 4)"
  by code_simp

lemma Update_is_atomic_witness:
  "seen_value (state_entry (serve State_Invoke (others example_turns 0 4) zero_State) ''k'') = ''xx''"
  using Update_is_atomic [OF example_traffic example_update_run [unfolded example_update_def]]
  by (simp add: Let_def)

lemma Update_progress_witness:
  "\<exists>v h. rs_Update (Some (shared State_Invoke example_turns)) (\<lambda>_. None) (\<lambda>v. Inr (v @ ''!'')) ''k''
     (zero_State, 0) = (Inr v, h)"
proof (rule Update_progress [OF example_traffic, of _ _ 1])
  show "state_entry (serve State_Invoke (others example_turns 0 (2 * 1 + 2)) zero_State) ''k'' =
    state_entry (serve State_Invoke (others example_turns 0 (2 * 1 + 1)) zero_State) ''k''"
    by code_simp
qed (simp_all add: example_turns_def)

text \<open>The requests of all clients with their replies, in the order the mutex serves them.\<close>

fun replies :: "HostInvokeRequest list \<Rightarrow> State \<Rightarrow> (HostInvokeRequest \<times> host_result) list" where
  "replies [] s = []"
| "replies (r # rs) s = (let (res, s) = State_Invoke None r s in (r, res) # replies rs s)"

definition asks :: "string \<Rightarrow> string \<Rightarrow> HostInvokeRequest \<Rightarrow> bool" where
  "asks action key r \<longleftrightarrow>
     hr_Method r = RuntimeStateMethod
     \<and> assert_string (map_of (hr_Payload r) ''action'') = action
     \<and> assert_string (map_of (hr_Payload r) ''key'') = key"

definition says :: "string \<Rightarrow> host_result \<Rightarrow> bool" where
  "says flag res =
     (case res of
        Inr (Some resp) \<Rightarrow> assert_bool (map_of (hs_Payload resp) flag)
      | _ \<Rightarrow> False)"

definition taken :: "string \<Rightarrow> HostInvokeRequest \<times> host_result \<Rightarrow> bool" where
  "taken key x \<longleftrightarrow> asks ''take'' key (fst x) \<and> says ''found'' (snd x)"

definition stored :: "string \<Rightarrow> HostInvokeRequest \<times> host_result \<Rightarrow> bool" where
  "stored key x \<longleftrightarrow> asks ''cas'' key (fst x) \<and> says ''swapped'' (snd x)"

definition present :: "string \<Rightarrow> State \<Rightarrow> nat" where
  "present key s = (if state_entry s key = None then 0 else 1)"

lemma present_step:
  "present k (state_forget k' s) = (if k' = k then 0 else present k s)"
  "present k (state_swap k' v s) = (if k' = k then 1 else present k s)"
  by (simp_all add: present_def)

lemma take_step:
  assumes "State_Invoke None r s = (res, t)"
  shows "of_bool (taken k (r, res)) + present k t \<le> of_bool (stored k (r, res)) + present k s"
proof -
  let ?key = "assert_string (map_of (hr_Payload r) ''key'')"
  let ?action = "assert_string (map_of (hr_Payload r) ''action'')"
  consider (off) "hr_Method r \<noteq> RuntimeStateMethod"
    | (take) "hr_Method r = RuntimeStateMethod" "?action = ''take''"
    | (cas) "hr_Method r = RuntimeStateMethod" "?action = ''cas''"
    | (delete) "hr_Method r = RuntimeStateMethod" "?action = ''delete''"
    | (read) "hr_Method r = RuntimeStateMethod" "?action \<noteq> ''take''" "?action \<noteq> ''cas''"
        "?action \<noteq> ''delete''"
    by blast
  then show ?thesis
  proof cases
    case take
    then have "t = state_forget ?key s" "says ''found'' res = (map_of (st_values s) ?key \<noteq> None)"
      using assms by (auto simp: State_Invoke_def Let_def ok_response_def says_def)
    then show ?thesis
      using take by (auto simp: taken_def stored_def asks_def present_step)
        (auto simp: present_def state_entry_def split: option.splits)
  next
    case cas
    then have "t = s \<or> (\<exists>v. t = state_swap ?key v s) \<and> says ''swapped'' res"
      using assms by (auto simp: State_Invoke_def Let_def ok_response_def says_def split: if_splits)
    then show ?thesis
      using cas by (auto simp: taken_def stored_def asks_def present_step)
  next
    case delete
    then have "t = s \<or> t = state_forget ?key s"
      using assms by (auto simp: State_Invoke_def Let_def split: if_splits)
    then show ?thesis
      using delete by (auto simp: taken_def asks_def present_step)
  next
    case read
    then have "t = s"
      using assms by (auto simp: State_Invoke_def Let_def split: if_splits option.splits iface.splits)
    then show ?thesis using read by (simp add: taken_def asks_def)
  qed (use assms in \<open>auto simp: State_Invoke_def taken_def asks_def\<close>)
qed

text \<open>
  C27: a stored value is taken once. However many clients send however many requests, \<open>Take\<close> finds
  a key at most once for the value it had at the start and once for every successful swap of that
  key, so that no value is consumed twice.
\<close>
theorem take_consumes_once:
  "length (filter (taken k) (replies rs s)) \<le>
   length (filter (stored k) (replies rs s)) + (if state_entry s k = None then 0 else 1)"
  unfolding present_def [symmetric]
proof (induction rs arbitrary: s)
  case (Cons r rs)
  obtain res t where "State_Invoke None r s = (res, t)" by (rule prod.exhaust)
  then show ?case
    using take_step [of r s res t k] Cons.IH [of t] by (auto split: if_splits)
qed (simp add: present_def)

end
