(* ===== verification/Hooks.thy ===== *)
theory Hooks
  imports OutcomeConv RuntimeState
begin

text \<open>
  The hooks a plugin offers the core and the calls it makes to the core: events
  (\<^verbatim>\<open>sdkgo/event.go\<close>, \<^verbatim>\<open>runtimego/grpc/event_server.go\<close>), middleware (\<^verbatim>\<open>sdkgo/middleware.go\<close>,
  \<^verbatim>\<open>runtimego/grpc/middleware_server.go\<close>, \<^verbatim>\<open>middleware_client.go\<close>) and the Host client
  (\<^verbatim>\<open>sdkgo/host.go\<close>, \<^verbatim>\<open>runtimego/grpc/host_client.go\<close>), whose payloads cross as JSON
  (\<^verbatim>\<open>runtimego/grpc/json_payload.go\<close>). Log lines are left out.

  Package encoding/json is a parameter: \<open>marshal\<close> and \<open>unmarshal\<close>, each with its error. A
  \<^verbatim>\<open>time.Time\<close> is the nanoseconds since 1970, \<open>None\<close> being the zero time.
\<close>

section \<open>JSON payloads\<close>

type_synonym payload = "(string, iface) gomap"

definition msg_payload_encode :: string where
  "msg_payload_encode =
     ''JSON payload '' @
     [CHR 0xE7, CHR 0xBC, CHR 0x96, CHR 0xE7, CHR 0xA0, CHR 0x81, CHR 0xE5, CHR 0xA4, CHR 0xB1,
      CHR 0xE8, CHR 0xB4, CHR 0xA5]"

definition msg_payload_decode :: string where
  "msg_payload_decode =
     ''JSON payload '' @
     [CHR 0xE8, CHR 0xA7, CHR 0xA3, CHR 0xE7, CHR 0xA0, CHR 0x81, CHR 0xE5, CHR 0xA4, CHR 0xB1,
      CHR 0xE8, CHR 0xB4, CHR 0xA5]"

definition mapToJSONPayload :: "(payload \<Rightarrow> go_error + bytes) \<Rightarrow> payload \<Rightarrow> go_error + bytes" where
  "mapToJSONPayload marshal m =
     (if length m = 0 then Inr []
      else
        (case marshal m of
           Inl e \<Rightarrow> Inl (ErrWrap msg_payload_encode e)
         | Inr data \<Rightarrow> Inr data))"

definition jsonPayloadToMap :: "(bytes \<Rightarrow> go_error + payload) \<Rightarrow> bytes \<Rightarrow> go_error + payload" where
  "jsonPayloadToMap unmarshal data =
     (if length data = 0 then Inr []
      else
        (case unmarshal data of
           Inl e \<Rightarrow> Inl (ErrWrap msg_payload_decode e)
         | Inr out \<Rightarrow> Inr out))"

text \<open>
  What the code relies on of package encoding/json: a payload of strings, booleans and the like
  that is not empty is encoded to some bytes that decode to it.
\<close>

definition payload_json ::
  "(payload \<Rightarrow> go_error + bytes) \<Rightarrow> (bytes \<Rightarrow> go_error + payload) \<Rightarrow> payload \<Rightarrow> bool" where
  "payload_json marshal unmarshal m \<longleftrightarrow>
     m = [] \<or> (case marshal m of Inl _ \<Rightarrow> False | Inr b \<Rightarrow> b \<noteq> [] \<and> unmarshal b = Inr m)"

lemma payload_round_trip:
  assumes "payload_json marshal unmarshal m"
  shows "\<exists>b. mapToJSONPayload marshal m = Inr b \<and> jsonPayloadToMap unmarshal b = Inr m"
  using assms
  by (cases "marshal m")
    (auto simp: payload_json_def mapToJSONPayload_def jsonPayloadToMap_def)

section \<open>Events\<close>

type_synonym time = "int option"

definition UnixMilli :: "int \<Rightarrow> go_int" where
  "UnixMilli t = word_of_int (t div 1000000)"

definition time_of_ms :: "go_int \<Rightarrow> int" where
  "time_of_ms ms = sint ms * 1000000"

record EventSubscription =
  es_Type :: string
  es_Source :: string
  es_Filter :: metadata
  es_Metadata :: metadata

record PluginEvent =
  ev_ID :: string
  ev_Type :: string
  ev_Source :: string
  ev_Subject :: string
  ev_UserID :: go_int
  ev_GroupID :: go_int
  ev_Payload :: payload
  ev_Metadata :: metadata
  ev_OccurredAt :: time

definition zero_event :: PluginEvent where
  "zero_event =
     \<lparr>ev_ID = [], ev_Type = [], ev_Source = [], ev_Subject = [], ev_UserID = 0, ev_GroupID = 0,
      ev_Payload = [], ev_Metadata = [], ev_OccurredAt = None\<rparr>"

record EventSubscriptionProto =
  pes_Type :: string
  pes_Source :: string
  pes_Filter :: metadata
  pes_Metadata :: metadata

record PbPluginEvent =
  pev_Id :: string
  pev_Type :: string
  pev_Source :: string
  pev_Subject :: string
  pev_UserId :: go_int
  pev_GroupId :: go_int
  pev_Payload :: bytes
  pev_Metadata :: metadata
  pev_OccurredAt :: go_int

record EventHandleResponse =
  eh_Success :: bool
  eh_ErrorMessage :: string

definition eventToProto ::
  "(payload \<Rightarrow> go_error + bytes) \<Rightarrow> PluginEvent \<Rightarrow> go_error + PbPluginEvent" where
  "eventToProto marshal e =
     (let occurredAt = (case ev_OccurredAt e of None \<Rightarrow> 0 | Some t \<Rightarrow> UnixMilli t) in
      case mapToJSONPayload marshal (ev_Payload e) of
        Inl er \<Rightarrow> Inl er
      | Inr payload \<Rightarrow>
          Inr \<lparr>pev_Id = ev_ID e, pev_Type = ev_Type e, pev_Source = ev_Source e,
               pev_Subject = ev_Subject e, pev_UserId = ev_UserID e,
               pev_GroupId = ev_GroupID e, pev_Payload = payload,
               pev_Metadata = ev_Metadata e, pev_OccurredAt = occurredAt\<rparr>)"

definition eventFromProto ::
  "(bytes \<Rightarrow> go_error + payload) \<Rightarrow> PbPluginEvent option \<Rightarrow> go_error + PluginEvent" where
  "eventFromProto unmarshal q =
     (case q of
        None \<Rightarrow> Inr zero_event
      | Some p \<Rightarrow>
          (case jsonPayloadToMap unmarshal (pev_Payload p) of
             Inl er \<Rightarrow> Inl er
           | Inr payload \<Rightarrow>
               Inr \<lparr>ev_ID = pev_Id p, ev_Type = pev_Type p, ev_Source = pev_Source p,
                    ev_Subject = pev_Subject p, ev_UserID = pev_UserId p,
                    ev_GroupID = pev_GroupId p, ev_Payload = payload,
                    ev_Metadata = pev_Metadata p,
                    ev_OccurredAt =
                      (if sint (pev_OccurredAt p) > 0
                       then Some (time_of_ms (pev_OccurredAt p)) else None)\<rparr>))"

definition subscriptionToProto :: "EventSubscription \<Rightarrow> EventSubscriptionProto" where
  "subscriptionToProto s =
     \<lparr>pes_Type = es_Type s, pes_Source = es_Source s, pes_Filter = es_Filter s,
      pes_Metadata = es_Metadata s\<rparr>"

definition subscriptionFromProto :: "EventSubscriptionProto option \<Rightarrow> EventSubscription" where
  "subscriptionFromProto q =
     (case q of
        None \<Rightarrow> \<lparr>es_Type = [], es_Source = [], es_Filter = [], es_Metadata = []\<rparr>
      | Some p \<Rightarrow>
          \<lparr>es_Type = pes_Type p, es_Source = pes_Source p, es_Filter = pes_Filter p,
           es_Metadata = pes_Metadata p\<rparr>)"

text \<open>A plugin may implement \<^verbatim>\<open>EventHandler\<close>: its subscriptions and its handler.\<close>

type_synonym event_handler = "(EventSubscription list \<times> (PluginEvent \<Rightarrow> go_error option)) option"

definition srv_GetEventSubscriptions :: "event_handler \<Rightarrow> EventSubscriptionProto option list" where
  "srv_GetEventSubscriptions impl =
     (case impl of
        None \<Rightarrow> []
      | Some (subs, _) \<Rightarrow> map (\<lambda>s. Some (subscriptionToProto s)) subs)"

definition srv_HandleEvent ::
  "(bytes \<Rightarrow> go_error + payload) \<Rightarrow> event_handler \<Rightarrow> PbPluginEvent option
     \<Rightarrow> EventHandleResponse" where
  "srv_HandleEvent unmarshal impl req =
     (case impl of
        None \<Rightarrow>
          \<lparr>eh_Success = False, eh_ErrorMessage = ''plugin does not implement EventHandler''\<rparr>
      | Some (_, handler) \<Rightarrow>
          (case eventFromProto unmarshal req of
             Inl e \<Rightarrow> \<lparr>eh_Success = False, eh_ErrorMessage = error_text e\<rparr>
           | Inr event \<Rightarrow>
               (case handler event of
                  Some e \<Rightarrow> \<lparr>eh_Success = False, eh_ErrorMessage = error_text e\<rparr>
                | None \<Rightarrow> \<lparr>eh_Success = True, eh_ErrorMessage = []\<rparr>)))"

text \<open>The core's side; the service is \<open>None\<close> before the connection is set up.\<close>

definition base_EventSubscriptions ::
  "(go_error + EventSubscriptionProto option list) option \<Rightarrow> EventSubscription list" where
  "base_EventSubscriptions service =
     (case service of
        None \<Rightarrow> []
      | Some (Inl e) \<Rightarrow> []
      | Some (Inr subs) \<Rightarrow> map subscriptionFromProto subs)"

definition base_HandleEvent ::
  "(payload \<Rightarrow> go_error + bytes)
     \<Rightarrow> (PbPluginEvent option \<Rightarrow> go_error + EventHandleResponse option) option
     \<Rightarrow> PluginEvent \<Rightarrow> go_error option" where
  "base_HandleEvent marshal service event =
     (case service of
        None \<Rightarrow> Some (ErrMsg ''event service is not initialized'')
      | Some rpc \<Rightarrow>
          (case eventToProto marshal event of
             Inl e \<Rightarrow> Some e
           | Inr p \<Rightarrow>
               (case rpc (Some p) of
                  Inl e \<Rightarrow> Some e
                | Inr None \<Rightarrow> None
                | Inr (Some resp) \<Rightarrow>
                    if \<not> eh_Success resp then Some (ErrMsg (eh_ErrorMessage resp)) else None)))"

text \<open>The event the plugin sees: to the millisecond, and without a time at or before 1970.\<close>

definition event_view :: "PluginEvent \<Rightarrow> PluginEvent" where
  "event_view e =
     e\<lparr>ev_OccurredAt :=
         (case ev_OccurredAt e of
            None \<Rightarrow> None
          | Some t \<Rightarrow>
              if sint (UnixMilli t) > 0 then Some (time_of_ms (UnixMilli t)) else None)\<rparr>"

lemma event_round_trip:
  assumes "payload_json marshal unmarshal (ev_Payload e)"
  shows "\<exists>p. eventToProto marshal e = Inr p \<and>
             eventFromProto unmarshal (Some p) = Inr (event_view e)"
  using payload_round_trip [OF assms]
  by (cases e) (auto simp: eventToProto_def eventFromProto_def event_view_def split: option.split)

lemma subscriptions_round_trip:
  "base_EventSubscriptions (Some (Inr (srv_GetEventSubscriptions (Some (subs, h))))) = subs"
  by (induction subs)
    (simp_all add: base_EventSubscriptions_def srv_GetEventSubscriptions_def
      subscriptionToProto_def subscriptionFromProto_def)

section \<open>Middleware\<close>

text \<open>An action is any number; the three the SDK names are constants.\<close>

type_synonym DecisionAction = go_int32

definition DecisionAllow :: DecisionAction where "DecisionAllow = 0"
definition DecisionDeny :: DecisionAction where "DecisionDeny = 1"
definition DecisionMutate :: DecisionAction where "DecisionMutate = 2"

record MiddlewareRequest =
  mr_RequestID :: string
  mr_UserID :: go_int
  mr_GroupID :: go_int
  mr_AccountID :: go_int
  mr_Platform :: string
  mr_Model :: string
  mr_Stream :: bool
  mr_Metadata :: metadata
  mr_RequestBody :: bytes
  mr_RequestHeaders :: header

record MiddlewareEvent =
  me_RequestID :: string
  me_UserID :: go_int
  me_GroupID :: go_int
  me_AccountID :: go_int
  me_Platform :: string
  me_Model :: string
  me_Stream :: bool
  me_StatusCode :: go_int32
  me_Duration :: duration
  me_Usage :: "Usage option"
  me_ErrorKind :: string
  me_ErrorMsg :: string
  me_Metadata :: metadata
  me_ResponseBody :: bytes
  me_ResponseHeaders :: header

record MiddlewareDecision =
  md_Action :: DecisionAction
  md_DenyStatusCode :: go_int32
  md_DenyMessage :: string
  md_SetHeaders :: header
  md_Metadata :: metadata

record PbMiddlewareRequest =
  pmr_RequestId :: string
  pmr_UserId :: go_int
  pmr_GroupId :: go_int
  pmr_AccountId :: go_int
  pmr_Platform :: string
  pmr_Model :: string
  pmr_Stream :: bool
  pmr_Metadata :: metadata
  pmr_RequestBody :: bytes
  pmr_RequestHeaders :: pb_headers

record PbMiddlewareEvent =
  pme_RequestId :: string
  pme_UserId :: go_int
  pme_GroupId :: go_int
  pme_AccountId :: go_int
  pme_Platform :: string
  pme_Model :: string
  pme_Stream :: bool
  pme_StatusCode :: go_int
  pme_DurationMs :: go_int
  pme_Usage :: "PbUsage option"
  pme_ErrorKind :: string
  pme_ErrorMsg :: string
  pme_Metadata :: metadata
  pme_ResponseBody :: bytes
  pme_ResponseHeaders :: pb_headers

record PbMiddlewareDecision =
  pmd_Action :: go_int32
  pmd_DenyStatusCode :: go_int32
  pmd_DenyMessage :: string
  pmd_SetHeaders :: pb_headers
  pmd_Metadata :: metadata

definition cloneStringMapMW :: "metadata \<Rightarrow> metadata" where
  "cloneStringMapMW m = map (\<lambda>(k, v). (k, v)) m"

definition zero_PbMiddlewareRequest :: PbMiddlewareRequest where
  "zero_PbMiddlewareRequest =
     \<lparr>pmr_RequestId = [], pmr_UserId = 0, pmr_GroupId = 0, pmr_AccountId = 0,
      pmr_Platform = [], pmr_Model = [], pmr_Stream = False, pmr_Metadata = [],
      pmr_RequestBody = [], pmr_RequestHeaders = []\<rparr>"

definition zero_PbMiddlewareEvent :: PbMiddlewareEvent where
  "zero_PbMiddlewareEvent =
     \<lparr>pme_RequestId = [], pme_UserId = 0, pme_GroupId = 0, pme_AccountId = 0,
      pme_Platform = [], pme_Model = [], pme_Stream = False, pme_StatusCode = 0,
      pme_DurationMs = 0, pme_Usage = None, pme_ErrorKind = [], pme_ErrorMsg = [],
      pme_Metadata = [], pme_ResponseBody = [], pme_ResponseHeaders = []\<rparr>"

definition middlewareRequestToProto :: "MiddlewareRequest option \<Rightarrow> PbMiddlewareRequest" where
  "middlewareRequestToProto q =
     (case q of
        None \<Rightarrow> zero_PbMiddlewareRequest
      | Some r \<Rightarrow>
          (let out = \<lparr>pmr_RequestId = mr_RequestID r, pmr_UserId = mr_UserID r,
                      pmr_GroupId = mr_GroupID r, pmr_AccountId = mr_AccountID r,
                      pmr_Platform = mr_Platform r, pmr_Model = mr_Model r,
                      pmr_Stream = mr_Stream r, pmr_Metadata = cloneStringMapMW (mr_Metadata r),
                      pmr_RequestBody = mr_RequestBody r, pmr_RequestHeaders = []\<rparr>
           in if length (mr_RequestHeaders r) > 0
              then out\<lparr>pmr_RequestHeaders := httpHeadersToProto (mr_RequestHeaders r)\<rparr>
              else out))"

definition middlewareRequestFromProto ::
  "PbMiddlewareRequest option \<Rightarrow> MiddlewareRequest option" where
  "middlewareRequestFromProto q =
     (case q of
        None \<Rightarrow> None
      | Some r \<Rightarrow>
          (let out = \<lparr>mr_RequestID = pmr_RequestId r, mr_UserID = pmr_UserId r,
                      mr_GroupID = pmr_GroupId r, mr_AccountID = pmr_AccountId r,
                      mr_Platform = pmr_Platform r, mr_Model = pmr_Model r,
                      mr_Stream = pmr_Stream r, mr_Metadata = cloneStringMapMW (pmr_Metadata r),
                      mr_RequestBody = pmr_RequestBody r, mr_RequestHeaders = []\<rparr>
           in Some (if length (pmr_RequestHeaders r) > 0
                    then out\<lparr>mr_RequestHeaders := protoHeadersToHTTP (pmr_RequestHeaders r)\<rparr>
                    else out)))"

definition middlewareEventToProto :: "MiddlewareEvent option \<Rightarrow> PbMiddlewareEvent" where
  "middlewareEventToProto q =
     (case q of
        None \<Rightarrow> zero_PbMiddlewareEvent
      | Some e \<Rightarrow>
          (let out = \<lparr>pme_RequestId = me_RequestID e, pme_UserId = me_UserID e,
                      pme_GroupId = me_GroupID e, pme_AccountId = me_AccountID e,
                      pme_Platform = me_Platform e, pme_Model = me_Model e,
                      pme_Stream = me_Stream e, pme_StatusCode = int_of_int32 (me_StatusCode e),
                      pme_DurationMs = go_div (me_Duration e) 1000000,
                      pme_Usage = map_option usageToProto (me_Usage e),
                      pme_ErrorKind = me_ErrorKind e, pme_ErrorMsg = me_ErrorMsg e,
                      pme_Metadata = cloneStringMapMW (me_Metadata e),
                      pme_ResponseBody = me_ResponseBody e, pme_ResponseHeaders = []\<rparr>
           in if length (me_ResponseHeaders e) > 0
              then out\<lparr>pme_ResponseHeaders := httpHeadersToProto (me_ResponseHeaders e)\<rparr>
              else out))"

definition middlewareEventFromProto :: "PbMiddlewareEvent option \<Rightarrow> MiddlewareEvent option" where
  "middlewareEventFromProto q =
     (case q of
        None \<Rightarrow> None
      | Some e \<Rightarrow>
          (let out = \<lparr>me_RequestID = pme_RequestId e, me_UserID = pme_UserId e,
                      me_GroupID = pme_GroupId e, me_AccountID = pme_AccountId e,
                      me_Platform = pme_Platform e, me_Model = pme_Model e,
                      me_Stream = pme_Stream e, me_StatusCode = int32_of (pme_StatusCode e),
                      me_Duration = duration_of_ms (pme_DurationMs e),
                      me_Usage = map_option usageFromProto (pme_Usage e),
                      me_ErrorKind = pme_ErrorKind e, me_ErrorMsg = pme_ErrorMsg e,
                      me_Metadata = cloneStringMapMW (pme_Metadata e),
                      me_ResponseBody = pme_ResponseBody e, me_ResponseHeaders = []\<rparr>
           in Some (if length (pme_ResponseHeaders e) > 0
                    then out\<lparr>me_ResponseHeaders := protoHeadersToHTTP (pme_ResponseHeaders e)\<rparr>
                    else out)))"

text \<open>A nil decision allows the request and changes nothing.\<close>

definition middlewareDecisionToProto :: "MiddlewareDecision option \<Rightarrow> PbMiddlewareDecision" where
  "middlewareDecisionToProto q =
     (case q of
        None \<Rightarrow>
          \<lparr>pmd_Action = 0, pmd_DenyStatusCode = 0, pmd_DenyMessage = [], pmd_SetHeaders = [],
           pmd_Metadata = []\<rparr>
      | Some d \<Rightarrow>
          (let out = \<lparr>pmd_Action = md_Action d, pmd_DenyStatusCode = md_DenyStatusCode d,
                      pmd_DenyMessage = md_DenyMessage d, pmd_SetHeaders = [],
                      pmd_Metadata = cloneStringMapMW (md_Metadata d)\<rparr>
           in if length (md_SetHeaders d) > 0
              then out\<lparr>pmd_SetHeaders := httpHeadersToProto (md_SetHeaders d)\<rparr>
              else out))"

definition middlewareDecisionFromProto :: "PbMiddlewareDecision option \<Rightarrow> MiddlewareDecision" where
  "middlewareDecisionFromProto q =
     (case q of
        None \<Rightarrow>
          \<lparr>md_Action = DecisionAllow, md_DenyStatusCode = 0, md_DenyMessage = [],
           md_SetHeaders = [], md_Metadata = []\<rparr>
      | Some d \<Rightarrow>
          (let out = \<lparr>md_Action = pmd_Action d, md_DenyStatusCode = pmd_DenyStatusCode d,
                      md_DenyMessage = pmd_DenyMessage d, md_SetHeaders = [],
                      md_Metadata = cloneStringMapMW (pmd_Metadata d)\<rparr>
           in if length (pmd_SetHeaders d) > 0
              then out\<lparr>md_SetHeaders := protoHeadersToHTTP (pmd_SetHeaders d)\<rparr>
              else out))"

text \<open>The two hooks on the plugin's side, and the core's calls; \<open>rpc\<close> is the gRPC call.\<close>

definition srv_OnForwardBegin ::
  "(MiddlewareRequest option \<Rightarrow> go_error + MiddlewareDecision option)
     \<Rightarrow> PbMiddlewareRequest option \<Rightarrow> go_error + PbMiddlewareDecision" where
  "srv_OnForwardBegin impl req =
     (case impl (middlewareRequestFromProto req) of
        Inl e \<Rightarrow> Inl e
      | Inr decision \<Rightarrow> Inr (middlewareDecisionToProto decision))"

definition srv_OnForwardEnd ::
  "(MiddlewareEvent option \<Rightarrow> go_error option) \<Rightarrow> PbMiddlewareEvent option \<Rightarrow> go_error + unit"
where
  "srv_OnForwardEnd impl evt =
     (case impl (middlewareEventFromProto evt) of Some e \<Rightarrow> Inl e | None \<Rightarrow> Inr ())"

definition client_OnForwardBegin ::
  "(PbMiddlewareRequest option \<Rightarrow> go_error + PbMiddlewareDecision)
     \<Rightarrow> MiddlewareRequest option \<Rightarrow> go_error + MiddlewareDecision" where
  "client_OnForwardBegin rpc req =
     (case rpc (Some (middlewareRequestToProto req)) of
        Inl e \<Rightarrow> Inl e
      | Inr resp \<Rightarrow> Inr (middlewareDecisionFromProto (Some resp)))"

definition client_OnForwardEnd ::
  "(PbMiddlewareEvent option \<Rightarrow> go_error + unit) \<Rightarrow> MiddlewareEvent option \<Rightarrow> go_error option"
where
  "client_OnForwardEnd rpc evt =
     (case rpc (Some (middlewareEventToProto evt)) of Inl e \<Rightarrow> Some e | Inr _ \<Rightarrow> None)"

lemma cloneStringMapMW_id [simp]: "cloneStringMapMW m = m"
  by (simp add: cloneStringMapMW_def)

lemma no_headers [simp]: "httpHeadersToProto h = [] \<longleftrightarrow> h = []"
  by (simp add: httpHeadersToProto_def)

lemma middleware_request_round_trip:
  "middlewareRequestFromProto (Some (middlewareRequestToProto (Some r))) = Some r"
  by (cases r)
    (simp add: middlewareRequestFromProto_def middlewareRequestToProto_def Let_def
      header_codec.dec_enc)

text \<open>An event reaches the plugin with its duration cut to milliseconds.\<close>

definition hook_event_view :: "MiddlewareEvent \<Rightarrow> MiddlewareEvent" where
  "hook_event_view e = e\<lparr>me_Duration := truncate_ms (me_Duration e)\<rparr>"

lemma middleware_event_round_trip:
  "middlewareEventFromProto (Some (middlewareEventToProto (Some e))) = Some (hook_event_view e)"
  by (cases e)
    (simp add: middlewareEventFromProto_def middlewareEventToProto_def Let_def
      header_codec.dec_enc hook_event_view_def Milliseconds_def [symmetric])

definition decision_view :: "MiddlewareDecision option \<Rightarrow> MiddlewareDecision" where
  "decision_view q =
     (case q of
        None \<Rightarrow>
          \<lparr>md_Action = DecisionAllow, md_DenyStatusCode = 0, md_DenyMessage = [],
           md_SetHeaders = [], md_Metadata = []\<rparr>
      | Some d \<Rightarrow> d)"

lemma middleware_decision_round_trip:
  "middlewareDecisionFromProto (Some (middlewareDecisionToProto q)) = decision_view q"
  by (cases q; cases "the q")
    (simp_all add: middlewareDecisionFromProto_def middlewareDecisionToProto_def Let_def
      header_codec.dec_enc decision_view_def DecisionAllow_def)

section \<open>The Host client\<close>

record PbHostInvokeRequest =
  phr_Method :: string
  phr_Payload :: bytes
  phr_IdempotencyKey :: string
  phr_Metadata :: metadata

record PbHostInvokeResponse =
  phs_Status :: string
  phs_Payload :: bytes
  phs_Metadata :: metadata

record HostStreamFrame =
  hf_Event :: string
  hf_Status :: string
  hf_Payload :: payload
  hf_Metadata :: metadata
  hf_Done :: bool

record PbHostStreamFrame =
  phf_Method :: string
  phf_Event :: string
  phf_Status :: string
  phf_Payload :: bytes
  phf_IdempotencyKey :: string
  phf_Metadata :: metadata
  phf_Done :: bool

text \<open>\<open>rpc\<close> is the call of the core, with its state.\<close>

definition hostClient_Invoke ::
  "(payload \<Rightarrow> go_error + bytes) \<Rightarrow> (bytes \<Rightarrow> go_error + payload)
     \<Rightarrow> (PbHostInvokeRequest \<Rightarrow> 'h \<Rightarrow> (go_error + PbHostInvokeResponse) \<times> 'h) \<Rightarrow> 'h host" where
  "hostClient_Invoke marshal unmarshal rpc req h =
     (case mapToJSONPayload marshal (hr_Payload req) of
        Inl e \<Rightarrow> (Inl e, h)
      | Inr payload \<Rightarrow>
          (case rpc \<lparr>phr_Method = hr_Method req, phr_Payload = payload,
                     phr_IdempotencyKey = hr_IdempotencyKey req,
                     phr_Metadata = hr_Metadata req\<rparr> h of
             (Inl e, h) \<Rightarrow> (Inl e, h)
           | (Inr resp, h) \<Rightarrow>
               (case jsonPayloadToMap unmarshal (phs_Payload resp) of
                  Inl e \<Rightarrow> (Inl e, h)
                | Inr responsePayload \<Rightarrow>
                    (Inr (Some \<lparr>hs_Status = phs_Status resp, hs_Payload = responsePayload,
                                hs_Metadata = phs_Metadata resp\<rparr>), h))))"

text \<open>
  Opening a stream sends the first frame: the error, or none, and the frames sent. \<open>opened\<close> is
  the error of opening it, \<open>send\<close> what \<^verbatim>\<open>Send\<close> returns for a frame.
\<close>

definition hostClient_InvokeStream ::
  "(payload \<Rightarrow> go_error + bytes) \<Rightarrow> go_error option \<Rightarrow> (PbHostStreamFrame \<Rightarrow> go_error option)
     \<Rightarrow> HostInvokeRequest \<Rightarrow> go_error option \<times> PbHostStreamFrame list" where
  "hostClient_InvokeStream marshal opened send req =
     (case mapToJSONPayload marshal (hr_Payload req) of
        Inl e \<Rightarrow> (Some e, [])
      | Inr payload \<Rightarrow>
          (case opened of
             Some e \<Rightarrow> (Some e, [])
           | None \<Rightarrow>
               (let f = \<lparr>phf_Method = hr_Method req, phf_Event = [], phf_Status = [],
                         phf_Payload = payload, phf_IdempotencyKey = hr_IdempotencyKey req,
                         phf_Metadata = hr_Metadata req, phf_Done = False\<rparr>
                in (send f, [f]))))"

definition hostStream_Send ::
  "(payload \<Rightarrow> go_error + bytes) \<Rightarrow> (PbHostStreamFrame \<Rightarrow> go_error option)
     \<Rightarrow> HostStreamFrame \<Rightarrow> go_error option \<times> PbHostStreamFrame list" where
  "hostStream_Send marshal send frame =
     (case mapToJSONPayload marshal (hf_Payload frame) of
        Inl e \<Rightarrow> (Some e, [])
      | Inr payload \<Rightarrow>
          (let f = \<lparr>phf_Method = [], phf_Event = hf_Event frame, phf_Status = hf_Status frame,
                    phf_Payload = payload, phf_IdempotencyKey = [],
                    phf_Metadata = hf_Metadata frame, phf_Done = hf_Done frame\<rparr>
           in (send f, [f])))"

definition hostStream_CloseSend :: "go_error option \<Rightarrow> go_error option" where
  "hostStream_CloseSend fate = fate"

definition hostStream_Recv ::
  "(bytes \<Rightarrow> go_error + payload) \<Rightarrow> go_error + PbHostStreamFrame \<Rightarrow> go_error + HostStreamFrame"
where
  "hostStream_Recv unmarshal recv =
     (case recv of
        Inl e \<Rightarrow> Inl e
      | Inr frame \<Rightarrow>
          (case jsonPayloadToMap unmarshal (phf_Payload frame) of
             Inl e \<Rightarrow> Inl e
           | Inr payload \<Rightarrow>
               Inr \<lparr>hf_Event = phf_Event frame, hf_Status = phf_Status frame,
                    hf_Payload = payload, hf_Metadata = phf_Metadata frame,
                    hf_Done = phf_Done frame\<rparr>))"

lemma host_frame_round_trip:
  assumes "payload_json marshal unmarshal (hf_Payload f)"
  shows "\<exists>p. hostStream_Send marshal send f = (send p, [p]) \<and>
             hostStream_Recv unmarshal (Inr p) = Inr f"
  using payload_round_trip [OF assms]
  by (cases f) (auto simp: hostStream_Send_def hostStream_Recv_def Let_def)

text \<open>
  A core that decodes the request, answers as the host \<open>host\<close> does and encodes the answer: the
  Host the plugin has is then \<open>host\<close>.
\<close>

definition core_serves ::
  "(payload \<Rightarrow> go_error + bytes) \<Rightarrow> (bytes \<Rightarrow> go_error + payload) \<Rightarrow> 'h host
     \<Rightarrow> PbHostInvokeRequest \<Rightarrow> 'h \<Rightarrow> (go_error + PbHostInvokeResponse) \<times> 'h" where
  "core_serves marshal unmarshal host p h =
     (case jsonPayloadToMap unmarshal (phr_Payload p) of
        Inl e \<Rightarrow> (Inl e, h)
      | Inr payload \<Rightarrow>
          (case host \<lparr>hr_Method = phr_Method p, hr_Payload = payload,
                      hr_IdempotencyKey = phr_IdempotencyKey p,
                      hr_Metadata = phr_Metadata p\<rparr> h of
             (Inl e, h) \<Rightarrow> (Inl e, h)
           | (Inr None, h) \<Rightarrow> (Inl EOF, h)
           | (Inr (Some r), h) \<Rightarrow>
               (case mapToJSONPayload marshal (hs_Payload r) of
                  Inl e \<Rightarrow> (Inl e, h)
                | Inr out \<Rightarrow>
                    (Inr \<lparr>phs_Status = hs_Status r, phs_Payload = out,
                          phs_Metadata = hs_Metadata r\<rparr>, h))))"

lemma host_call_transparent:
  assumes "payload_json marshal unmarshal (hr_Payload req)"
    and "host req h = (Inr (Some r), h')"
    and "payload_json marshal unmarshal (hs_Payload r)"
  shows "hostClient_Invoke marshal unmarshal (core_serves marshal unmarshal host) req h =
           (Inr (Some r), h')"
proof -
  obtain b where b: "mapToJSONPayload marshal (hr_Payload req) = Inr b"
    "jsonPayloadToMap unmarshal b = Inr (hr_Payload req)"
    using payload_round_trip [OF assms(1)] by blast
  obtain c where c: "mapToJSONPayload marshal (hs_Payload r) = Inr c"
    "jsonPayloadToMap unmarshal c = Inr (hs_Payload r)"
    using payload_round_trip [OF assms(3)] by blast
  show ?thesis
    using assms(2) b c
    by (cases req; cases r) (simp add: hostClient_Invoke_def core_serves_def)
qed

section \<open>Properties\<close>


text \<open>A handler that fails on an event at 1.5 s, and a middleware whose hook fails.\<close>

definition sample_event :: PluginEvent where
  "sample_event =
     zero_event\<lparr>ev_Type := ''account.updated'', ev_Payload := [(''id'', IString ''7'')],
       ev_OccurredAt := Some 1500000007\<rparr>"


end
