(* ===== verification/Logging.thy ===== *)
theory Logging
  imports Strconv
begin

text \<open>
  Logging: levels, the text handler and the loggers bound to a context
  (\<^verbatim>\<open>sdkgo/log.go\<close>, \<^verbatim>\<open>sdkgo/log_pretty.go\<close>), the gRPC interceptors that carry the request id
  across the plugin boundary (\<^verbatim>\<open>runtimego/grpc/logging_interceptor.go\<close>) and the development
  server's handler that logs to several places (\<^verbatim>\<open>devkit/devserver/logger.go\<close>).

  The library's formatting of numbers, times and quoted strings is the parameter \<open>formats\<close>.
\<close>

section \<open>Levels\<close>

type_synonym level = int

definition LevelDebug :: level where "LevelDebug = -4"
definition LevelInfo :: level where "LevelInfo = 0"
definition LevelWarn :: level where "LevelWarn = 4"
definition LevelError :: level where "LevelError = 8"

definition parseLevel :: "string \<Rightarrow> level" where
  "parseLevel lvl =
     (let l = ToLower lvl in
      if l = ''debug'' then LevelDebug
      else if l = ''warn'' \<or> l = ''warning'' then LevelWarn
      else if l = ''error'' then LevelError
      else LevelInfo)"

definition levelLabel :: "level \<Rightarrow> string" where
  "levelLabel l =
     (if l \<ge> LevelError then ''ERROR''
      else if l \<ge> LevelWarn then ''WARN ''
      else if l \<ge> LevelInfo then ''INFO ''
      else ''DEBUG'')"

text \<open>The escape sequences of the colours.\<close>

definition ESC :: char where "ESC = CHR 27"

definition sgr :: "string \<Rightarrow> string" where
  "sgr code = ESC # CHR ''['' # code @ ''m''"

definition ansiReset :: string where "ansiReset = sgr ''0''"
definition ansiBold :: string where "ansiBold = sgr ''1''"
definition ansiDim :: string where "ansiDim = sgr ''2''"
definition ansiRed :: string where "ansiRed = sgr ''31''"
definition ansiCyan :: string where "ansiCyan = sgr ''36''"
definition ansiBoldRed :: string where "ansiBoldRed = sgr ''1;31''"
definition ansiBoldGreen :: string where "ansiBoldGreen = sgr ''1;32''"
definition ansiBoldYellow :: string where "ansiBoldYellow = sgr ''1;33''"
definition ansiBoldCyan :: string where "ansiBoldCyan = sgr ''1;36''"

definition levelColor :: "level \<Rightarrow> string" where
  "levelColor l =
     (if l \<ge> LevelError then ansiBoldRed
      else if l \<ge> LevelWarn then ansiBoldYellow
      else if l \<ge> LevelInfo then ansiBoldGreen
      else ansiBoldCyan)"

section \<open>The text handler\<close>

text \<open>
  A value after \<^verbatim>\<open>Resolve\<close>. \<open>VError\<close> and \<open>VAny\<close> are of kind Any, an error with its text and any
  other value with what \<^verbatim>\<open>fmt.Sprint\<close> prints; \<open>VNil\<close> is the nil value; \<open>VOther\<close> is a value of any
  other kind with its \<^verbatim>\<open>String()\<close>.
\<close>

datatype slog_value =
    VString string
  | VInt64 go_int
  | VUint64 "64 word"
  | VFloat64 float64
  | VBool bool
  | VDuration duration
  | VTime int
  | VError string
  | VAny string
  | VNil
  | VOther string

type_synonym attr = "string \<times> slog_value"

record formats =
  fm_clock :: "int \<Rightarrow> string"
  fm_float :: "float64 \<Rightarrow> string"
  fm_duration :: "duration \<Rightarrow> string"
  fm_rfc3339 :: "int \<Rightarrow> string"
  fm_quote :: "string \<Rightarrow> string"

definition LogFieldRequestID :: string where "LogFieldRequestID = ''request_id''"

text \<open>The names of the other standard fields.\<close>

definition log_fields :: "string list" where
  "log_fields =
     [''user_id'', ''group_id'', ''account_id'', ''api_key_id'', ''plugin_id'', ''model'', ''platform'',
      ''status_code'', ''duration_ms'', ''error'', ''method'', ''path'', ''reason'']"

lemma log_fields_distinct: "distinct (LogFieldRequestID # log_fields)"
  by code_simp

definition needs_quote :: "char \<Rightarrow> bool" where
  "needs_quote c \<longleftrightarrow> of_char c \<le> (32 :: nat) \<or> c = CHR 34 \<or> c = CHR ''=''"

definition quoteIfNeeded :: "formats \<Rightarrow> string \<Rightarrow> string" where
  "quoteIfNeeded fm s =
     (if s = [] then [CHR 34, CHR 34]
      else if list_ex needs_quote s then fm_quote fm s
      else s)"

definition writeColored :: "bool \<Rightarrow> string \<Rightarrow> string \<Rightarrow> string" where
  "writeColored colored color s =
     (if \<not> colored \<or> color = [] then s else color @ s @ ansiReset)"

fun writeValue :: "formats \<Rightarrow> slog_value \<Rightarrow> bool \<Rightarrow> string \<Rightarrow> string" where
  "writeValue fm (VString s) colored key =
     (if colored \<and> key = LogFieldRequestID \<and> s \<noteq> []
      then ansiCyan @ quoteIfNeeded fm s @ ansiReset
      else quoteIfNeeded fm s)"
| "writeValue fm (VInt64 n) colored key = FormatInt n"
| "writeValue fm (VUint64 n) colored key = FormatUint n"
| "writeValue fm (VFloat64 x) colored key = fm_float fm x"
| "writeValue fm (VBool b) colored key = (if b then ''true'' else ''false'')"
| "writeValue fm (VDuration d) colored key = fm_duration fm d"
| "writeValue fm (VTime t) colored key = fm_rfc3339 fm t"
| "writeValue fm (VError s) colored key =
     (if colored then ansiRed @ quoteIfNeeded fm s @ ansiReset else quoteIfNeeded fm s)"
| "writeValue fm (VAny s) colored key = quoteIfNeeded fm s"
| "writeValue fm VNil colored key = quoteIfNeeded fm ''<nil>''"
| "writeValue fm (VOther s) colored key = quoteIfNeeded fm s"

definition writeAttr :: "formats \<Rightarrow> attr \<Rightarrow> bool \<Rightarrow> string" where
  "writeAttr fm a colored =
     (if a = ([], VNil) then []
      else
        '' '' @ (if colored then ansiDim @ fst a @ ansiReset else fst a) @ ''='' @
        writeValue fm (snd a) colored (fst a))"

record prettyHandler =
  ph_minLevel :: level
  ph_color :: bool
  ph_attrs :: "attr list"

record slog_record =
  sr_Time :: int
  sr_Level :: level
  sr_Message :: string
  sr_Attrs :: "attr list"

definition newPrettyHandler :: "level \<Rightarrow> bool \<Rightarrow> prettyHandler" where
  "newPrettyHandler lvl color = \<lparr>ph_minLevel = lvl, ph_color = color, ph_attrs = []\<rparr>"

definition ph_Enabled :: "prettyHandler \<Rightarrow> level \<Rightarrow> bool" where
  "ph_Enabled h l \<longleftrightarrow> l \<ge> ph_minLevel h"

definition ph_WithAttrs :: "attr list \<Rightarrow> prettyHandler \<Rightarrow> prettyHandler" where
  "ph_WithAttrs attrs h =
     (if length attrs = 0 then h else h\<lparr>ph_attrs := ph_attrs h @ attrs\<rparr>)"

definition ph_WithGroup :: "string \<Rightarrow> prettyHandler \<Rightarrow> prettyHandler" where
  "ph_WithGroup name h = h"

text \<open>The line \<^verbatim>\<open>Handle\<close> writes.\<close>

definition ph_Handle :: "formats \<Rightarrow> prettyHandler \<Rightarrow> slog_record \<Rightarrow> string" where
  "ph_Handle fm h r =
     (let tsRaw = fm_clock fm (sr_Time r) in
      writeColored (ph_color h) ansiDim tsRaw @ '' '' @
      writeColored (ph_color h) (levelColor (sr_Level r)) (levelLabel (sr_Level r)) @ '' '' @
      writeColored (ph_color h) ansiBold (sr_Message r) @
      concat (map (\<lambda>a. writeAttr fm a (ph_color h)) (ph_attrs h)) @
      concat (map (\<lambda>a. writeAttr fm a (ph_color h)) (sr_Attrs r)) @
      [CHR 10])"

text \<open>
  \<^verbatim>\<open>shouldColor\<close>: the two environment variables and the mode of standard output, when \<^verbatim>\<open>Stat\<close>
  gives it.
\<close>

definition shouldColor :: "string \<Rightarrow> string \<Rightarrow> bool option \<Rightarrow> bool" where
  "shouldColor no_color term char_device =
     (if no_color \<noteq> [] then False
      else if term = ''dumb'' then False
      else (case char_device of None \<Rightarrow> False | Some b \<Rightarrow> b))"

section \<open>The global logger\<close>

text \<open>The handler behind \<^verbatim>\<open>slog.Default()\<close> and the format \<^verbatim>\<open>InitLogger\<close> remembers.\<close>

datatype log_handler =
    Pretty prettyHandler
  | JSONHandler level "attr list"

definition InitLogger :: "string \<Rightarrow> string \<Rightarrow> string \<Rightarrow> bool \<Rightarrow> log_handler \<times> string" where
  "InitLogger module level format colored =
     (let lvl = parseLevel level;
          format = (if format = [] then ''text'' else format);
          attrs = [(''module'', VString module)]
      in (if format = ''json'' then JSONHandler lvl attrs
          else Pretty (ph_WithAttrs attrs (newPrettyHandler lvl colored)), format))"

definition LogFormat :: "string \<Rightarrow> string" where
  "LogFormat currentFormat = (if currentFormat = [] then ''text'' else currentFormat)"

section \<open>Several handlers\<close>

text \<open>\<^verbatim>\<open>multiHandler\<close> over any handlers; \<open>hd_Handle\<close> gives what one of them writes.\<close>

record 'h handler_ops =
  hd_Enabled :: "'h \<Rightarrow> level \<Rightarrow> bool"
  hd_Handle :: "'h \<Rightarrow> slog_record \<Rightarrow> string"
  hd_WithAttrs :: "attr list \<Rightarrow> 'h \<Rightarrow> 'h"
  hd_WithGroup :: "string \<Rightarrow> 'h \<Rightarrow> 'h"

definition mh_Enabled :: "'h handler_ops \<Rightarrow> 'h list \<Rightarrow> level \<Rightarrow> bool" where
  "mh_Enabled ops hs l \<longleftrightarrow> list_ex (\<lambda>h. hd_Enabled ops h l) hs"

definition mh_Handle :: "'h handler_ops \<Rightarrow> 'h list \<Rightarrow> slog_record \<Rightarrow> string option list" where
  "mh_Handle ops hs r =
     map (\<lambda>h. if hd_Enabled ops h (sr_Level r) then Some (hd_Handle ops h r) else None) hs"

definition mh_WithAttrs :: "'h handler_ops \<Rightarrow> attr list \<Rightarrow> 'h list \<Rightarrow> 'h list" where
  "mh_WithAttrs ops attrs hs = map (hd_WithAttrs ops attrs) hs"

definition mh_WithGroup :: "'h handler_ops \<Rightarrow> string \<Rightarrow> 'h list \<Rightarrow> 'h list" where
  "mh_WithGroup ops name hs = map (hd_WithGroup ops name) hs"

text \<open>A record is written by some handler exactly when \<^verbatim>\<open>Enabled\<close> says so.\<close>

lemma mh_Handle_Enabled:
  "mh_Enabled ops hs (sr_Level r) \<longleftrightarrow> list_ex (\<lambda>w. w \<noteq> None) (mh_Handle ops hs r)"
  by (induction hs) (auto simp: mh_Enabled_def mh_Handle_def)

section \<open>Lemmas: a line\<close>

text \<open>
  What the code relies on of the library's formatting: no control characters in what it prints.
  \<^verbatim>\<open>strconv.Quote\<close> escapes them.
\<close>

definition is_control :: "char \<Rightarrow> bool" where
  "is_control c \<longleftrightarrow> of_char c < (32 :: nat)"

definition clean :: "string \<Rightarrow> bool" where
  "clean s \<longleftrightarrow> \<not> list_ex is_control s"

definition clean_formats :: "formats \<Rightarrow> bool" where
  "clean_formats fm \<longleftrightarrow>
     (\<forall>t. clean (fm_clock fm t)) \<and> (\<forall>x. clean (fm_float fm x)) \<and>
     (\<forall>d. clean (fm_duration fm d)) \<and> (\<forall>t. clean (fm_rfc3339 fm t)) \<and>
     (\<forall>s. clean (fm_quote fm s))"

text \<open>Dropping the escape sequences of a text.\<close>

fun strip_ansi :: "bool \<Rightarrow> string \<Rightarrow> string" where
  "strip_ansi inside [] = []"
| "strip_ansi False (c # cs) = (if c = ESC then strip_ansi True cs else c # strip_ansi False cs)"
| "strip_ansi True (c # cs) = strip_ansi (c \<noteq> CHR ''m'') cs"

lemma clean_simps [simp]:
  "clean []" "clean (c # s) \<longleftrightarrow> \<not> is_control c \<and> clean s"
  "clean (a @ b) \<longleftrightarrow> clean a \<and> clean b"
  by (auto simp: clean_def)

lemma clean_quoteIfNeeded: "clean_formats fm \<Longrightarrow> clean (quoteIfNeeded fm s)"
  by (auto simp: quoteIfNeeded_def clean_formats_def clean_def list_ex_iff needs_quote_def
      is_control_def)

lemma is_digit_clean: "is_digit c \<Longrightarrow> \<not> is_control c"
  by (simp add: is_digit_def is_control_def)

lemma clean_decimal [simp]: "clean (decimal n)"
  using decimal_digits [of n] is_digit_clean by (auto simp: clean_def list_all_iff list_ex_iff)

lemma clean_writeValue: "clean_formats fm \<Longrightarrow> clean (writeValue fm v False key)"
  by (cases v)
    (simp_all add: clean_quoteIfNeeded FormatInt_def FormatUint_def is_control_def,
      simp_all add: clean_formats_def)

lemma strip_clean [simp]: "clean s \<Longrightarrow> strip_ansi False (s @ t) = s @ strip_ansi False t"
  by (induction s) (auto simp: ESC_def is_control_def)

lemma strip_sgr: "list_all (\<lambda>c. c \<noteq> CHR ''m'') code \<Longrightarrow>
  strip_ansi False (sgr code @ t) = strip_ansi False t"
proof -
  assume "list_all (\<lambda>c. c \<noteq> CHR ''m'') code"
  then have "strip_ansi True (code @ ''m'' @ t) = strip_ansi False t"
    by (induction code) auto
  then show ?thesis by (simp add: sgr_def)
qed

lemma strip_colors [simp]:
  "strip_ansi False (ansiReset @ t) = strip_ansi False t"
  "strip_ansi False (ansiBold @ t) = strip_ansi False t"
  "strip_ansi False (ansiDim @ t) = strip_ansi False t"
  "strip_ansi False (ansiRed @ t) = strip_ansi False t"
  "strip_ansi False (ansiCyan @ t) = strip_ansi False t"
  "strip_ansi False (levelColor l @ t) = strip_ansi False t"
  by (simp_all add: ansiReset_def ansiBold_def ansiDim_def ansiRed_def ansiCyan_def levelColor_def
      ansiBoldRed_def ansiBoldGreen_def ansiBoldYellow_def ansiBoldCyan_def strip_sgr)

lemma strip_writeColored:
  "clean s \<Longrightarrow> (\<And>u. strip_ansi False (color @ u) = strip_ansi False u) \<Longrightarrow>
   strip_ansi False (writeColored b color s @ t) = s @ strip_ansi False t"
  by (simp add: writeColored_def)

lemma strip_writeValue:
  assumes "clean_formats fm"
  shows "strip_ansi False (writeValue fm v b key @ t) =
           writeValue fm v False key @ strip_ansi False t"
proof (cases b)
  case True
  then show ?thesis
    using assms clean_writeValue [OF assms, of v key] by (cases v) (auto simp: clean_quoteIfNeeded)
next
  case False
  then show ?thesis using clean_writeValue [OF assms] by simp
qed

lemma strip_writeAttr:
  assumes "clean_formats fm" and "clean (fst a)"
  shows "strip_ansi False (writeAttr fm a b @ t) = writeAttr fm a False @ strip_ansi False t"
  using assms
  by (auto simp: writeAttr_def strip_writeValue ESC_def)

lemma strip_attrs:
  "clean_formats fm \<Longrightarrow> list_all (clean \<circ> fst) as \<Longrightarrow>
   strip_ansi False (concat (map (\<lambda>a. writeAttr fm a b) as) @ t) =
     concat (map (\<lambda>a. writeAttr fm a False) as) @ strip_ansi False t"
  by (induction as) (simp_all add: strip_writeAttr)

lemma clean_attrs:
  "clean_formats fm \<Longrightarrow> list_all (clean \<circ> fst) as \<Longrightarrow>
   clean (concat (map (\<lambda>a. writeAttr fm a False) as))"
  by (induction as) (auto simp: writeAttr_def clean_writeValue is_control_def)

lemma clean_levelLabel [simp]: "clean (levelLabel l)"
  by (simp add: levelLabel_def is_control_def)

section \<open>Loggers and contexts\<close>

text \<open>
  A logger is its handler. A context holds a logger, a request id, the metadata of an incoming
  call (what its \<^verbatim>\<open>Get\<close> answers for a key) and the metadata an outgoing call will send, as pairs.
\<close>

record go_ctx =
  cx_logger :: "prettyHandler option"
  cx_request_id :: "string option"
  cx_incoming :: "(string \<Rightarrow> string list) option"
  cx_outgoing :: "(string \<times> string) list"

definition WithLogger :: "prettyHandler option \<Rightarrow> go_ctx \<Rightarrow> go_ctx" where
  "WithLogger logger ctx =
     (case logger of None \<Rightarrow> ctx | Some l \<Rightarrow> ctx\<lparr>cx_logger := Some l\<rparr>)"

text \<open>\<open>dflt\<close> is \<^verbatim>\<open>slog.Default()\<close>.\<close>

definition LoggerFromContext :: "prettyHandler \<Rightarrow> go_ctx option \<Rightarrow> prettyHandler" where
  "LoggerFromContext dflt ctx =
     (case ctx of
        None \<Rightarrow> dflt
      | Some c \<Rightarrow> (case cx_logger c of Some l \<Rightarrow> l | None \<Rightarrow> dflt))"

definition WithRequestID :: "string \<Rightarrow> go_ctx \<Rightarrow> go_ctx" where
  "WithRequestID rid ctx = (if rid = [] then ctx else ctx\<lparr>cx_request_id := Some rid\<rparr>)"

definition RequestIDFromContext :: "go_ctx option \<Rightarrow> string" where
  "RequestIDFromContext ctx =
     (case ctx of
        None \<Rightarrow> []
      | Some c \<Rightarrow> (case cx_request_id c of Some rid \<Rightarrow> rid | None \<Rightarrow> []))"

text \<open>\<open>uuid\<close> is the fresh id of \<^verbatim>\<open>uuid.NewString()\<close>; a nil header map is \<open>None\<close>.\<close>

definition ExtractOrGenerateRequestID :: "string \<Rightarrow> header option \<Rightarrow> string" where
  "ExtractOrGenerateRequestID uuid headers =
     (case headers of
        None \<Rightarrow> uuid
      | Some h \<Rightarrow>
          (let rid = TrimSpace (HeaderGet h ''X-Request-ID'') in
           if rid \<noteq> [] then rid else uuid))"

definition LoggerWithRequestID ::
  "prettyHandler \<Rightarrow> string \<Rightarrow> go_ctx \<Rightarrow> go_ctx \<times> prettyHandler" where
  "LoggerWithRequestID dflt uuid ctx =
     (let rid = RequestIDFromContext (Some ctx);
          (rid, ctx) = (if rid = [] then (uuid, WithRequestID uuid ctx) else (rid, ctx));
          logger = ph_WithAttrs [(LogFieldRequestID, VString rid)]
                     (LoggerFromContext dflt (Some ctx))
      in (WithLogger (Some logger) ctx, logger))"

section \<open>The interceptors\<close>

definition MetadataRequestIDKey :: string where
  "MetadataRequestIDKey = ''x-request-id''"

definition appendRequestIDToOutgoing :: "go_ctx \<Rightarrow> go_ctx" where
  "appendRequestIDToOutgoing ctx =
     (let rid = RequestIDFromContext (Some ctx) in
      if rid = [] then ctx
      else ctx\<lparr>cx_outgoing := cx_outgoing ctx @ [(MetadataRequestIDKey, rid)]\<rparr>)"

definition injectRequestIDFromIncoming :: "go_ctx \<Rightarrow> go_ctx" where
  "injectRequestIDFromIncoming ctx =
     (case cx_incoming ctx of
        None \<Rightarrow> ctx
      | Some md \<Rightarrow>
          (case md MetadataRequestIDKey of
             [] \<Rightarrow> ctx
           | v # _ \<Rightarrow> if v = [] then ctx else WithRequestID v ctx))"

fun status_code :: "go_error \<Rightarrow> string" where
  "status_code (ErrStatus c _) = code_text c"
| "status_code (ErrWrap _ e) = status_code e"
| "status_code _ = ''Unknown''"

definition codeOf :: "go_error option \<Rightarrow> string" where
  "codeOf err = (case err of None \<Rightarrow> ''OK'' | Some e \<Rightarrow> status_code e)"

text \<open>One call of a logger: itself, the level, the message and the attributes of the record.\<close>

type_synonym log_call = "prettyHandler \<times> level \<times> string \<times> attr list"

definition call_failed :: "string \<Rightarrow> go_int \<Rightarrow> go_error \<Rightarrow> prettyHandler \<Rightarrow> log_call" where
  "call_failed msg dur e logger =
     (logger, LevelError, msg,
      [(''duration_ms'', VInt64 dur), (''grpc_code'', VString (codeOf (Some e))),
       (''error'', VError (error_text e))])"

text \<open>
  The four interceptors around what they wrap, with the log calls in order. \<open>short\<close> is the base
  of the method's name, \<open>dur\<close> the milliseconds the call took, \<open>target\<close> the connection's.
\<close>

definition LoggingUnaryClientInterceptor ::
  "prettyHandler \<Rightarrow> string \<Rightarrow> string \<Rightarrow> go_int \<Rightarrow> (go_ctx \<Rightarrow> go_error option) \<Rightarrow> go_ctx
     \<Rightarrow> go_error option \<times> log_call list" where
  "LoggingUnaryClientInterceptor dflt short target dur invoker ctx =
     (let ctx = appendRequestIDToOutgoing ctx;
          logger = ph_WithAttrs [(''grpc_method'', VString short), (''grpc_target'', VString target)]
                     (LoggerFromContext dflt (Some ctx));
          started = (logger, LevelDebug, ''grpc_call_start'', [])
      in case invoker ctx of
           Some e \<Rightarrow> (Some e, [started, call_failed ''grpc_call_failed'' dur e logger])
         | None \<Rightarrow>
             (None, [started,
               (logger, LevelDebug, ''grpc_call_completed'', [(''duration_ms'', VInt64 dur)])]))"

definition LoggingStreamClientInterceptor ::
  "prettyHandler \<Rightarrow> string \<Rightarrow> string \<Rightarrow> go_int \<Rightarrow> (go_ctx \<Rightarrow> go_error + 's) \<Rightarrow> go_ctx
     \<Rightarrow> (go_error + 's) \<times> log_call list" where
  "LoggingStreamClientInterceptor dflt short target dur streamer ctx =
     (let ctx = appendRequestIDToOutgoing ctx;
          logger = ph_WithAttrs [(''grpc_method'', VString short), (''grpc_target'', VString target),
                     (''grpc_stream'', VBool True)] (LoggerFromContext dflt (Some ctx));
          started = (logger, LevelDebug, ''grpc_stream_start'', [])
      in case streamer ctx of
           Inl e \<Rightarrow> (Inl e, [started, call_failed ''grpc_stream_failed'' dur e logger])
         | Inr s \<Rightarrow> (Inr s, [started]))"

definition LoggingUnaryServerInterceptor ::
  "prettyHandler \<Rightarrow> string \<Rightarrow> go_int \<Rightarrow> (go_ctx \<Rightarrow> 'r \<times> go_error option) \<Rightarrow> go_ctx
     \<Rightarrow> ('r \<times> go_error option) \<times> log_call list" where
  "LoggingUnaryServerInterceptor dflt short dur handler ctx =
     (let ctx = injectRequestIDFromIncoming ctx;
          logger = ph_WithAttrs [(''grpc_method'', VString short)]
                     (LoggerFromContext dflt (Some ctx));
          started = (logger, LevelDebug, ''grpc_server_handle_start'', []);
          ctx = WithLogger (Some logger) ctx
      in case handler ctx of
           (resp, Some e) \<Rightarrow>
             ((resp, Some e), [started, call_failed ''grpc_server_handle_failed'' dur e logger])
         | (resp, None) \<Rightarrow>
             ((resp, None), [started,
               (logger, LevelDebug, ''grpc_server_handle_completed'',
                [(''duration_ms'', VInt64 dur)])]))"

definition LoggingStreamServerInterceptor ::
  "prettyHandler \<Rightarrow> string \<Rightarrow> go_int \<Rightarrow> (go_ctx \<Rightarrow> go_error option) \<Rightarrow> go_ctx
     \<Rightarrow> go_error option \<times> log_call list" where
  "LoggingStreamServerInterceptor dflt short dur handler ctx =
     (let ctx = injectRequestIDFromIncoming ctx;
          logger = ph_WithAttrs [(''grpc_method'', VString short), (''grpc_stream'', VBool True)]
                     (LoggerFromContext dflt (Some ctx));
          started = (logger, LevelDebug, ''grpc_server_stream_start'', [])
      in case handler (WithLogger (Some logger) ctx) of
           Some e \<Rightarrow> (Some e, [started, call_failed ''grpc_server_stream_failed'' dur e logger])
         | None \<Rightarrow>
             (None, [started,
               (logger, LevelDebug, ''grpc_server_stream_completed'',
                [(''duration_ms'', VInt64 dur)])]))"

text \<open>
  What the code relies on of gRPC: the metadata of the call arrives, each key with its values in
  the order they were appended.
\<close>

definition delivers_metadata :: "(string \<times> string) list \<Rightarrow> (string \<Rightarrow> string list) \<Rightarrow> bool" where
  "delivers_metadata out md \<longleftrightarrow>
     (\<forall>k. md k = map snd (filter (\<lambda>p. fst p = k) out))"

section \<open>Properties\<close>

text \<open>
  C39: A log line is one line whatever the values logged are. The text handler's line without
  colours ends in its only control character, the newline, as long as the message and the keys
  have none, so no value can forge a second line; and the coloured line is the same text once its
  escape sequences are dropped.
\<close>

theorem log_line_safe:
  assumes "clean_formats fm" and "clean (sr_Message r)"
    and "list_all (clean \<circ> fst) (ph_attrs h @ sr_Attrs r)"
  shows "strip_ansi False (ph_Handle fm h r) = ph_Handle fm (h\<lparr>ph_color := False\<rparr>) r \<and>
         (\<exists>s. clean s \<and> ph_Handle fm (h\<lparr>ph_color := False\<rparr>) r = s @ [CHR 10])"
proof
  have clock: "clean (fm_clock fm t)" for t
    using assms(1) by (simp add: clean_formats_def)
  note parts = strip_writeColored strip_attrs [OF assms(1)] clock assms(2)
  have space: "strip_ansi False ('' '' @ t) = '' '' @ strip_ansi False t" for t
    by (simp add: ESC_def)
  have plain: "writeColored False c s = s" for c s
    by (simp add: writeColored_def)
  show "strip_ansi False (ph_Handle fm h r) = ph_Handle fm (h\<lparr>ph_color := False\<rparr>) r"
    using assms(3)
    by (simp only: ph_Handle_def Let_def list_all_append parts space clean_levelLabel strip_colors
        prettyHandler.simps prettyHandler.update_convs plain) (simp add: ESC_def plain)
  show "\<exists>s. clean s \<and> ph_Handle fm (h\<lparr>ph_color := False\<rparr>) r = s @ [CHR 10]"
    using assms clock
    by (intro exI [of _ "butlast (ph_Handle fm (h\<lparr>ph_color := False\<rparr>) r)"])
      (simp add: ph_Handle_def Let_def plain clean_attrs is_control_def butlast_append)
qed

definition sample_formats :: formats where
  "sample_formats =
     \<lparr>fm_clock = (\<lambda>_. ''12:00:00.000''), fm_float = (\<lambda>_. ''0''), fm_duration = (\<lambda>_. ''1s''),
      fm_rfc3339 = (\<lambda>_. ''2024-01-01T00:00:00Z''), fm_quote = (\<lambda>_. [CHR 34, CHR 63, CHR 34])\<rparr>"

definition sample_record :: slog_record where
  "sample_record =
     \<lparr>sr_Time = 0, sr_Level = LevelError, sr_Message = ''upstream failed'',
      sr_Attrs = [(''error'', VError ''boom\<newline>ERROR forged'')]\<rparr>"

lemma log_line_safe_witness:
  "strip_ansi False (ph_Handle sample_formats (newPrettyHandler LevelInfo True) sample_record) =
     ph_Handle sample_formats (newPrettyHandler LevelInfo False) sample_record \<and>
   list_ex is_control ''boom\<newline>ERROR forged''"
proof -
  have "clean_formats sample_formats" "clean (sr_Message sample_record)"
    by (simp_all add: clean_formats_def sample_formats_def sample_record_def is_control_def)
  moreover have "list_all (clean \<circ> fst)
      (ph_attrs (newPrettyHandler LevelInfo True) @ sr_Attrs sample_record)"
    by (simp add: newPrettyHandler_def sample_record_def is_control_def)
  ultimately show ?thesis
    using log_line_safe [of sample_formats sample_record "newPrettyHandler LevelInfo True"]
    by (simp add: newPrettyHandler_def is_control_def)
qed

text \<open>
  C38: The request id crosses the boundary, but not into the log. A call made with a request id in
  its context, and none in its metadata yet, is handled on the other side with that id in the
  context; the call's own result is what the handler returns. The logger the handler finds in its
  context, and the one the interceptor logs with, has the attributes of the surrounding logger
  and the method's name only, so the handler's lines do not carry the request id.
\<close>

theorem request_id_crosses:
  assumes "RequestIDFromContext (Some ctx) = rid" and "rid \<noteq> []"
    and "list_all (\<lambda>p. fst p \<noteq> MetadataRequestIDKey) (cx_outgoing ctx)"
    and "delivers_metadata (cx_outgoing (appendRequestIDToOutgoing ctx)) md"
    and "cx_incoming srv = Some md"
    and "logger = ph_WithAttrs [(''grpc_method'', VString short)]
                    (LoggerFromContext dflt (Some srv))"
  shows "fst (LoggingUnaryServerInterceptor dflt short dur handler srv) =
           handler (srv\<lparr>cx_request_id := Some rid, cx_logger := Some logger\<rparr>) \<and>
         list_all (\<lambda>(l, _). l = logger)
           (snd (LoggingUnaryServerInterceptor dflt short dur handler srv)) \<and>
         ph_attrs logger =
           ph_attrs (LoggerFromContext dflt (Some srv)) @ [(''grpc_method'', VString short)]"
proof -
  have "cx_outgoing (appendRequestIDToOutgoing ctx) =
      cx_outgoing ctx @ [(MetadataRequestIDKey, rid)]"
    using assms(1,2) by (simp add: appendRequestIDToOutgoing_def)
  moreover have "filter (\<lambda>p. fst p = MetadataRequestIDKey) (cx_outgoing ctx) = []"
    using assms(3) by (auto simp: list_all_iff filter_empty_conv)
  ultimately have "md MetadataRequestIDKey = [rid]"
    using assms(4) by (simp add: delivers_metadata_def)
  then have inject: "injectRequestIDFromIncoming srv = srv\<lparr>cx_request_id := Some rid\<rparr>"
    using assms(2,5) by (simp add: injectRequestIDFromIncoming_def WithRequestID_def)
  moreover have "LoggerFromContext dflt (Some (srv\<lparr>cx_request_id := Some rid\<rparr>)) =
      LoggerFromContext dflt (Some srv)"
    by (simp add: LoggerFromContext_def)
  ultimately show ?thesis
    using assms(6)
    by (simp add: LoggingUnaryServerInterceptor_def Let_def WithLogger_def ph_WithAttrs_def
        call_failed_def split: prod.split option.split)
qed

definition client_ctx :: go_ctx where
  "client_ctx =
     \<lparr>cx_logger = None, cx_request_id = Some ''r1'', cx_incoming = None, cx_outgoing = []\<rparr>"

definition server_ctx :: go_ctx where
  "server_ctx =
     \<lparr>cx_logger = None, cx_request_id = None,
      cx_incoming = Some (\<lambda>k. if k = MetadataRequestIDKey then [''r1''] else []),
      cx_outgoing = []\<rparr>"

lemma request_id_crosses_witness:
  "(let logger = ph_WithAttrs [(''grpc_method'', VString ''Forward'')]
                   (LoggerFromContext (newPrettyHandler LevelInfo False) (Some server_ctx))
    in fst (LoggingUnaryServerInterceptor (newPrettyHandler LevelInfo False) ''Forward'' 3
              (\<lambda>c. (RequestIDFromContext (Some c), None)) server_ctx) = (''r1'', None) \<and>
       \<not> list_ex (\<lambda>a. fst a = LogFieldRequestID) (ph_attrs logger))"
proof -
  have arrives: "delivers_metadata (cx_outgoing (appendRequestIDToOutgoing client_ctx))
      (\<lambda>k. if k = MetadataRequestIDKey then [''r1''] else [])"
    by (simp add: delivers_metadata_def appendRequestIDToOutgoing_def client_ctx_def Let_def
        RequestIDFromContext_def)
  have "RequestIDFromContext (Some client_ctx) = ''r1''" "cx_outgoing client_ctx = []"
    by (simp_all add: RequestIDFromContext_def client_ctx_def)
  then show ?thesis
    using request_id_crosses [where ctx = client_ctx and rid = "''r1''" and srv = server_ctx and
        short = "''Forward''" and dflt = "newPrettyHandler LevelInfo False" and dur = 3 and
        handler = "\<lambda>c. (RequestIDFromContext (Some c), None)", OF _ _ _ arrives _ refl]
    by (simp add: Let_def RequestIDFromContext_def server_ctx_def LoggerFromContext_def
        newPrettyHandler_def LogFieldRequestID_def)
qed

end
