(* ===== verification/Models.thy ===== *)
theory Models
  imports Prelude
begin

text \<open>
  What a gateway plugin declares of its models and routes: \<^verbatim>\<open>sdkgo/models.go\<close>.
\<close>

record ModelInfo =
  mi_ID :: string
  mi_Name :: string
  mi_ContextWindow :: go_int
  mi_MaxOutputTokens :: go_int
  mi_Capabilities :: "string list"
  mi_Metadata :: metadata

fun HasCapability :: "string list \<Rightarrow> string \<Rightarrow> bool" where
  "HasCapability [] cap = False"
| "HasCapability (c # cs) cap = (if c = cap then True else HasCapability cs cap)"

lemma HasCapability_set [simp]: "HasCapability cs cap \<longleftrightarrow> cap \<in> set cs"
  by (induction cs) auto

record RouteDefinition =
  ro_Method :: string
  ro_Path :: string
  ro_Description :: string
  ro_Metadata :: metadata

record CredentialField =
  cf_Key :: string
  cf_Label :: string
  cf_Type :: string
  cf_Required :: bool
  cf_Placeholder :: string
  cf_EditDisabled :: bool

record AccountType =
  acct_Key :: string
  acct_Label :: string
  acct_Description :: string
  acct_Fields :: "CredentialField list"

record FrontendPage =
  fp_Path :: string
  fp_Title :: string
  fp_Icon :: string
  fp_Description :: string
  fp_Audience :: string

record FrontendWidget =
  fw_Slot :: string
  fw_EntryFile :: string
  fw_Title :: string

section \<open>Standard names\<close>

definition ModelCaps :: "string list" where
  "ModelCaps =
     [''chat'', ''reasoning'', ''image_generation'', ''image_edit'', ''video_generation'',
      ''audio_generation'', ''tts'', ''stt'', ''code_execution'', ''embedding'']"

definition Slots :: "string list" where
  "Slots =
     [''account-identity'', ''account-create'', ''account-edit'', ''account-usage-window'',
      ''usage-metric-detail'', ''usage-cost-detail'']"

end
