(* ===== verification/Declarations.thy ===== *)
theory Declarations
  imports AccountPlan Dispatch Models Capability
begin

text \<open>
  What a plugin declares of itself and how it reaches the core: \<^verbatim>\<open>sdkgo/plugin.go\<close> and
  \<^verbatim>\<open>sdkgo/schema.go\<close>, \<^verbatim>\<open>GetInfo\<close> of \<^verbatim>\<open>runtimego/grpc/plugin_server.go\<close>, the cache and the
  decoding of \<^verbatim>\<open>InfoContext\<close> in \<^verbatim>\<open>runtimego/grpc/common.go\<close>, \<^verbatim>\<open>account_plan.go\<close> and \<^verbatim>\<open>schema.go\<close>.
  Every pair of conversions is a \<open>wire_codec\<close>.
\<close>

section \<open>What a plugin declares\<close>

record ConfigOption =
  co_Value :: string
  co_Label :: string

record ConfigField =
  cfg_Key :: string
  cfg_Label :: string
  cfg_Type :: string
  cfg_Required :: bool
  cfg_Default :: string
  cfg_Description :: string
  cfg_Placeholder :: string
  cfg_Options :: "ConfigOption list"

record PluginInfo =
  pi_ID :: string
  pi_Name :: string
  pi_Version :: string
  pi_SDKVersion :: string
  pi_Description :: string
  pi_Author :: string
  pi_Type :: PluginType
  pi_Dependencies :: "string list"
  pi_ConfigSchema :: "ConfigField list"
  pi_AccountTypes :: "AccountType list"
  pi_AccountPlans :: "AccountPlan list"
  pi_FrontendPages :: "FrontendPage list"
  pi_FrontendWidgets :: "FrontendWidget list"
  pi_InstructionPresets :: "string list"
  pi_Capabilities :: "Capability list"
  pi_DispatchDSL :: DispatchDSL
  pi_Metadata :: metadata
  pi_Priority :: go_int32

definition zero_PluginInfo :: PluginInfo where
  "zero_PluginInfo =
     \<lparr>pi_ID = [],
      pi_Name = [],
      pi_Version = [],
      pi_SDKVersion = [],
      pi_Description = [],
      pi_Author = [],
      pi_Type = [],
      pi_Dependencies = [],
      pi_ConfigSchema = [],
      pi_AccountTypes = [],
      pi_AccountPlans = [],
      pi_FrontendPages = [],
      pi_FrontendWidgets = [],
      pi_InstructionPresets = [],
      pi_Capabilities = [],
      pi_DispatchDSL = \<lparr>ds_Rules = []\<rparr>,
      pi_Metadata = [],
      pi_Priority = 0\<rparr>"

section \<open>Messages\<close>

text \<open>Repeated messages hold no nil entry, except where the code checks for one.\<close>

record ConfigFieldOptionProto =
  qo_Value :: string
  qo_Label :: string

record ConfigFieldProto =
  qc_Key :: string
  qc_Label :: string
  qc_Type :: string
  qc_Required :: bool
  qc_DefaultValue :: string
  qc_Description :: string
  qc_Placeholder :: string
  qc_Options :: "ConfigFieldOptionProto list"

record CredentialFieldProto =
  qf_Key :: string
  qf_Label :: string
  qf_Type :: string
  qf_Required :: bool
  qf_Placeholder :: string
  qf_EditDisabled :: bool

record AccountTypeProto =
  qa_Key :: string
  qa_Label :: string
  qa_Description :: string
  qa_Fields :: "CredentialFieldProto list"

record FrontendPageProto =
  qp_Path :: string
  qp_Title :: string
  qp_Icon :: string
  qp_Description :: string
  qp_Audience :: string

record FrontendWidgetProto =
  qw_Slot :: string
  qw_EntryFile :: string
  qw_Title :: string

record AccountPlanProto =
  ql_Key :: string
  ql_Label :: string
  ql_CredentialKey :: string
  ql_MatchMode :: string
  ql_Matches :: "string list"

record PluginInfoResponse =
  qi_Id :: string
  qi_Name :: string
  qi_Version :: string
  qi_SdkVersion :: string
  qi_Description :: string
  qi_Author :: string
  qi_Type :: string
  qi_Dependencies :: "string list"
  qi_ConfigSchema :: "ConfigFieldProto list"
  qi_AccountTypes :: "AccountTypeProto list"
  qi_AccountPlans :: "AccountPlanProto option list"
  qi_FrontendPages :: "FrontendPageProto list"
  qi_FrontendWidgets :: "FrontendWidgetProto list"
  qi_InstructionPresets :: "string list"
  qi_Capabilities :: "string list"
  qi_DispatchDsl :: "DispatchDSLProto option"
  qi_Metadata :: metadata
  qi_Priority :: go_int32

section \<open>Conversions\<close>

text \<open>The loops of \<^verbatim>\<open>GetInfo\<close> on the plugin's side and of \<^verbatim>\<open>InfoContext\<close> on the core's.\<close>

definition configOptionToProto :: "ConfigOption \<Rightarrow> ConfigFieldOptionProto" where
  "configOptionToProto x =
     \<lparr>qo_Value = co_Value x,
      qo_Label = co_Label x\<rparr>"

definition configOptionFromProto :: "ConfigFieldOptionProto \<Rightarrow> ConfigOption" where
  "configOptionFromProto x =
     \<lparr>co_Value = qo_Value x,
      co_Label = qo_Label x\<rparr>"

definition configFieldToProto :: "ConfigField \<Rightarrow> ConfigFieldProto" where
  "configFieldToProto x =
     \<lparr>qc_Key = cfg_Key x,
      qc_Label = cfg_Label x,
      qc_Type = cfg_Type x,
      qc_Required = cfg_Required x,
      qc_DefaultValue = cfg_Default x,
      qc_Description = cfg_Description x,
      qc_Placeholder = cfg_Placeholder x,
      qc_Options = map configOptionToProto (cfg_Options x)\<rparr>"

definition configFieldFromProto :: "ConfigFieldProto \<Rightarrow> ConfigField" where
  "configFieldFromProto x =
     \<lparr>cfg_Key = qc_Key x,
      cfg_Label = qc_Label x,
      cfg_Type = qc_Type x,
      cfg_Required = qc_Required x,
      cfg_Default = qc_DefaultValue x,
      cfg_Description = qc_Description x,
      cfg_Placeholder = qc_Placeholder x,
      cfg_Options = map configOptionFromProto (qc_Options x)\<rparr>"

definition credentialFieldToProto :: "CredentialField \<Rightarrow> CredentialFieldProto" where
  "credentialFieldToProto x =
     \<lparr>qf_Key = cf_Key x,
      qf_Label = cf_Label x,
      qf_Type = cf_Type x,
      qf_Required = cf_Required x,
      qf_Placeholder = cf_Placeholder x,
      qf_EditDisabled = cf_EditDisabled x\<rparr>"

definition credentialFieldFromProto :: "CredentialFieldProto \<Rightarrow> CredentialField" where
  "credentialFieldFromProto x =
     \<lparr>cf_Key = qf_Key x,
      cf_Label = qf_Label x,
      cf_Type = qf_Type x,
      cf_Required = qf_Required x,
      cf_Placeholder = qf_Placeholder x,
      cf_EditDisabled = qf_EditDisabled x\<rparr>"

definition accountTypeToProto :: "AccountType \<Rightarrow> AccountTypeProto" where
  "accountTypeToProto x =
     \<lparr>qa_Key = acct_Key x,
      qa_Label = acct_Label x,
      qa_Description = acct_Description x,
      qa_Fields = map credentialFieldToProto (acct_Fields x)\<rparr>"

definition accountTypeFromProto :: "AccountTypeProto \<Rightarrow> AccountType" where
  "accountTypeFromProto x =
     \<lparr>acct_Key = qa_Key x,
      acct_Label = qa_Label x,
      acct_Description = qa_Description x,
      acct_Fields = map credentialFieldFromProto (qa_Fields x)\<rparr>"

definition frontendPageToProto :: "FrontendPage \<Rightarrow> FrontendPageProto" where
  "frontendPageToProto x =
     \<lparr>qp_Path = fp_Path x,
      qp_Title = fp_Title x,
      qp_Icon = fp_Icon x,
      qp_Description = fp_Description x,
      qp_Audience = fp_Audience x\<rparr>"

definition frontendPageFromProto :: "FrontendPageProto \<Rightarrow> FrontendPage" where
  "frontendPageFromProto x =
     \<lparr>fp_Path = qp_Path x,
      fp_Title = qp_Title x,
      fp_Icon = qp_Icon x,
      fp_Description = qp_Description x,
      fp_Audience = qp_Audience x\<rparr>"

definition frontendWidgetToProto :: "FrontendWidget \<Rightarrow> FrontendWidgetProto" where
  "frontendWidgetToProto x =
     \<lparr>qw_Slot = fw_Slot x,
      qw_EntryFile = fw_EntryFile x,
      qw_Title = fw_Title x\<rparr>"

definition frontendWidgetFromProto :: "FrontendWidgetProto \<Rightarrow> FrontendWidget" where
  "frontendWidgetFromProto x =
     \<lparr>fw_Slot = qw_Slot x,
      fw_EntryFile = qw_EntryFile x,
      fw_Title = qw_Title x\<rparr>"

definition accountPlanToProto :: "AccountPlan \<Rightarrow> AccountPlanProto" where
  "accountPlanToProto x =
     \<lparr>ql_Key = ap_Key x,
      ql_Label = ap_Label x,
      ql_CredentialKey = ap_CredentialKey x,
      ql_MatchMode = ap_MatchMode x,
      ql_Matches = ap_Matches x\<rparr>"

definition accountPlanFromProto :: "AccountPlanProto \<Rightarrow> AccountPlan" where
  "accountPlanFromProto x =
     \<lparr>ap_Key = ql_Key x,
      ap_Label = ql_Label x,
      ap_CredentialKey = ql_CredentialKey x,
      ap_MatchMode = ql_MatchMode x,
      ap_Matches = ql_Matches x\<rparr>"

definition accountPlansToProto :: "AccountPlan list \<Rightarrow> AccountPlanProto option list" where
  "accountPlansToProto plans = map (\<lambda>p. Some (accountPlanToProto p)) plans"

definition accountPlansFromProto :: "AccountPlanProto option list \<Rightarrow> AccountPlan list" where
  "accountPlansFromProto plans = map accountPlanFromProto (non_nil plans)"

definition GetInfo :: "PluginInfo \<Rightarrow> PluginInfoResponse" where
  "GetInfo x =
     \<lparr>qi_Id = pi_ID x,
      qi_Name = pi_Name x,
      qi_Version = pi_Version x,
      qi_SdkVersion = pi_SDKVersion x,
      qi_Description = pi_Description x,
      qi_Author = pi_Author x,
      qi_Type = pi_Type x,
      qi_Dependencies = pi_Dependencies x,
      qi_ConfigSchema = map configFieldToProto (pi_ConfigSchema x),
      qi_AccountTypes = map accountTypeToProto (pi_AccountTypes x),
      qi_AccountPlans = accountPlansToProto (pi_AccountPlans x),
      qi_FrontendPages = map frontendPageToProto (pi_FrontendPages x),
      qi_FrontendWidgets = map frontendWidgetToProto (pi_FrontendWidgets x),
      qi_InstructionPresets = pi_InstructionPresets x,
      qi_Capabilities = pi_Capabilities x,
      qi_DispatchDsl = dispatchDSLToProto (pi_DispatchDSL x),
      qi_Metadata = pi_Metadata x,
      qi_Priority = pi_Priority x\<rparr>"

definition infoFromProto :: "PluginInfoResponse \<Rightarrow> PluginInfo" where
  "infoFromProto x =
     \<lparr>pi_ID = qi_Id x,
      pi_Name = qi_Name x,
      pi_Version = qi_Version x,
      pi_SDKVersion = qi_SdkVersion x,
      pi_Description = qi_Description x,
      pi_Author = qi_Author x,
      pi_Type = qi_Type x,
      pi_Dependencies = qi_Dependencies x,
      pi_ConfigSchema = map configFieldFromProto (qi_ConfigSchema x),
      pi_AccountTypes = map accountTypeFromProto (qi_AccountTypes x),
      pi_AccountPlans = accountPlansFromProto (qi_AccountPlans x),
      pi_FrontendPages = map frontendPageFromProto (qi_FrontendPages x),
      pi_FrontendWidgets = map frontendWidgetFromProto (qi_FrontendWidgets x),
      pi_InstructionPresets = qi_InstructionPresets x,
      pi_Capabilities = qi_Capabilities x,
      pi_DispatchDSL = dispatchDSLFromProto (qi_DispatchDsl x),
      pi_Metadata = qi_Metadata x,
      pi_Priority = qi_Priority x\<rparr>"

section \<open>The schema\<close>

record PayloadSchema =
  ys_ContentType :: string
  ys_Schema :: string
  ys_Example :: string
  ys_Metadata :: metadata

record RouteSchema =
  yr_Method :: string
  yr_Path :: string
  yr_Summary :: string
  yr_Request :: PayloadSchema
  yr_Response :: PayloadSchema
  yr_Metadata :: metadata

record TaskSchema =
  yt_Type :: string
  yt_Summary :: string
  yt_Input :: PayloadSchema
  yt_Output :: PayloadSchema
  yt_Metadata :: metadata

record EventSchema =
  ye_Type :: string
  ye_Source :: string
  ye_Summary :: string
  ye_Payload :: PayloadSchema
  ye_Metadata :: metadata

record InvokeSchema =
  yi_Method :: string
  yi_Summary :: string
  yi_Transport :: string
  yi_Request :: PayloadSchema
  yi_Response :: PayloadSchema
  yi_ClientFrame :: PayloadSchema
  yi_ServerFrame :: PayloadSchema
  yi_Metadata :: metadata

record PluginSchema =
  yp_Routes :: "RouteSchema list"
  yp_Tasks :: "TaskSchema list"
  yp_Events :: "EventSchema list"
  yp_Invokes :: "InvokeSchema list"
  yp_Metadata :: metadata

definition zero_PayloadSchema :: PayloadSchema where
  "zero_PayloadSchema = \<lparr>ys_ContentType = [], ys_Schema = [], ys_Example = [], ys_Metadata = []\<rparr>"

definition zero_PluginSchema :: PluginSchema where
  "zero_PluginSchema =
     \<lparr>yp_Routes = [], yp_Tasks = [], yp_Events = [], yp_Invokes = [], yp_Metadata = []\<rparr>"

record PayloadSchemaProto =
  zs_ContentType :: string
  zs_Schema :: string
  zs_Example :: string
  zs_Metadata :: metadata

record RouteSchemaProto =
  zr_Method :: string
  zr_Path :: string
  zr_Summary :: string
  zr_Request :: "PayloadSchemaProto option"
  zr_Response :: "PayloadSchemaProto option"
  zr_Metadata :: metadata

record TaskSchemaProto =
  zt_Type :: string
  zt_Summary :: string
  zt_Input :: "PayloadSchemaProto option"
  zt_Output :: "PayloadSchemaProto option"
  zt_Metadata :: metadata

record EventSchemaProto =
  ze_Type :: string
  ze_Source :: string
  ze_Summary :: string
  ze_Payload :: "PayloadSchemaProto option"
  ze_Metadata :: metadata

record InvokeSchemaProto =
  zi_Method :: string
  zi_Summary :: string
  zi_Transport :: string
  zi_Request :: "PayloadSchemaProto option"
  zi_Response :: "PayloadSchemaProto option"
  zi_ClientFrame :: "PayloadSchemaProto option"
  zi_ServerFrame :: "PayloadSchemaProto option"
  zi_Metadata :: metadata

record PluginSchemaResponse =
  zp_Routes :: "RouteSchemaProto list"
  zp_Tasks :: "TaskSchemaProto list"
  zp_Events :: "EventSchemaProto list"
  zp_Invokes :: "InvokeSchemaProto list"
  zp_Metadata :: metadata

definition payloadSchemaToProto :: "PayloadSchema \<Rightarrow> PayloadSchemaProto option" where
  "payloadSchemaToProto s =
     (if ys_ContentType s = [] \<and> ys_Schema s = [] \<and> ys_Example s = [] \<and> length (ys_Metadata s) = 0
      then None
      else
        Some \<lparr>zs_ContentType = ys_ContentType s, zs_Schema = ys_Schema s, zs_Example = ys_Example s,
              zs_Metadata = ys_Metadata s\<rparr>)"

definition payloadSchemaFromProto :: "PayloadSchemaProto option \<Rightarrow> PayloadSchema" where
  "payloadSchemaFromProto q =
     (case q of
        None \<Rightarrow> zero_PayloadSchema
      | Some p \<Rightarrow>
          \<lparr>ys_ContentType = zs_ContentType p, ys_Schema = zs_Schema p, ys_Example = zs_Example p,
           ys_Metadata = zs_Metadata p\<rparr>)"

definition routeSchemaToProto :: "RouteSchema \<Rightarrow> RouteSchemaProto" where
  "routeSchemaToProto x =
     \<lparr>zr_Method = yr_Method x,
      zr_Path = yr_Path x,
      zr_Summary = yr_Summary x,
      zr_Request = payloadSchemaToProto (yr_Request x),
      zr_Response = payloadSchemaToProto (yr_Response x),
      zr_Metadata = yr_Metadata x\<rparr>"

definition routeSchemaFromProto :: "RouteSchemaProto \<Rightarrow> RouteSchema" where
  "routeSchemaFromProto x =
     \<lparr>yr_Method = zr_Method x,
      yr_Path = zr_Path x,
      yr_Summary = zr_Summary x,
      yr_Request = payloadSchemaFromProto (zr_Request x),
      yr_Response = payloadSchemaFromProto (zr_Response x),
      yr_Metadata = zr_Metadata x\<rparr>"

definition taskSchemaToProto :: "TaskSchema \<Rightarrow> TaskSchemaProto" where
  "taskSchemaToProto x =
     \<lparr>zt_Type = yt_Type x,
      zt_Summary = yt_Summary x,
      zt_Input = payloadSchemaToProto (yt_Input x),
      zt_Output = payloadSchemaToProto (yt_Output x),
      zt_Metadata = yt_Metadata x\<rparr>"

definition taskSchemaFromProto :: "TaskSchemaProto \<Rightarrow> TaskSchema" where
  "taskSchemaFromProto x =
     \<lparr>yt_Type = zt_Type x,
      yt_Summary = zt_Summary x,
      yt_Input = payloadSchemaFromProto (zt_Input x),
      yt_Output = payloadSchemaFromProto (zt_Output x),
      yt_Metadata = zt_Metadata x\<rparr>"

definition eventSchemaToProto :: "EventSchema \<Rightarrow> EventSchemaProto" where
  "eventSchemaToProto x =
     \<lparr>ze_Type = ye_Type x,
      ze_Source = ye_Source x,
      ze_Summary = ye_Summary x,
      ze_Payload = payloadSchemaToProto (ye_Payload x),
      ze_Metadata = ye_Metadata x\<rparr>"

definition eventSchemaFromProto :: "EventSchemaProto \<Rightarrow> EventSchema" where
  "eventSchemaFromProto x =
     \<lparr>ye_Type = ze_Type x,
      ye_Source = ze_Source x,
      ye_Summary = ze_Summary x,
      ye_Payload = payloadSchemaFromProto (ze_Payload x),
      ye_Metadata = ze_Metadata x\<rparr>"

definition invokeSchemaToProto :: "InvokeSchema \<Rightarrow> InvokeSchemaProto" where
  "invokeSchemaToProto x =
     \<lparr>zi_Method = yi_Method x,
      zi_Summary = yi_Summary x,
      zi_Transport = yi_Transport x,
      zi_Request = payloadSchemaToProto (yi_Request x),
      zi_Response = payloadSchemaToProto (yi_Response x),
      zi_ClientFrame = payloadSchemaToProto (yi_ClientFrame x),
      zi_ServerFrame = payloadSchemaToProto (yi_ServerFrame x),
      zi_Metadata = yi_Metadata x\<rparr>"

definition invokeSchemaFromProto :: "InvokeSchemaProto \<Rightarrow> InvokeSchema" where
  "invokeSchemaFromProto x =
     \<lparr>yi_Method = zi_Method x,
      yi_Summary = zi_Summary x,
      yi_Transport = zi_Transport x,
      yi_Request = payloadSchemaFromProto (zi_Request x),
      yi_Response = payloadSchemaFromProto (zi_Response x),
      yi_ClientFrame = payloadSchemaFromProto (zi_ClientFrame x),
      yi_ServerFrame = payloadSchemaFromProto (zi_ServerFrame x),
      yi_Metadata = zi_Metadata x\<rparr>"

definition schemaToProto :: "PluginSchema \<Rightarrow> PluginSchemaResponse" where
  "schemaToProto s =
     \<lparr>zp_Routes = map routeSchemaToProto (yp_Routes s), zp_Tasks = map taskSchemaToProto (yp_Tasks s),
      zp_Events = map eventSchemaToProto (yp_Events s),
      zp_Invokes = map invokeSchemaToProto (yp_Invokes s), zp_Metadata = yp_Metadata s\<rparr>"

definition schemaFromProto :: "PluginSchemaResponse option \<Rightarrow> PluginSchema" where
  "schemaFromProto q =
     (case q of
        None \<Rightarrow> zero_PluginSchema
      | Some p \<Rightarrow>
          \<lparr>yp_Routes = map routeSchemaFromProto (zp_Routes p),
           yp_Tasks = map taskSchemaFromProto (zp_Tasks p),
           yp_Events = map eventSchemaFromProto (zp_Events p),
           yp_Invokes = map invokeSchemaFromProto (zp_Invokes p), yp_Metadata = zp_Metadata p\<rparr>)"

text \<open>The plugin's side: \<open>provider\<close> is \<open>None\<close> for a plugin without \<^verbatim>\<open>SchemaProvider\<close>. The core's side.\<close>

definition GetSchema :: "PluginSchema option \<Rightarrow> PluginSchemaResponse" where
  "GetSchema provider =
     (case provider of
        None \<Rightarrow> \<lparr>zp_Routes = [], zp_Tasks = [], zp_Events = [], zp_Invokes = [], zp_Metadata = []\<rparr>
      | Some s \<Rightarrow> schemaToProto s)"

definition Schema :: "go_error + PluginSchemaResponse \<Rightarrow> PluginSchema" where
  "Schema resp = (case resp of Inl _ \<Rightarrow> zero_PluginSchema | Inr p \<Rightarrow> schemaFromProto (Some p))"

section \<open>The core's cache\<close>

text \<open>\<^verbatim>\<open>pluginBase\<close>: the cached declaration, and the broker id handed to \<^verbatim>\<open>Init\<close>.\<close>

record pluginBase =
  pbs_cachedInfo :: "PluginInfo option"
  pbs_coreInvokeBrokerID :: "32 word"

text \<open>\<open>resp\<close> is what the RPC would answer; a cached declaration is returned without it.\<close>

definition InfoContext ::
  "go_error + PluginInfoResponse \<Rightarrow> pluginBase \<Rightarrow> (go_error + PluginInfo) \<times> pluginBase" where
  "InfoContext resp b =
     (case pbs_cachedInfo b of
        Some info \<Rightarrow> (Inr info, b)
      | None \<Rightarrow>
          (case resp of
             Inl e \<Rightarrow> (Inl e, b)
           | Inr r \<Rightarrow> (let info = infoFromProto r in (Inr info, b\<lparr>pbs_cachedInfo := Some info\<rparr>))))"

definition Info :: "go_error + PluginInfoResponse \<Rightarrow> pluginBase \<Rightarrow> PluginInfo \<times> pluginBase" where
  "Info resp b =
     (case InfoContext resp b of
        (Inl _, b) \<Rightarrow> (zero_PluginInfo, b)
      | (Inr info, b) \<Rightarrow> (info, b))"

definition invalidateInfoCache :: "pluginBase \<Rightarrow> pluginBase" where
  "invalidateInfoCache b = b\<lparr>pbs_cachedInfo := None\<rparr>"

definition pluginIDForLog :: "pluginBase \<Rightarrow> string" where
  "pluginIDForLog b = (case pbs_cachedInfo b of Some info \<Rightarrow> pi_ID info | None \<Rightarrow> [])"

section \<open>Lemmas: the codecs\<close>

interpretation option_codec: wire_codec configOptionToProto configOptionFromProto "\<lambda>x. x"
  by unfold_locales (simp_all add: configOptionToProto_def configOptionFromProto_def)

interpretation field_codec: wire_codec configFieldToProto configFieldFromProto "\<lambda>x. x"
  by unfold_locales
    (simp_all add: configFieldToProto_def configFieldFromProto_def option_codec.dec_enc comp_def)

interpretation credential_codec: wire_codec credentialFieldToProto credentialFieldFromProto "\<lambda>x. x"
  by unfold_locales (simp_all add: credentialFieldToProto_def credentialFieldFromProto_def)

interpretation account_type_codec: wire_codec accountTypeToProto accountTypeFromProto "\<lambda>x. x"
  by unfold_locales
    (simp_all add: accountTypeToProto_def accountTypeFromProto_def credential_codec.dec_enc comp_def)

interpretation page_codec: wire_codec frontendPageToProto frontendPageFromProto "\<lambda>x. x"
  by unfold_locales (simp_all add: frontendPageToProto_def frontendPageFromProto_def)

interpretation widget_codec: wire_codec frontendWidgetToProto frontendWidgetFromProto "\<lambda>x. x"
  by unfold_locales (simp_all add: frontendWidgetToProto_def frontendWidgetFromProto_def)

interpretation account_plan_codec: wire_codec accountPlanToProto accountPlanFromProto "\<lambda>x. x"
  by unfold_locales (simp_all add: accountPlanToProto_def accountPlanFromProto_def)

interpretation account_plans_codec: wire_codec accountPlansToProto accountPlansFromProto "\<lambda>x. x"
  by unfold_locales
    (simp_all add: accountPlansToProto_def accountPlansFromProto_def account_plan_codec.dec_enc
      comp_def)

definition info_view :: "PluginInfo \<Rightarrow> PluginInfo" where
  "info_view i = i\<lparr>pi_DispatchDSL := dsl_view (pi_DispatchDSL i)\<rparr>"

interpretation info_codec: wire_codec GetInfo infoFromProto info_view
  by unfold_locales
    (simp_all add: GetInfo_def infoFromProto_def info_view_def comp_def field_codec.dec_enc
      account_type_codec.dec_enc page_codec.dec_enc widget_codec.dec_enc
      account_plans_codec.dec_enc dsl_codec.dec_enc dsl_codec.enc_view)

interpretation payload_codec: wire_codec payloadSchemaToProto payloadSchemaFromProto "\<lambda>x. x"
  by unfold_locales
    (simp_all add: payloadSchemaToProto_def payloadSchemaFromProto_def zero_PayloadSchema_def)

lemmas payload_fields = payload_codec.dec_enc

interpretation route_schema_codec: wire_codec routeSchemaToProto routeSchemaFromProto "\<lambda>x. x"
  by unfold_locales (simp_all add: routeSchemaToProto_def routeSchemaFromProto_def payload_fields)

interpretation task_schema_codec: wire_codec taskSchemaToProto taskSchemaFromProto "\<lambda>x. x"
  by unfold_locales (simp_all add: taskSchemaToProto_def taskSchemaFromProto_def payload_fields)

interpretation event_schema_codec: wire_codec eventSchemaToProto eventSchemaFromProto "\<lambda>x. x"
  by unfold_locales (simp_all add: eventSchemaToProto_def eventSchemaFromProto_def payload_fields)

interpretation invoke_schema_codec: wire_codec invokeSchemaToProto invokeSchemaFromProto "\<lambda>x. x"
  by unfold_locales (simp_all add: invokeSchemaToProto_def invokeSchemaFromProto_def payload_fields)

interpretation schema_codec:
  wire_codec "schemaToProto" "\<lambda>p. schemaFromProto (Some p)" "\<lambda>x. x"
  by unfold_locales
    (simp_all add: schemaToProto_def schemaFromProto_def comp_def route_schema_codec.dec_enc
      task_schema_codec.dec_enc event_schema_codec.dec_enc invoke_schema_codec.dec_enc)

section \<open>Properties\<close>



end
