(* ===== verification/Catalog.thy ===== *)
theory Catalog
  imports Declarations
begin

text \<open>
  What the core knows of a gateway plugin's platform, models and routes, and how it gets it: the
  three getters of \<^verbatim>\<open>runtimego/grpc/gateway_server.go\<close>, \<^verbatim>\<open>convertModels\<close> of
  \<^verbatim>\<open>runtimego/grpc/common.go\<close>, the caches of \<^verbatim>\<open>runtimego/grpc/gateway_client.go\<close> and
  \<^verbatim>\<open>runtimego/grpc/catalog.go\<close>. An argument \<open>resp\<close> is what the RPC would answer.

  A getter takes the client's lock twice, to look the cache up and to store what the RPC answered,
  and not in between, so other calls can fall between its two steps: the steps are functions of
  their own.
\<close>

section \<open>The plugin's side\<close>

record ModelInfoProto =
  pmi_Id :: string
  pmi_Name :: string
  pmi_ContextWindow :: "64 word"
  pmi_MaxOutputTokens :: "64 word"
  pmi_Capabilities :: "string list"
  pmi_Metadata :: metadata

record RouteDefinitionProto =
  prd_Method :: string
  prd_Path :: string
  prd_Description :: string
  prd_Metadata :: metadata

record gateway_declares =
  gd_Platform :: string
  gd_Models :: "ModelInfo list"
  gd_Routes :: "RouteDefinition list"

definition GetPlatform :: "gateway_declares \<Rightarrow> string" where
  "GetPlatform impl = gd_Platform impl"

definition modelToProto :: "ModelInfo \<Rightarrow> ModelInfoProto" where
  "modelToProto m =
     \<lparr>pmi_Id = mi_ID m, pmi_Name = mi_Name m, pmi_ContextWindow = mi_ContextWindow m,
      pmi_MaxOutputTokens = mi_MaxOutputTokens m, pmi_Capabilities = mi_Capabilities m,
      pmi_Metadata = mi_Metadata m\<rparr>"

definition routeToProto :: "RouteDefinition \<Rightarrow> RouteDefinitionProto" where
  "routeToProto r =
     \<lparr>prd_Method = ro_Method r, prd_Path = ro_Path r, prd_Description = ro_Description r,
      prd_Metadata = ro_Metadata r\<rparr>"

definition GetModels :: "gateway_declares \<Rightarrow> ModelInfoProto list" where
  "GetModels impl = map modelToProto (gd_Models impl)"

definition GetRoutes :: "gateway_declares \<Rightarrow> RouteDefinitionProto list" where
  "GetRoutes impl = map routeToProto (gd_Routes impl)"

section \<open>The core's side\<close>

definition modelFromProto :: "ModelInfoProto \<Rightarrow> ModelInfo" where
  "modelFromProto m =
     \<lparr>mi_ID = pmi_Id m, mi_Name = pmi_Name m, mi_ContextWindow = pmi_ContextWindow m,
      mi_MaxOutputTokens = pmi_MaxOutputTokens m, mi_Capabilities = pmi_Capabilities m,
      mi_Metadata = pmi_Metadata m\<rparr>"

definition convertModels :: "ModelInfoProto list \<Rightarrow> ModelInfo list" where
  "convertModels pbModels = map modelFromProto pbModels"

definition routeFromProto :: "RouteDefinitionProto \<Rightarrow> RouteDefinition" where
  "routeFromProto r =
     \<lparr>ro_Method = prd_Method r, ro_Path = prd_Path r, ro_Description = prd_Description r,
      ro_Metadata = prd_Metadata r\<rparr>"

definition convertRoutes :: "RouteDefinitionProto list \<Rightarrow> RouteDefinition list" where
  "convertRoutes pbRoutes = map routeFromProto pbRoutes"

text \<open>A nil list is \<open>None\<close>; an empty platform counts as none.\<close>

record gateway_client =
  gc_base :: pluginBase
  gc_cachedPlatform :: string
  gc_cachedModels :: "ModelInfo list option"
  gc_cachedRoutes :: "RouteDefinition list option"

definition InvalidateCache :: "gateway_client \<Rightarrow> gateway_client" where
  "InvalidateCache c =
     c\<lparr>gc_cachedPlatform := [], gc_cachedModels := None, gc_cachedRoutes := None,
       gc_base := invalidateInfoCache (gc_base c)\<rparr>"

definition Platform_store :: "string \<Rightarrow> gateway_client \<Rightarrow> string \<times> gateway_client" where
  "Platform_store v c = (v, c\<lparr>gc_cachedPlatform := v\<rparr>)"

definition Platform :: "go_error + string \<Rightarrow> gateway_client \<Rightarrow> string \<times> gateway_client" where
  "Platform resp c =
     (if gc_cachedPlatform c \<noteq> [] then (gc_cachedPlatform c, c)
      else (case resp of Inl _ \<Rightarrow> ([], c) | Inr v \<Rightarrow> Platform_store v c))"

definition Models_store ::
  "ModelInfoProto list \<Rightarrow> gateway_client \<Rightarrow> ModelInfo list option \<times> gateway_client" where
  "Models_store ps c =
     (let models = convertModels ps in (Some models, c\<lparr>gc_cachedModels := Some models\<rparr>))"

definition Models ::
  "go_error + ModelInfoProto list \<Rightarrow> gateway_client
     \<Rightarrow> ModelInfo list option \<times> gateway_client" where
  "Models resp c =
     (case gc_cachedModels c of
        Some ms \<Rightarrow> (Some ms, c)
      | None \<Rightarrow> (case resp of Inl _ \<Rightarrow> (None, c) | Inr ps \<Rightarrow> Models_store ps c))"

definition Routes_store ::
  "RouteDefinitionProto list \<Rightarrow> gateway_client
     \<Rightarrow> RouteDefinition list option \<times> gateway_client" where
  "Routes_store ps c =
     (let routes = convertRoutes ps in (Some routes, c\<lparr>gc_cachedRoutes := Some routes\<rparr>))"

definition Routes ::
  "go_error + RouteDefinitionProto list \<Rightarrow> gateway_client
     \<Rightarrow> RouteDefinition list option \<times> gateway_client" where
  "Routes resp c =
     (case gc_cachedRoutes c of
        Some rs \<Rightarrow> (Some rs, c)
      | None \<Rightarrow> (case resp of Inl _ \<Rightarrow> (None, c) | Inr ps \<Rightarrow> Routes_store ps c))"

definition client_Catalog ::
  "go_error + string \<Rightarrow> go_error + ModelInfoProto list \<Rightarrow> go_error + RouteDefinitionProto list
     \<Rightarrow> gateway_client
     \<Rightarrow> (go_error + (string \<times> ModelInfo list \<times> RouteDefinition list)) \<times> gateway_client" where
  "client_Catalog p m r c =
     (case p of
        Inl e \<Rightarrow> (Inl e, c)
      | Inr pv \<Rightarrow>
          (case m of
             Inl e \<Rightarrow> (Inl e, c)
           | Inr ms \<Rightarrow>
               (case r of
                  Inl e \<Rightarrow> (Inl e, c)
                | Inr rs \<Rightarrow>
                    (let routes = convertRoutes rs; models = convertModels ms
                     in (Inr (pv, models, routes),
                         c\<lparr>gc_cachedPlatform := pv, gc_cachedModels := Some models,
                           gc_cachedRoutes := Some routes\<rparr>)))))"

section \<open>Lemmas\<close>

interpretation model_codec: wire_codec modelToProto modelFromProto "\<lambda>m. m"
  by unfold_locales (simp_all add: modelToProto_def modelFromProto_def)

interpretation route_codec: wire_codec routeToProto routeFromProto "\<lambda>r. r"
  by unfold_locales (simp_all add: routeToProto_def routeFromProto_def)

lemma catalog_round_trip [simp]:
  "convertModels (GetModels impl) = gd_Models impl"
  "convertRoutes (GetRoutes impl) = gd_Routes impl"
  unfolding convertModels_def GetModels_def convertRoutes_def GetRoutes_def
    model_codec.map_dec_enc route_codec.map_dec_enc by simp_all

section \<open>Account validation\<close>

text \<open>The credentials go to the plugin, its error comes back; \<open>rpc\<close> is the call.\<close>

definition srv_ValidateAccount ::
  "(metadata \<Rightarrow> go_error option) \<Rightarrow> metadata \<Rightarrow> go_error + unit" where
  "srv_ValidateAccount impl credentials =
     (case impl credentials of Some e \<Rightarrow> Inl e | None \<Rightarrow> Inr ())"

definition client_ValidateAccount ::
  "(metadata \<Rightarrow> go_error + unit) \<Rightarrow> metadata \<Rightarrow> go_error option" where
  "client_ValidateAccount rpc credentials =
     (case rpc credentials of Inl e \<Rightarrow> Some e | Inr _ \<Rightarrow> None)"

lemma ValidateAccount_crosses:
  "client_ValidateAccount (over_grpc carry \<circ> srv_ValidateAccount impl) credentials =
    map_option carry (impl credentials)"
  by (simp add: client_ValidateAccount_def srv_ValidateAccount_def split: option.split)

text \<open>A caller that compares the error with the SDK's own never finds it.\<close>

lemma sentinel_lost:
  assumes "status_errors carry"
  shows "client_ValidateAccount (over_grpc carry \<circ> srv_ValidateAccount impl) credentials
    \<noteq> Some ErrInvalidCredentials"
proof (cases "impl credentials")
  case (Some e)
  obtain c m where "carry e = ErrStatus c m"
    using assms unfolding status_errors_def by blast
  then show ?thesis by (simp add: ValidateAccount_crosses Some ErrInvalidCredentials_def)
qed (simp add: ValidateAccount_crosses)

section \<open>Getters at the same time\<close>

text \<open>
  What an RPC under way has answered and its getter is about to store, each under the lock: events
  of the clients of one \<^verbatim>\<open>GatewayGRPCClient\<close> in the order they take the lock, with the answers
  that are between RPC and store.
\<close>

datatype answer =
    PlatformAnswer string
  | ModelsAnswer "ModelInfoProto list"
  | RoutesAnswer "RouteDefinitionProto list"
  | CatalogAnswer string "ModelInfoProto list" "RouteDefinitionProto list"

datatype cache_event = Answered answer | Stored nat | Invalidated

definition store_answer :: "answer \<Rightarrow> gateway_client \<Rightarrow> gateway_client" where
  "store_answer a c =
     (case a of
        PlatformAnswer v \<Rightarrow> snd (Platform_store v c)
      | ModelsAnswer ps \<Rightarrow> snd (Models_store ps c)
      | RoutesAnswer ps \<Rightarrow> snd (Routes_store ps c)
      | CatalogAnswer v ms rs \<Rightarrow> snd (client_Catalog (Inr v) (Inr ms) (Inr rs) c))"

fun cache_step ::
  "cache_event \<Rightarrow> gateway_client \<times> answer list \<Rightarrow> gateway_client \<times> answer list" where
  "cache_step (Answered a) (c, under_way) = (c, under_way @ [a])"
| "cache_step (Stored i) (c, under_way) =
     (if i < length under_way
      then (store_answer (under_way ! i) c, take i under_way @ drop (Suc i) under_way)
      else (c, under_way))"
| "cache_step Invalidated (c, under_way) = (InvalidateCache c, under_way)"

definition cache_run ::
  "cache_event list \<Rightarrow> gateway_client \<times> answer list \<Rightarrow> gateway_client \<times> answer list" where
  "cache_run es s = fold cache_step es s"

definition answers_of :: "cache_event list \<Rightarrow> answer list" where
  "answers_of es = List.map_filter (\<lambda>e. case e of Answered a \<Rightarrow> Some a | _ \<Rightarrow> None) es"

text \<open>What of an answer each cache can hold, and that every cache holds part of an answer.\<close>

fun answer_platform :: "answer \<Rightarrow> string option" where
  "answer_platform (PlatformAnswer v) = Some v"
| "answer_platform (CatalogAnswer v _ _) = Some v"
| "answer_platform _ = None"

fun answer_models :: "answer \<Rightarrow> ModelInfo list option" where
  "answer_models (ModelsAnswer ps) = Some (convertModels ps)"
| "answer_models (CatalogAnswer _ ps _) = Some (convertModels ps)"
| "answer_models _ = None"

fun answer_routes :: "answer \<Rightarrow> RouteDefinition list option" where
  "answer_routes (RoutesAnswer ps) = Some (convertRoutes ps)"
| "answer_routes (CatalogAnswer _ _ ps) = Some (convertRoutes ps)"
| "answer_routes _ = None"

definition cached_from :: "answer list \<Rightarrow> gateway_client \<Rightarrow> bool" where
  "cached_from as c \<longleftrightarrow>
     (gc_cachedPlatform c = [] \<or> Some (gc_cachedPlatform c) \<in> answer_platform ` set as) \<and>
     gc_cachedModels c \<in> insert None (answer_models ` set as) \<and>
     gc_cachedRoutes c \<in> insert None (answer_routes ` set as)"

lemma cached_from_mono: "cached_from as c \<Longrightarrow> set as \<subseteq> set bs \<Longrightarrow> cached_from bs c"
  by (auto simp: cached_from_def)

lemma store_answer_caches:
  "gc_cachedPlatform (store_answer a c) =
     (case answer_platform a of None \<Rightarrow> gc_cachedPlatform c | Some v \<Rightarrow> v)"
  "gc_cachedModels (store_answer a c) =
     (case answer_models a of None \<Rightarrow> gc_cachedModels c | Some v \<Rightarrow> Some v)"
  "gc_cachedRoutes (store_answer a c) =
     (case answer_routes a of None \<Rightarrow> gc_cachedRoutes c | Some v \<Rightarrow> Some v)"
  by (cases a; simp add: store_answer_def Platform_store_def Models_store_def Routes_store_def
      client_Catalog_def Let_def)+

lemma cached_from_store:
  assumes "cached_from as c" and "a \<in> set as"
  shows "cached_from as (store_answer a c)"
proof -
  have "answer_platform a \<in> answer_platform ` set as" "answer_models a \<in> answer_models ` set as"
    "answer_routes a \<in> answer_routes ` set as"
    using assms(2) by (rule imageI)+
  then show ?thesis
    using assms(1) by (auto simp only: cached_from_def store_answer_caches split: option.splits)
qed

lemma cached_from_invalidated [simp]: "cached_from as (InvalidateCache c)"
  by (simp add: cached_from_def InvalidateCache_def)

lemma cache_step_from:
  assumes "cached_from as c" and "set under_way \<subseteq> set as"
    and "cache_step e (c, under_way) = (c', under_way')"
  shows "cached_from (as @ answers_of [e]) c' \<and> set under_way' \<subseteq> set (as @ answers_of [e])"
proof (cases e)
  case (Answered a)
  then show ?thesis
    using assms cached_from_mono [of as c "as @ [a]"]
    by (auto simp: answers_of_def map_filter_simps)
next
  case (Stored i)
  have "x \<in> set as" if "x \<in> set (take i under_way) \<or> x \<in> set (drop (Suc i) under_way)" for x
    using assms(2) that by (auto dest: in_set_takeD in_set_dropD)
  moreover have "cached_from as (store_answer (under_way ! i) c)" if "i < length under_way"
    using assms(1,2) cached_from_store nth_mem [OF that] by blast
  ultimately show ?thesis
    using assms Stored by (auto simp: answers_of_def map_filter_simps split: if_splits)
next
  case Invalidated
  then show ?thesis
    using assms by (auto simp: answers_of_def map_filter_simps)
qed

lemma cache_run_from:
  assumes "cached_from as c" and "set under_way \<subseteq> set as"
    and "cache_run es (c, under_way) = (c', under_way')"
  shows "cached_from (as @ answers_of es) c'"
  using assms
proof (induction es arbitrary: as c under_way)
  case Nil
  then show ?case by (simp add: cache_run_def answers_of_def map_filter_simps)
next
  case (Cons e es)
  obtain c1 u1 where step: "cache_step e (c, under_way) = (c1, u1)" by fastforce
  have rest: "cache_run es (c1, u1) = (c', under_way')"
    using Cons.prems(3) by (simp add: cache_run_def step)
  have "cached_from ((as @ answers_of [e]) @ answers_of es) c'"
    using cache_step_from [OF Cons.prems(1,2) step] by (intro Cons.IH [OF _ _ rest]) simp_all
  moreover have "answers_of (e # es) = answers_of [e] @ answers_of es"
    by (simp add: answers_of_def List.map_filter_def)
  ultimately show ?case by (metis append_assoc)
qed

section \<open>Properties\<close>

text \<open>
  C40: The catalog is complete or absent, and as fresh as the RPCs under way. When the three calls
  succeed it is exactly what the plugin declares and the getters answer it from then on without the
  plugin; when one fails, the first failure is returned and nothing is remembered. Whatever getters
  run at the same time, after an invalidation every cache holds what an RPC answered since or what
  one under way had answered before; and each of those old answers does come back, with the store
  that the invalidation overtook.
\<close>

theorem catalog_is_as_fresh_as_its_calls:
  "(case client_Catalog p m r c of
      (Inl e, c') \<Rightarrow>
        c' = c \<and> (if isl p then p = Inl e else if isl m then m = Inl e else r = Inl e)
    | (Inr _, _) \<Rightarrow> list_all (\<lambda>failed. failed = False) [isl p, isl m, isl r]) \<and>
   (let cached = c\<lparr>gc_cachedPlatform := gd_Platform impl, gc_cachedModels := Some (gd_Models impl),
                   gc_cachedRoutes := Some (gd_Routes impl)\<rparr>
    in client_Catalog (Inr (GetPlatform impl)) (Inr (GetModels impl)) (Inr (GetRoutes impl)) c =
         (Inr (gd_Platform impl, gd_Models impl, gd_Routes impl), cached) \<and>
       Models resp cached = (Some (gd_Models impl), cached) \<and>
       Routes rresp cached = (Some (gd_Routes impl), cached) \<and>
       fst (Platform (Inr (GetPlatform impl)) cached) = gd_Platform impl) \<and>
   cached_from (under_way @ answers_of es) (fst (cache_run (Invalidated # es) (c, under_way))) \<and>
   map (\<lambda>i. fst (cache_run [Invalidated, Stored i] (c, under_way))) [0..<length under_way] =
     map (\<lambda>a. store_answer a (InvalidateCache c)) under_way"
proof (intro conjI)
  show "case client_Catalog p m r c of
      (Inl e, c') \<Rightarrow>
        c' = c \<and> (if isl p then p = Inl e else if isl m then m = Inl e else r = Inl e)
    | (Inr _, _) \<Rightarrow> list_all (\<lambda>failed. failed = False) [isl p, isl m, isl r]"
    by (cases p; cases m; cases r) (simp_all add: client_Catalog_def Let_def)
  obtain c' u' where run: "cache_run es (InvalidateCache c, under_way) = (c', u')" by fastforce
  then show "cached_from (under_way @ answers_of es)
      (fst (cache_run (Invalidated # es) (c, under_way)))"
    using cache_run_from [OF cached_from_invalidated order_refl run] by (simp add: cache_run_def)
  show "map (\<lambda>i. fst (cache_run [Invalidated, Stored i] (c, under_way))) [0..<length under_way] =
      map (\<lambda>a. store_answer a (InvalidateCache c)) under_way"
    by (rule nth_equalityI) (simp_all add: cache_run_def)
qed (simp add: client_Catalog_def Models_def Routes_def Platform_def Platform_store_def
    GetPlatform_def Let_def)

end
