(* ===== verification/Mux.thy ===== *)
theory Mux
  imports Strconv
begin

text \<open>
  \<^verbatim>\<open>http.ServeMux\<close> of Go's standard library, as \<^verbatim>\<open>devkit/devserver/server.go\<close> uses it: patterns that
  are plain paths (no method, no host, no wildcard), requests other than CONNECT whose path
  needs no escaping. A pattern that ends with a slash matches every path below it, any other one
  itself; of the patterns that match, the longest serves. A path that is not clean, and a path
  that is a pattern but for the slash at its end, is redirected. Registering a pattern twice
  panics.
\<close>

section \<open>Registration and matching\<close>

type_synonym 'h mux = "(string \<times> 'h) list"

definition pattern_matches :: "string \<Rightarrow> string \<Rightarrow> bool" where
  "pattern_matches q path = (if HasSuffix q ''/'' then HasPrefix path q else path = q)"

definition mux_Handle :: "string \<Rightarrow> 'h \<Rightarrow> 'h mux \<Rightarrow> 'h mux option" where
  "mux_Handle q h mux = (if q \<in> fst ` set mux then None else Some (mux @ [(q, h)]))"

fun mux_Handle_all :: "(string \<times> 'h) list \<Rightarrow> 'h mux \<Rightarrow> 'h mux option" where
  "mux_Handle_all [] mux = Some mux"
| "mux_Handle_all ((q, h) # rs) mux =
     (case mux_Handle q h mux of None \<Rightarrow> None | Some mux \<Rightarrow> mux_Handle_all rs mux)"

fun longest :: "(string \<times> 'h) list \<Rightarrow> (string \<times> 'h) option" where
  "longest [] = None"
| "longest (x # xs) =
     (case longest xs of
        None \<Rightarrow> Some x
      | Some y \<Rightarrow> if length (fst y) > length (fst x) then Some y else Some x)"

definition mux_match :: "'h mux \<Rightarrow> string \<Rightarrow> (string \<times> 'h) option" where
  "mux_match mux path = longest (filter (\<lambda>r. pattern_matches (fst r) path) mux)"

section \<open>Requests\<close>

text \<open>\<^verbatim>\<open>cleanPath\<close>: \<^verbatim>\<open>path.Clean\<close>, but a slash at the end is kept.\<close>

definition cleanPath :: "string \<Rightarrow> string" where
  "cleanPath p =
     (if p = [] then ''/''
      else
        (let p = (if HasPrefix p ''/'' then p else CHR ''/'' # p);
             np = path_Clean p
         in if HasSuffix p ''/'' \<and> np \<noteq> ''/'' then np @ ''/'' else np))"

datatype 'h mux_answer = RedirectTo string | ServedBy 'h | NotFound

definition mux_route :: "'h mux \<Rightarrow> string \<Rightarrow> 'h mux_answer" where
  "mux_route mux path =
     (let c = cleanPath path;
          exact = (\<lambda>p. case mux_match mux p of None \<Rightarrow> False | Some (q, h) \<Rightarrow> q = p)
      in if \<not> exact c \<and> \<not> HasSuffix c ''/'' \<and> exact (c @ ''/'') then RedirectTo (c @ ''/'')
         else if c \<noteq> path then RedirectTo c
         else (case mux_match mux c of None \<Rightarrow> NotFound | Some (q, h) \<Rightarrow> ServedBy h))"

section \<open>Lemmas\<close>

lemma mux_Handle_all_eq:
  "distinct (map fst mux) \<Longrightarrow>
   mux_Handle_all rs mux =
     (if distinct (map fst (mux @ rs)) then Some (mux @ rs) else None)"
proof (induction rs arbitrary: mux)
  case (Cons r rs)
  obtain q h where r: "r = (q, h)" by (cases r)
  show ?case
  proof (cases "q \<in> fst ` set mux")
    case True
    then show ?thesis by (auto simp: r mux_Handle_def)
  next
    case False
    then show ?thesis
      using Cons.IH [of "mux @ [(q, h)]"] Cons.prems by (simp add: r mux_Handle_def)
  qed
qed simp

lemma pattern_matches_prefix: "pattern_matches q path \<Longrightarrow> prefix q path"
  by (simp add: pattern_matches_def HasPrefix_def split: if_splits)

lemma pattern_matches_self [simp]: "pattern_matches q q"
  by (simp add: pattern_matches_def HasPrefix_def)

lemma pattern_matches_eq:
  "pattern_matches q path \<Longrightarrow> pattern_matches q' path \<Longrightarrow> length q = length q' \<Longrightarrow> q = q'"
  by (metis pattern_matches_prefix prefix_length_prefix prefix_order.antisym order_refl)

lemma longest_None [simp]: "longest xs = None \<longleftrightarrow> xs = []"
  by (cases xs) (auto split: option.splits)

lemma longest_Some:
  "longest xs = Some y \<Longrightarrow> y \<in> set xs \<and> (\<forall>x \<in> set xs. length (fst x) \<le> length (fst y))"
proof (induction xs arbitrary: y)
  case (Cons x xs)
  show ?case
  proof (cases "longest xs")
    case None
    then show ?thesis using Cons.prems by simp
  next
    case (Some z)
    have "z \<in> set xs \<and> (\<forall>x \<in> set xs. length (fst x) \<le> length (fst z))"
      by (rule Cons.IH [OF Some])
    then show ?thesis
      using Cons.prems Some by (auto split: if_splits)
  qed
qed simp

text \<open>The pattern that serves: it matches, and no longer one does.\<close>

lemma mux_match_iff:
  assumes "distinct (map fst mux)"
  shows "mux_match mux path = Some (q, h) \<longleftrightarrow>
         (q, h) \<in> set mux \<and> pattern_matches q path \<and>
         (\<forall>q' h'. (q', h') \<in> set mux \<longrightarrow> pattern_matches q' path \<longrightarrow> length q' \<le> length q)"
    (is "?l \<longleftrightarrow> ?r")
proof
  let ?ms = "filter (\<lambda>r. pattern_matches (fst r) path) mux"
  have member: "(x, k) \<in> set ?ms \<longleftrightarrow> (x, k) \<in> set mux \<and> pattern_matches x path" for x k
    by simp
  have best: "(x, k) \<in> set mux \<and> pattern_matches x path \<and>
      (\<forall>q' h'. (q', h') \<in> set mux \<longrightarrow> pattern_matches q' path \<longrightarrow> length q' \<le> length x)"
    if "mux_match mux path = Some (x, k)" for x k
    using longest_Some [OF that [unfolded mux_match_def]] member by fastforce
  then show "?l \<Longrightarrow> ?r" .
  assume r: ?r
  then have "?ms \<noteq> []" using member [of q h] by (metis empty_iff empty_set)
  then obtain y where "mux_match mux path = Some y"
    unfolding mux_match_def by (metis longest_None not_None_eq)
  then obtain q1 h1 where y: "mux_match mux path = Some (q1, h1)" by (cases y) simp
  have "length q1 = length q" using r best [OF y] by (meson le_antisym)
  then have "q1 = q" using best [OF y] r pattern_matches_eq by blast
  then have "h1 = h" using best [OF y] r assms eq_key_imp_eq_value by metis
  then show ?l using y \<open>q1 = q\<close> by simp
qed

lemma mux_match_own:
  assumes "distinct (map fst mux)" and "(p, h) \<in> set mux"
  shows "mux_match mux p = Some (p, h)"
proof -
  have "length q \<le> length p" if "pattern_matches q p" for q
    by (rule prefix_length_le) (rule pattern_matches_prefix [OF that])
  then show ?thesis unfolding mux_match_iff [OF assms(1)] using assms(2) by simp
qed

lemma mux_match_exact:
  assumes "distinct (map fst mux)"
  shows "(case mux_match mux p of None \<Rightarrow> False | Some (q, h) \<Rightarrow> q = p) \<longleftrightarrow> p \<in> fst ` set mux"
proof
  assume "p \<in> fst ` set mux"
  then obtain h where "(p, h) \<in> set mux" by force
  then show "case mux_match mux p of None \<Rightarrow> False | Some (q, h) \<Rightarrow> q = p"
    using mux_match_own [OF assms] by simp
next
  assume exact: "case mux_match mux p of None \<Rightarrow> False | Some (q, h) \<Rightarrow> q = p"
  then obtain h where "mux_match mux p = Some (p, h)" by (auto split: option.splits)
  then have "(p, h) \<in> set mux" unfolding mux_match_iff [OF assms] by (rule conjunct1)
  then show "p \<in> fst ` set mux" by force
qed

text \<open>Patterns that do not match may be left out.\<close>

lemma mux_match_skip:
  "list_all (\<lambda>r. \<not> pattern_matches (fst r) path) ys \<Longrightarrow>
   mux_match (xs @ ys @ zs) path = mux_match (xs @ zs) path"
proof -
  assume "list_all (\<lambda>r. \<not> pattern_matches (fst r) path) ys"
  then have "filter (\<lambda>r. pattern_matches (fst r) path) ys = []"
    by (induction ys) simp_all
  then show ?thesis by (simp add: mux_match_def)
qed

end
