(* ===== verification/Accounts.thy ===== *)
theory Accounts
  imports ForwardRequest Strconv
begin

text \<open>
  The account store of the development server and its HTTP API: \<^verbatim>\<open>devkit/devserver/accounts.go\<close>.

  The store is a list kept in a JSON file. Package encoding/json and the file system are
  parameters: how a list is encoded, what a decoding leaves in the list (errors are ignored by
  the code, so a file with errors leaves whatever was decoded), and what the file holds after a
  write, which may fail without being noticed. The scheduler and the API use the store through
  the interface \<open>account_map\<close>.
\<close>

section \<open>State\<close>

record DevAccount =
  da_ID :: "64 word"
  da_Name :: string
  da_AccountType :: string
  da_Credentials :: metadata
  da_ProxyURL :: string
  da_Weight :: go_int

record AccountStore =
  as_accounts :: "DevAccount list"
  as_nextID :: "64 word"
  as_file :: "bytes option"

record store_env =
  se_marshal :: "DevAccount list \<Rightarrow> bytes"
  se_unmarshal :: "bytes \<Rightarrow> DevAccount list"
  se_write :: "bytes \<Rightarrow> bytes option \<Rightarrow> bytes option"

section \<open>Operations\<close>

definition load :: "store_env \<Rightarrow> AccountStore \<Rightarrow> AccountStore" where
  "load env s =
     (case as_file s of
        None \<Rightarrow> s
      | Some data \<Rightarrow>
          (let accounts = se_unmarshal env data
           in s\<lparr>as_accounts := accounts,
                as_nextID := fold (\<lambda>a n. if sint (da_ID a) \<ge> sint n then da_ID a + 1 else n)
                               accounts (as_nextID s)\<rparr>))"

definition NewAccountStore :: "store_env \<Rightarrow> bytes option \<Rightarrow> AccountStore" where
  "NewAccountStore env file = load env \<lparr>as_accounts = [], as_nextID = 1, as_file = file\<rparr>"

definition save :: "store_env \<Rightarrow> AccountStore \<Rightarrow> AccountStore" where
  "save env s = s\<lparr>as_file := se_write env (se_marshal env (as_accounts s)) (as_file s)\<rparr>"

definition List_accounts :: "AccountStore \<Rightarrow> DevAccount list" where
  "List_accounts s = as_accounts s"

definition Get :: "64 word \<Rightarrow> AccountStore \<Rightarrow> DevAccount option" where
  "Get i s = find (\<lambda>a. da_ID a = i) (as_accounts s)"

definition First :: "AccountStore \<Rightarrow> DevAccount option" where
  "First s = (if length (as_accounts s) = 0 then None else Some (as_accounts s ! 0))"

definition Create :: "store_env \<Rightarrow> DevAccount \<Rightarrow> AccountStore \<Rightarrow> DevAccount \<times> AccountStore" where
  "Create env a s =
     (let a = a\<lparr>da_ID := as_nextID s\<rparr>;
          s = s\<lparr>as_nextID := as_nextID s + 1, as_accounts := as_accounts s @ [a]\<rparr>
      in (a, save env s))"

text \<open>The loops of Update and Delete: the first account with the id.\<close>

fun replace_first :: "64 word \<Rightarrow> DevAccount \<Rightarrow> DevAccount list \<Rightarrow> DevAccount list option" where
  "replace_first i a [] = None"
| "replace_first i a (x # xs) =
     (if da_ID x = i then Some (a # xs) else map_option ((#) x) (replace_first i a xs))"

fun delete_first :: "64 word \<Rightarrow> DevAccount list \<Rightarrow> DevAccount list option" where
  "delete_first i [] = None"
| "delete_first i (x # xs) =
     (if da_ID x = i then Some xs else map_option ((#) x) (delete_first i xs))"

definition Update ::
  "store_env \<Rightarrow> 64 word \<Rightarrow> DevAccount \<Rightarrow> AccountStore \<Rightarrow> DevAccount option \<times> AccountStore" where
  "Update env i a s =
     (let a = a\<lparr>da_ID := i\<rparr>
      in case replace_first i a (as_accounts s) of
           None \<Rightarrow> (None, s)
         | Some xs \<Rightarrow> (Some a, save env (s\<lparr>as_accounts := xs\<rparr>)))"

definition Delete :: "store_env \<Rightarrow> 64 word \<Rightarrow> AccountStore \<Rightarrow> bool \<times> AccountStore" where
  "Delete env i s =
     (case delete_first i (as_accounts s) of
        None \<Rightarrow> (False, s)
      | Some xs \<Rightarrow> (True, save env (s\<lparr>as_accounts := xs\<rparr>)))"

section \<open>The HTTP API\<close>

text \<open>What a handler encodes as its answer; \<open>ErrorText\<close> is the text of an \<^verbatim>\<open>http.Error\<close>.\<close>

datatype api_body =
    AccountsJSON "DevAccount list"
  | AccountJSON DevAccount
  | ErrorText string
  | NoBody

type_synonym api_response = "nat \<times> api_body"

text \<open>The id in the path, \<^verbatim>\<open>""\<close> for the collection.\<close>

definition trim_id :: "string \<Rightarrow> string" where
  "trim_id p =
     TrimPrefix (TrimPrefix (TrimPrefix p ''/api/accounts/'') ''/api/accounts'') ''/''"

text \<open>
  \<open>decode\<close> is \<^verbatim>\<open>json.NewDecoder(r.Body).Decode(&a)\<close>, \<open>None\<close> when it reports an error.
\<close>

definition AccountHandler ::
  "store_env \<Rightarrow> (bytes \<Rightarrow> DevAccount option) \<Rightarrow> string \<Rightarrow> string \<Rightarrow> bytes \<Rightarrow> AccountStore
     \<Rightarrow> api_response \<times> AccountStore" where
  "AccountHandler env decode httpMethod path body s =
     (let idStr = trim_id path; i = fst (ParseInt idStr) in
      if httpMethod = ''GET'' then
        (if idStr = [] then ((200, AccountsJSON (List_accounts s)), s)
         else (case Get i s of
                 None \<Rightarrow> ((404, ErrorText ''{\"error\":\"not found\"}''), s)
               | Some a \<Rightarrow> ((200, AccountJSON a), s)))
      else if httpMethod = ''POST'' then
        (case decode body of
           None \<Rightarrow> ((400, ErrorText ''{\"error\":\"invalid json\"}''), s)
         | Some a \<Rightarrow> (let (created, s) = Create env a s in ((201, AccountJSON created), s)))
      else if httpMethod = ''PUT'' then
        (case decode body of
           None \<Rightarrow> ((400, ErrorText ''{\"error\":\"invalid json\"}''), s)
         | Some a \<Rightarrow>
             (case Update env i a s of
                (None, s) \<Rightarrow> ((404, ErrorText ''{\"error\":\"not found\"}''), s)
              | (Some a, s) \<Rightarrow> ((200, AccountJSON a), s)))
      else if httpMethod = ''DELETE'' then
        (case Delete env i s of
           (False, s) \<Rightarrow> ((404, ErrorText ''{\"error\":\"not found\"}''), s)
         | (True, s) \<Rightarrow> ((204, NoBody), s))
      else ((405, ErrorText ''{\"error\":\"method not allowed\"}''), s))"

section \<open>The interface\<close>

text \<open>
  What the clients of the store rely on: it is a finite map from ids to accounts, a new account
  gets an id no account has, and the other operations change the account they name and no
  other.
\<close>

locale account_map =
  fixes get :: "64 word \<Rightarrow> 's \<Rightarrow> DevAccount option"
    and create :: "DevAccount \<Rightarrow> 's \<Rightarrow> DevAccount \<times> 's"
    and update :: "64 word \<Rightarrow> DevAccount \<Rightarrow> 's \<Rightarrow> DevAccount option \<times> 's"
    and remove :: "64 word \<Rightarrow> 's \<Rightarrow> bool \<times> 's"
    and inv :: "'s \<Rightarrow> bool" and room :: "'s \<Rightarrow> bool"
  assumes get_id: "inv s \<Longrightarrow> get i s = Some a \<Longrightarrow> da_ID a = i"
    and create_law:
      "inv s \<Longrightarrow> room s \<Longrightarrow> create a s = (a', s') \<Longrightarrow>
         inv s' \<and> get (da_ID a') s = None \<and> a' = a\<lparr>da_ID := da_ID a'\<rparr> \<and>
         (\<forall>i. get i s' = (if i = da_ID a' then Some a' else get i s))"
    and update_law:
      "inv s \<Longrightarrow> update i a s = (r, s') \<Longrightarrow>
         inv s' \<and> (r = None \<longleftrightarrow> get i s = None) \<and> (room s' \<longleftrightarrow> room s) \<and>
         (r \<noteq> None \<longrightarrow> r = Some (a\<lparr>da_ID := i\<rparr>)) \<and>
         (\<forall>j. get j s' = (if j = i \<and> r \<noteq> None then r else get j s))"
    and remove_law:
      "inv s \<Longrightarrow> remove i s = (b, s') \<Longrightarrow>
         inv s' \<and> (b \<longleftrightarrow> get i s \<noteq> None) \<and> (room s' \<longleftrightarrow> room s) \<and>
         (\<forall>j. get j s' = (if j = i then None else get j s))"
begin

text \<open>The map the store stands for.\<close>

definition lookup :: "'s \<Rightarrow> (64 word, DevAccount) map" where
  "lookup s = (\<lambda>i. get i s)"

lemma lookup_create:
  assumes "inv s" and "room s" and "create a s = (a', s')"
  shows "lookup s' = (lookup s)(da_ID a' \<mapsto> a')" and "lookup s (da_ID a') = None"
    and "a' = a\<lparr>da_ID := da_ID a'\<rparr>"
  using create_law [OF assms] by (auto simp: lookup_def fun_eq_iff)

lemma lookup_update:
  assumes "inv s" and "update i a s = (r, s')"
  shows "r = (if i \<in> dom (lookup s) then Some (a\<lparr>da_ID := i\<rparr>) else None)"
    and "lookup s' = (if i \<in> dom (lookup s) then (lookup s)(i \<mapsto> a\<lparr>da_ID := i\<rparr>) else lookup s)"
  using update_law [OF assms] by (auto simp: lookup_def fun_eq_iff)

lemma lookup_remove:
  assumes "inv s" and "remove i s = (b, s')"
  shows "b \<longleftrightarrow> i \<in> dom (lookup s)" and "lookup s' = (lookup s)(i := None)"
  using remove_law [OF assms] by (auto simp: lookup_def fun_eq_iff)

text \<open>Reading an account and writing it back changed.\<close>

lemma read_modify_write:
  assumes "inv s" and "get i s = Some a" and "update i (f a) s = (r, s')"
  shows "inv s' \<and> lookup s' = (lookup s)(i \<mapsto> (f a)\<lparr>da_ID := i\<rparr>)"
  using update_law [OF assms(1,3)] assms(2) by (auto simp: lookup_def fun_eq_iff)

end

section \<open>The store implements the interface\<close>

definition store_inv :: "AccountStore \<Rightarrow> bool" where
  "store_inv s \<longleftrightarrow>
     distinct (map da_ID (as_accounts s)) \<and>
     (\<forall>a \<in> set (as_accounts s). sint (da_ID a) < sint (as_nextID s))"

text \<open>Ids do not wrap while there is room: \<open>nextID\<close> is not the largest \<^verbatim>\<open>int64\<close>.\<close>

definition store_room :: "AccountStore \<Rightarrow> bool" where
  "store_room s \<longleftrightarrow> sint (as_nextID s) < 2 ^ 63 - 1"

lemma sint_plus_one: "sint (x :: 64 word) < 2 ^ 63 - 1 \<Longrightarrow> sint (x + 1) = sint x + 1"
proof -
  assume "sint x < 2 ^ 63 - 1"
  moreover have "x + 1 = word_of_int (sint x + 1)"
    by simp
  ultimately show ?thesis
    using sint_64_range [of x] sint_word_of_int_64 [of "sint x + 1"] by simp
qed

lemma Get_None: "Get i s = None \<longleftrightarrow> i \<notin> da_ID ` set (as_accounts s)"
  by (auto simp: Get_def find_None_iff)

lemma Get_save [simp]: "Get i (save env s) = Get i s" "as_accounts (save env s) = as_accounts s"
  "as_nextID (save env s) = as_nextID s"
  by (simp_all add: Get_def save_def)

lemma find_append: "find P (xs @ ys) = (case find P xs of None \<Rightarrow> find P ys | Some x \<Rightarrow> Some x)"
  by (induction xs) auto

lemma replace_first_None: "replace_first i a xs = None \<longleftrightarrow> i \<notin> da_ID ` set xs"
  by (induction xs) auto

lemma replace_first_Some:
  assumes "replace_first i a xs = Some ys" and "da_ID a = i"
  shows "map da_ID ys = map da_ID xs"
    and "find (\<lambda>x. da_ID x = j) ys = (if j = i then Some a else find (\<lambda>x. da_ID x = j) xs)"
proof -
  from assms have "map da_ID ys = map da_ID xs \<and>
    find (\<lambda>x. da_ID x = j) ys = (if j = i then Some a else find (\<lambda>x. da_ID x = j) xs)"
  proof (induction xs arbitrary: ys)
    case Nil
    then show ?case by simp
  next
    case (Cons x xs)
    show ?case
    proof (cases "da_ID x = i")
      case True
      then show ?thesis using Cons.prems by auto
    next
      case False
      then obtain zs where zs: "replace_first i a xs = Some zs" "ys = x # zs"
        using Cons.prems(1) by auto
      show ?thesis
        using Cons.IH [OF zs(1) Cons.prems(2)] False by (auto simp: zs(2))
    qed
  qed
  then show "map da_ID ys = map da_ID xs"
    and "find (\<lambda>x. da_ID x = j) ys = (if j = i then Some a else find (\<lambda>x. da_ID x = j) xs)"
    by auto
qed

lemma delete_first_None: "delete_first i xs = None \<longleftrightarrow> i \<notin> da_ID ` set xs"
  by (induction xs) auto

lemma delete_first_Some:
  assumes "delete_first i xs = Some ys" and "distinct (map da_ID xs)"
  shows "set ys \<subseteq> set xs" and "distinct (map da_ID ys)"
    and "find (\<lambda>x. da_ID x = j) ys = (if j = i then None else find (\<lambda>x. da_ID x = j) xs)"
proof -
  from assms have "set ys \<subseteq> set xs \<and> distinct (map da_ID ys) \<and>
    find (\<lambda>x. da_ID x = j) ys = (if j = i then None else find (\<lambda>x. da_ID x = j) xs)"
  proof (induction xs arbitrary: ys)
    case Nil
    then show ?case by simp
  next
    case (Cons x xs)
    show ?case
    proof (cases "da_ID x = i")
      case True
      then have "ys = xs" using Cons.prems by simp
      moreover have "i \<notin> da_ID ` set xs"
        using Cons.prems(2) True by auto
      then have "find (\<lambda>x. da_ID x = i) xs = None"
        by (auto simp: find_None_iff)
      ultimately show ?thesis using Cons.prems(2) True by auto
    next
      case False
      then obtain zs where zs: "delete_first i xs = Some zs" "ys = x # zs"
        using Cons.prems(1) by auto
      have IH: "set zs \<subseteq> set xs \<and> distinct (map da_ID zs) \<and>
          find (\<lambda>x. da_ID x = j) zs = (if j = i then None else find (\<lambda>x. da_ID x = j) xs)"
        using Cons.IH [OF zs(1)] Cons.prems(2) by simp
      then have "da_ID x \<notin> da_ID ` set zs"
        using Cons.prems(2) by auto
      then show ?thesis
        using IH False by (auto simp: zs(2))
    qed
  qed
  then show "set ys \<subseteq> set xs" and "distinct (map da_ID ys)"
    and "find (\<lambda>x. da_ID x = j) ys = (if j = i then None else find (\<lambda>x. da_ID x = j) xs)"
    by auto
qed

lemma Create_law:
  assumes "store_inv s" and "store_room s" and "Create env a s = (a', s')"
  shows "store_inv s' \<and> Get (da_ID a') s = None \<and> a' = a\<lparr>da_ID := da_ID a'\<rparr> \<and>
         (\<forall>i. Get i s' = (if i = da_ID a' then Some a' else Get i s))"
proof -
  have a': "a' = a\<lparr>da_ID := as_nextID s\<rparr>"
    and s': "as_accounts s' = as_accounts s @ [a']" "as_nextID s' = as_nextID s + 1"
    using assms(3) by (auto simp: Create_def Let_def)
  have next': "sint (as_nextID s + 1) = sint (as_nextID s) + 1"
    using assms(2) sint_plus_one by (simp add: store_room_def)
  have fresh: "as_nextID s \<notin> da_ID ` set (as_accounts s)"
    using assms(1) by (auto simp: store_inv_def)
  then have "Get (da_ID a') s = None"
    by (simp add: Get_None a')
  moreover have "store_inv s'"
    using assms(1) fresh next' by (auto simp: store_inv_def s' a')
  moreover have "Get i s' = (if i = da_ID a' then Some a' else Get i s)" for i
    using \<open>Get (da_ID a') s = None\<close> by (auto simp: Get_def s' find_append split: option.splits)
  ultimately show ?thesis by (simp add: a')
qed

lemma Update_law:
  assumes "store_inv s" and "Update env i a s = (r, s')"
  shows "store_inv s' \<and> (r = None \<longleftrightarrow> Get i s = None) \<and> (store_room s' \<longleftrightarrow> store_room s) \<and>
         (r \<noteq> None \<longrightarrow> r = Some (a\<lparr>da_ID := i\<rparr>)) \<and>
         (\<forall>j. Get j s' = (if j = i \<and> r \<noteq> None then r else Get j s))"
proof (cases "replace_first i (a\<lparr>da_ID := i\<rparr>) (as_accounts s)")
  case None
  then have "r = None" and "s' = s"
    using assms(2) by (simp_all add: Update_def Let_def)
  moreover have "Get i s = None"
    using None by (simp add: Get_None replace_first_None)
  ultimately show ?thesis using assms(1) by simp
next
  case (Some ys)
  then have r: "r = Some (a\<lparr>da_ID := i\<rparr>)"
    and s': "as_accounts s' = ys" "as_nextID s' = as_nextID s"
    using assms(2) by (auto simp: Update_def Let_def)
  have ys: "map da_ID ys = map da_ID (as_accounts s)"
    "find (\<lambda>x. da_ID x = j) ys =
       (if j = i then r else find (\<lambda>x. da_ID x = j) (as_accounts s))" for j
    using replace_first_Some [OF Some] r by simp_all
  have ids: "da_ID ` set ys = da_ID ` set (as_accounts s)"
    using ys(1) by (metis list.set_map)
  have "Get i s \<noteq> None"
    using Some replace_first_None [of i "a\<lparr>da_ID := i\<rparr>" "as_accounts s"] by (simp add: Get_None)
  moreover have "store_inv s'"
  proof -
    have "\<forall>k \<in> da_ID ` set ys. sint k < sint (as_nextID s)"
      using assms(1) by (simp add: ids store_inv_def)
    then show ?thesis
      using assms(1) ys(1) by (simp add: store_inv_def s')
  qed
  moreover have "Get j s' = (if j = i then r else Get j s)" for j
    using ys(2) [of j] by (simp add: Get_def s')
  ultimately show ?thesis
    by (simp add: r store_room_def s')
qed

lemma Delete_law:
  assumes "store_inv s" and "Delete env i s = (b, s')"
  shows "store_inv s' \<and> (b \<longleftrightarrow> Get i s \<noteq> None) \<and> (store_room s' \<longleftrightarrow> store_room s) \<and>
         (\<forall>j. Get j s' = (if j = i then None else Get j s))"
proof (cases "delete_first i (as_accounts s)")
  case None
  then have "\<not> b" and "s' = s"
    using assms(2) by (simp_all add: Delete_def)
  moreover have "Get i s = None"
    using None by (simp add: Get_None delete_first_None)
  ultimately show ?thesis using assms(1) by simp
next
  case (Some ys)
  then have b: "b" and s': "as_accounts s' = ys" "as_nextID s' = as_nextID s"
    using assms(2) by (auto simp: Delete_def)
  have dist: "distinct (map da_ID (as_accounts s))"
    using assms(1) by (simp add: store_inv_def)
  note ys = delete_first_Some [OF Some dist]
  have "store_inv s'"
    using assms(1) ys(1,2) by (auto simp: store_inv_def s')
  moreover have "store_room s' = store_room s"
    by (simp add: store_room_def s')
  moreover have "Get j s' = (if j = i then None else Get j s)" for j
    using ys(3) [of j] by (simp add: Get_def s')
  moreover have "Get i s \<noteq> None"
    using Some delete_first_None [of i "as_accounts s"] by (simp add: Get_None)
  ultimately show ?thesis using b by simp
qed

interpretation dev_store: account_map Get "Create env" "Update env" "Delete env" store_inv
  store_room for env
proof unfold_locales
  show "Get i s = Some a \<Longrightarrow> da_ID a = i" for i s a
    by (auto simp: Get_def find_Some_iff)
qed (rule Create_law Update_law Delete_law; assumption)+

section \<open>What the API promises\<close>

definition accounts_map :: "AccountStore \<Rightarrow> (64 word, DevAccount) map" where
  "accounts_map s = (\<lambda>i. Get i s)"

lemma lookup_accounts_map: "dev_store.lookup s = accounts_map s"
  by (simp add: dev_store.lookup_def accounts_map_def)

lemmas store_updates =
  dev_store.lookup_create [unfolded lookup_accounts_map]
  dev_store.lookup_update [unfolded lookup_accounts_map]
  dev_store.lookup_remove [unfolded lookup_accounts_map]

text \<open>
  The API as a finite map would answer it: the response and the map after the request, where
  a new account gets the id \<open>fresh\<close>. \<open>all\<close> is what lists the collection.
\<close>

definition api_spec ::
  "DevAccount list \<Rightarrow> 64 word \<Rightarrow> string \<Rightarrow> string \<Rightarrow> DevAccount option
     \<Rightarrow> (64 word, DevAccount) map \<Rightarrow> api_response \<times> (64 word, DevAccount) map" where
  "api_spec listing fresh httpMethod idStr decoded m =
     (let i = fst (ParseInt idStr);
          missing = ((404, ErrorText ''{\"error\":\"not found\"}''), m);
          malformed = ((400, ErrorText ''{\"error\":\"invalid json\"}''), m) in
      if httpMethod = ''GET'' then
        (if idStr = [] then ((200, AccountsJSON listing), m)
         else case m i of None \<Rightarrow> missing | Some a \<Rightarrow> ((200, AccountJSON a), m))
      else if httpMethod = ''POST'' then
        (case decoded of
           None \<Rightarrow> malformed
         | Some a \<Rightarrow> (let a = a\<lparr>da_ID := fresh\<rparr> in ((201, AccountJSON a), m(fresh \<mapsto> a))))
      else if httpMethod = ''PUT'' then
        (case decoded of
           None \<Rightarrow> malformed
         | Some a \<Rightarrow> (let a = a\<lparr>da_ID := i\<rparr> in
             if i \<in> dom m then ((200, AccountJSON a), m(i \<mapsto> a)) else missing))
      else if httpMethod = ''DELETE'' then
        (if i \<in> dom m then ((204, NoBody), m(i := None)) else missing)
      else ((405, ErrorText ''{\"error\":\"method not allowed\"}''), m))"

lemma created_is:
  assumes "Create env a s = (c, s')"
  shows "da_ID c = as_nextID s"
  using assms by (auto simp: Create_def Let_def)

lemma fresh_id:
  assumes "store_inv s"
  shows "as_nextID s \<notin> dom (accounts_map s)"
  using assms Get_None [of "as_nextID s" s] by (auto simp: store_inv_def accounts_map_def)

lemma listing_is_the_map:
  assumes "store_inv s"
  shows "set (List_accounts s) = ran (accounts_map s)"
proof
  show "set (List_accounts s) \<subseteq> ran (accounts_map s)"
  proof
    fix a assume a: "a \<in> set (List_accounts s)"
    then obtain b where b: "Get (da_ID a) s = Some b"
      using Get_None [of "da_ID a" s] by (auto simp: List_accounts_def)
    then have "b \<in> set (as_accounts s)" and "da_ID b = da_ID a"
      by (auto simp: Get_def find_Some_iff)
    then have "b = a"
      using a assms by (auto simp: List_accounts_def store_inv_def distinct_map dest: inj_onD)
    then show "a \<in> ran (accounts_map s)"
      using b by (auto simp: ran_def accounts_map_def)
  qed
  show "ran (accounts_map s) \<subseteq> set (List_accounts s)"
    by (auto simp: ran_def accounts_map_def Get_def List_accounts_def find_Some_iff)
qed

lemma undecoded_request:
  assumes "store_inv s" and "decode body = None"
    and "AccountHandler env decode httpMethod path body s = (resp, s')"
  shows "api_spec (List_accounts s) (as_nextID s) httpMethod (trim_id path) None
           (accounts_map s) = (resp, accounts_map s') \<and> store_inv s'"
proof -
  have get: "accounts_map s i = Get i s" for i by (simp add: accounts_map_def)
  obtain b d where del: "Delete env (fst (ParseInt (trim_id path))) s = (b, d)" by fastforce
  show ?thesis
    using assms store_updates(6,7) [OF assms(1) del] Delete_law [OF assms(1) del]
    by (cases b) (auto simp: AccountHandler_def api_spec_def Let_def del get
        split: option.splits if_splits)
qed

lemma decoded_request:
  assumes "store_inv s" and "store_room s" and "decode body = Some a"
    and "AccountHandler env decode httpMethod path body s = (resp, s')"
  shows "api_spec (List_accounts s) (as_nextID s) httpMethod (trim_id path) (Some a)
           (accounts_map s) = (resp, accounts_map s') \<and> store_inv s'"
proof -
  let ?i = "fst (ParseInt (trim_id path))"
  have get: "accounts_map s i = Get i s" for i by (simp add: accounts_map_def)
  obtain b d where del: "Delete env ?i s = (b, d)" by fastforce
  obtain c cs where cr: "Create env a s = (c, cs)" by fastforce
  obtain u us where up: "Update env ?i a s = (u, us)" by fastforce
  have c: "da_ID c = as_nextID s" by (rule created_is [OF cr])
  consider "httpMethod = ''GET''" | "httpMethod = ''POST''" | "httpMethod = ''PUT''"
    | "httpMethod = ''DELETE''"
    | "httpMethod \<notin> {''GET'', ''POST'', ''PUT'', ''DELETE''}" by blast
  then show ?thesis
  proof cases
    case 1
    then show ?thesis using assms
      by (auto simp: AccountHandler_def api_spec_def Let_def get split: option.splits if_splits)
  next
    case 2
    then show ?thesis
      using assms store_updates(1-3) [OF assms(1,2) cr] Create_law [OF assms(1,2) cr]
      by (simp add: AccountHandler_def api_spec_def Let_def cr c)
  next
    case 3
    then show ?thesis
      using assms store_updates(4,5) [OF assms(1) up] Update_law [OF assms(1) up]
      by (cases u) (auto simp: AccountHandler_def api_spec_def Let_def up split: if_splits)
  next
    case 4
    then show ?thesis
      using assms store_updates(6,7) [OF assms(1) del] Delete_law [OF assms(1) del]
      by (cases b) (auto simp: AccountHandler_def api_spec_def Let_def del)
  next
    case 5
    then show ?thesis using assms
      by (simp add: AccountHandler_def api_spec_def Let_def)
  qed
qed

text \<open>
  C15: the account API is a finite map. On a store whose ids are pairwise different and that has
  ids left, every request is answered as the specification answers it on the map the store
  stands for, leaves the map the specification leaves, and keeps the store well-formed; the
  id it gives a new account belongs to no account, and the listing holds exactly the accounts
  of the map.
\<close>
theorem account_api_is_a_map:
  assumes "store_inv s" and "store_room s"
    and "AccountHandler env decode httpMethod path body s = (resp, s')"
  shows "api_spec (List_accounts s) (as_nextID s) httpMethod (trim_id path) (decode body)
           (accounts_map s) = (resp, accounts_map s')
       \<and> store_inv s'
       \<and> as_nextID s \<notin> dom (accounts_map s)
       \<and> set (List_accounts s) = ran (accounts_map s)"
  using undecoded_request [OF assms(1) _ assms(3)] decoded_request [OF assms(1,2) _ assms(3)]
    fresh_id [OF assms(1)] listing_is_the_map [OF assms(1)]
  by (cases "decode body") (simp_all add: assms(3))

section \<open>Restarting\<close>

text \<open>Ids below the largest \<^verbatim>\<open>int64\<close>: what the loop of \<^verbatim>\<open>load\<close> can count past.\<close>

definition countable_ids :: "DevAccount list \<Rightarrow> bool" where
  "countable_ids xs \<longleftrightarrow> (\<forall>a \<in> set xs. sint (da_ID a) < 2 ^ 63 - 1)"

lemma next_id_fold:
  assumes "countable_ids xs"
  defines "step \<equiv> \<lambda>a n. if sint (da_ID a) \<ge> sint n then da_ID a + 1 else n"
  shows "sint n \<le> sint (fold step xs n) \<and> (\<forall>a \<in> set xs. sint (da_ID a) < sint (fold step xs n))"
  using assms(1)
proof (induction xs arbitrary: n)
  case Nil
  then show ?case by simp
next
  case (Cons x xs)
  have "sint (da_ID x + 1) = sint (da_ID x) + 1"
    using Cons.prems by (auto simp: countable_ids_def intro: sint_plus_one)
  then have step: "sint n \<le> sint (step x n)" "sint (da_ID x) < sint (step x n)"
    by (simp_all add: step_def)
  have "countable_ids xs" using Cons.prems by (simp add: countable_ids_def)
  from Cons.IH [OF this, of "step x n"] step show ?case by force
qed

text \<open>
  C16: accounts survive a restart. When the JSON package reads back the list it wrote and writing
  the file succeeds, a store opened on the file another store saved holds the same accounts in
  the same order and is well-formed again: every id it hands out next is larger than all ids
  in use, without having been stored.
\<close>
theorem restart_keeps_accounts:
  assumes reads_back: "se_unmarshal env (se_marshal env (as_accounts s)) = as_accounts s"
    and writes: "\<And>d f. se_write env d f = Some d"
    and inv: "store_inv s" and ids: "countable_ids (as_accounts s)"
    and reopened: "t = NewAccountStore env (as_file (save env s))"
  shows "as_accounts t = as_accounts s
       \<and> accounts_map t = accounts_map s
       \<and> store_inv t \<and> 1 \<le> sint (as_nextID t)"
proof -
  have t: "as_accounts t = as_accounts s"
    "as_nextID t = fold (\<lambda>a n. if sint (da_ID a) \<ge> sint n then da_ID a + 1 else n)
        (as_accounts s) 1"
    by (simp_all add: reopened NewAccountStore_def load_def save_def reads_back writes Let_def)
  show ?thesis
    using inv next_id_fold [OF ids, of 1]
    by (simp add: store_inv_def t accounts_map_def Get_def)
qed

subsection \<open>Examples\<close>

definition example_account :: "64 word \<Rightarrow> string \<Rightarrow> go_int \<Rightarrow> DevAccount" where
  "example_account i name w = \<lparr>da_ID = i, da_Name = name, da_AccountType = ''apikey'',
     da_Credentials = [], da_ProxyURL = [], da_Weight = w\<rparr>"

definition example_store :: "AccountStore" where
  "example_store = \<lparr>as_accounts = [example_account 1 ''one'' 1, example_account 3 ''three'' 0],
     as_nextID = 4, as_file = None\<rparr>"

text \<open>A JSON package restricted to one list, that of the example.\<close>

definition example_env :: "store_env" where
  "example_env = \<lparr>se_marshal = \<lambda>_. ''[]'', se_unmarshal = \<lambda>_. as_accounts example_store,
     se_write = \<lambda>d _. Some d\<rparr>"

lemma example_store_ok: "store_inv example_store" "store_room example_store"
  "countable_ids (as_accounts example_store)"
  by (simp_all add: store_inv_def store_room_def example_store_def example_account_def
      countable_ids_def)

lemma account_api_is_a_map_witness:
  "let (resp, s') = AccountHandler example_env (\<lambda>_. Some (example_account 0 ''new'' 2)) ''PUT''
         ''/api/accounts/3'' [] example_store
   in fst resp = 200 \<and> accounts_map s' 3 = Some (example_account 3 ''new'' 2) \<and>
      accounts_map s' 1 = Some (example_account 1 ''one'' 1) \<and> store_inv s'"
proof -
  obtain resp s' where h: "AccountHandler example_env (\<lambda>_. Some (example_account 0 ''new'' 2))
      ''PUT'' ''/api/accounts/3'' [] example_store = (resp, s')" by fastforce
  have path: "ParseInt (trim_id ''/api/accounts/3'') = (3, False)"
    by code_simp
  have one: "accounts_map example_store 1 = Some (example_account 1 ''one'' 1)"
    "3 \<in> dom (accounts_map example_store)"
    by (simp_all add: accounts_map_def Get_def example_store_def example_account_def domIff)
  have "fst resp = 200 \<and> accounts_map s' = (accounts_map example_store)
      (3 \<mapsto> example_account 3 ''new'' 2) \<and> store_inv s'"
    using account_api_is_a_map [OF example_store_ok(1,2) h] one(2)
    by (auto simp: api_spec_def path example_account_def Let_def)
  then show ?thesis
    using one(1) by (simp add: h)
qed

lemma restart_keeps_accounts_witness:
  "accounts_map (NewAccountStore example_env (as_file (save example_env example_store))) 3 =
     Some (example_account 3 ''three'' 0)"
proof -
  let ?t = "NewAccountStore example_env (as_file (save example_env example_store))"
  have "accounts_map ?t = accounts_map example_store"
    using restart_keeps_accounts [where t = ?t and env = example_env, OF _ _ example_store_ok(1,3)]
    by (simp add: example_env_def)
  then show ?thesis
    by (simp add: accounts_map_def Get_def example_store_def example_account_def)
qed

end
