(* ===== verification/Scheduler.thy ===== *)
theory Scheduler
  imports Accounts Outcome "HOL-Library.Multiset"
begin

text \<open>
  The account scheduler of the development server and its HTTP API:
  \<^verbatim>\<open>devkit/devserver/scheduler.go\<close>.

  Instants are integers (nanoseconds): package time's values do not wrap in the range the code
  reaches. The clock is read once per operation and is an argument. The scheduler holds a pointer
  to the account store, which is passed next to its state; the mutex makes every operation one
  step. The store is used through \<open>dev_store\<close>.
\<close>

section \<open>State\<close>

type_synonym instant = int

definition ScheduleNone :: string where "ScheduleNone = ''none''"
definition ScheduleWeightedRR :: string where "ScheduleWeightedRR = ''weighted_rr''"

record Scheduler =
  sc_policy :: string
  sc_cooldown :: "(64 word, instant) gomap"
  sc_counter :: "64 word"
  sc_pinnedID :: "64 word"

definition NewScheduler :: "string \<Rightarrow> Scheduler" where
  "NewScheduler policy =
     \<lparr>sc_policy = (if policy = [] then ScheduleNone else policy), sc_cooldown = [],
      sc_counter = 0, sc_pinnedID = 0\<rparr>"

definition second :: int where "second = 1000000000"

section \<open>Selection\<close>

text \<open>\<^verbatim>\<open>coolUntil, ok := cooldown[id]; ok && now.Before(coolUntil)\<close>\<close>

definition cooling :: "instant \<Rightarrow> (64 word, instant) gomap \<Rightarrow> 64 word \<Rightarrow> bool" where
  "cooling now cd i = (case map_of cd i of None \<Rightarrow> False | Some coolUntil \<Rightarrow> now < coolUntil)"

definition slot_weight :: "DevAccount \<Rightarrow> nat" where
  "slot_weight a = (if sint (da_Weight a) \<le> 0 then 1 else nat (sint (da_Weight a)))"

text \<open>The loop that expands the accounts into slots and forgets the cooldowns that are over.\<close>

fun slot_loop ::
  "instant \<Rightarrow> DevAccount list \<Rightarrow> (64 word, instant) gomap
     \<Rightarrow> DevAccount list \<times> (64 word, instant) gomap" where
  "slot_loop now [] cd = ([], cd)"
| "slot_loop now (a # as) cd =
     (if cooling now cd (da_ID a) then slot_loop now as cd
      else (let (slots, cd') = slot_loop now as (AList.delete (da_ID a) cd)
            in (replicate (slot_weight a) a @ slots, cd')))"

definition selectWeightedRR ::
  "instant \<Rightarrow> AccountStore \<Rightarrow> Scheduler \<Rightarrow> DevAccount option \<times> Scheduler" where
  "selectWeightedRR now store s =
     (let accounts = List_accounts store in
      if length accounts = 0 then (None, s)
      else
        (let (slots, cd) = slot_loop now accounts (sc_cooldown s);
             s = s\<lparr>sc_cooldown := cd\<rparr> in
         if length slots = 0 then (Some (accounts ! 0), s)
         else
           (let idx = unat (sc_counter s mod word_of_nat (length slots)) in
            (Some (slots ! idx), s\<lparr>sc_counter := sc_counter s + 1\<rparr>))))"

definition Select ::
  "instant \<Rightarrow> AccountStore \<Rightarrow> Scheduler \<Rightarrow> DevAccount option \<times> Scheduler" where
  "Select now store s =
     (if sc_policy s = ScheduleNone then
        (case (if sint (sc_pinnedID s) > 0 then Get (sc_pinnedID s) store else None) of
           Some a \<Rightarrow> (Some a, s)
         | None \<Rightarrow> (First store, s))
      else selectWeightedRR now store s)"

section \<open>Feedback\<close>

definition ReportResult ::
  "instant \<Rightarrow> 64 word \<Rightarrow> ForwardOutcome \<Rightarrow> Scheduler \<Rightarrow> Scheduler" where
  "ReportResult now accountID oc s =
     (if sc_policy s = ScheduleNone then s
      else case Kind oc of
        OutcomeAccountRateLimited \<Rightarrow>
          (let cooldown = (if sint (RetryAfter oc) \<le> 0 then 60 * second
                           else sint (RetryAfter oc))
           in s\<lparr>sc_cooldown := AList.update accountID (now + cooldown) (sc_cooldown s)\<rparr>)
      | OutcomeAccountDead \<Rightarrow>
          s\<lparr>sc_cooldown := AList.update accountID (now + 300 * second) (sc_cooldown s)\<rparr>
      | OutcomeAccountUnavailable \<Rightarrow>
          s\<lparr>sc_cooldown := AList.update accountID (now + 60 * second) (sc_cooldown s)\<rparr>
      | _ \<Rightarrow> s\<lparr>sc_cooldown := AList.delete accountID (sc_cooldown s)\<rparr>)"

definition IsRetryable :: "ForwardOutcome \<Rightarrow> go_error option \<Rightarrow> Scheduler \<Rightarrow> bool" where
  "IsRetryable oc err s =
     (if sc_policy s = ScheduleNone then False
      else if err \<noteq> None then True
      else Kind_ShouldFailover (Kind oc))"

definition SetPolicy :: "string \<Rightarrow> Scheduler \<Rightarrow> Scheduler" where
  "SetPolicy policy s = s\<lparr>sc_policy := policy\<rparr>"

definition sched_Policy :: "Scheduler \<Rightarrow> string" where
  "sched_Policy s = sc_policy s"

definition SetPinned :: "64 word \<Rightarrow> Scheduler \<Rightarrow> Scheduler" where
  "SetPinned accountID s = s\<lparr>sc_pinnedID := accountID\<rparr>"

section \<open>The slots\<close>

lemma cooling_delete:
  "\<not> cooling now cd i \<Longrightarrow> now \<le> t \<Longrightarrow> cooling t (AList.delete i cd) j = cooling t cd j"
  by (cases "j = i") (auto simp: cooling_def delete_conv' split: option.splits)

text \<open>The cooldowns the loop forgets were over: no account starts or stops cooling.\<close>

lemma slot_loop_cooldown:
  "slot_loop now as cd = (slots, cd') \<Longrightarrow> now \<le> t \<Longrightarrow> cooling t cd' j = cooling t cd j"
proof (induction now as cd arbitrary: slots rule: slot_loop.induct)
  case (2 now a as cd)
  show ?case
  proof (cases "cooling now cd (da_ID a)")
    case True
    then show ?thesis using 2 by simp
  next
    case False
    then obtain sl where "slot_loop now as (AList.delete (da_ID a) cd) = (sl, cd')"
      using "2.prems" by (auto split: prod.splits)
    then show ?thesis
      using "2.IH"(2) False "2.prems"(2) cooling_delete by blast
  qed
qed simp

definition slots_of ::
  "instant \<Rightarrow> (64 word, instant) gomap \<Rightarrow> DevAccount list \<Rightarrow> DevAccount list" where
  "slots_of now cd as =
     concat (map (\<lambda>a. replicate (slot_weight a) a) (filter (\<lambda>a. \<not> cooling now cd (da_ID a)) as))"

lemma slot_loop_slots: "fst (slot_loop now as cd) = slots_of now cd as"
proof (induction now as cd rule: slot_loop.induct)
  case (2 now a as cd)
  show ?case
  proof (cases "cooling now cd (da_ID a)")
    case True
    then show ?thesis using 2 by (simp add: slots_of_def)
  next
    case False
    then have "fst (slot_loop now as (AList.delete (da_ID a) cd)) = slots_of now cd as"
      using "2.IH"(2) cooling_delete [OF False order_refl] by (simp add: slots_of_def)
    then show ?thesis
      using False by (auto simp: slots_of_def case_prod_beta)
  qed
qed (simp add: slots_of_def)

lemma slot_weight_pos [simp]: "0 < slot_weight a"
  by (simp add: slot_weight_def)

lemma set_slots_of:
  "set (slots_of now cd as) = {a \<in> set as. \<not> cooling now cd (da_ID a)}"
  by (auto simp: slots_of_def)

lemma count_slots_of:
  assumes "distinct as"
  shows "count_list (slots_of now cd as) a =
    (if a \<in> set as \<and> \<not> cooling now cd (da_ID a) then slot_weight a else 0)"
proof -
  have rep: "count_list (replicate n x) a = (if x = a then n else 0)" for n and x :: DevAccount
    by (induction n) auto
  show ?thesis
    using assms by (induction as) (auto simp: slots_of_def rep)
qed

lemma slots_of_cong:
  "(\<And>a. a \<in> set as \<Longrightarrow> cooling t cd (da_ID a) = cooling t' cd' (da_ID a)) \<Longrightarrow>
   slots_of t cd as = slots_of t' cd' as"
  unfolding slots_of_def by (metis (mono_tags, lifting) filter_cong)

lemma selectWeightedRR_slots:
  assumes "List_accounts store \<noteq> []"
    and "slots = slots_of now (sc_cooldown s) (List_accounts store)"
    and "slots \<noteq> []" and "length slots < 2 ^ 64"
    and "selectWeightedRR now store s = (r, s')"
  shows "r = Some (slots ! (unat (sc_counter s) mod length slots))"
    and "sc_counter s' = sc_counter s + 1" and "sc_policy s' = sc_policy s"
    and "now \<le> t \<Longrightarrow> cooling t (sc_cooldown s') j = cooling t (sc_cooldown s) j"
proof -
  obtain cd where cd: "slot_loop now (List_accounts store) (sc_cooldown s) = (slots, cd)"
    using slot_loop_slots [of now "List_accounts store" "sc_cooldown s"] assms(2)
    by (metis prod.collapse)
  have "unat (word_of_nat (length slots) :: 64 word) = length slots"
    using assms(4) by (simp add: unsigned_of_nat take_bit_nat_eq_self)
  then have idx: "unat (sc_counter s mod word_of_nat (length slots)) =
      unat (sc_counter s) mod length slots"
    by (simp add: unat_mod)
  have s': "r = Some (slots ! (unat (sc_counter s) mod length slots))"
    "s' = s\<lparr>sc_cooldown := cd, sc_counter := sc_counter s + 1\<rparr>"
    using assms(1,3,5) by (auto simp: selectWeightedRR_def cd Let_def idx)
  show "r = Some (slots ! (unat (sc_counter s) mod length slots))"
    and "sc_counter s' = sc_counter s + 1" and "sc_policy s' = sc_policy s"
    by (simp_all add: s')
  show "now \<le> t \<Longrightarrow> cooling t (sc_cooldown s') j = cooling t (sc_cooldown s) j"
    using slot_loop_cooldown [OF cd] by (simp add: s')
qed

section \<open>Fairness\<close>

text \<open>Selections one after the other, at the given instants.\<close>

fun select_run ::
  "instant list \<Rightarrow> AccountStore \<Rightarrow> Scheduler \<Rightarrow> DevAccount option list \<times> Scheduler" where
  "select_run [] store s = ([], s)"
| "select_run (t # ts) store s =
     (let (r, s') = Select t store s; (rs, s'') = select_run ts store s' in (r # rs, s''))"

lemma select_run_slots:
  assumes "List_accounts store \<noteq> []" and "sc_policy s \<noteq> ScheduleNone"
    and "slots \<noteq> []" and "length slots < 2 ^ 64"
    and "sorted ts" and "unat (sc_counter s) + length ts \<le> 2 ^ 64"
    and "\<And>t. t \<in> set ts \<Longrightarrow> slots_of t (sc_cooldown s) (List_accounts store) = slots"
  shows "fst (select_run ts store s) =
    map (\<lambda>i. Some (slots ! ((unat (sc_counter s) + i) mod length slots))) [0..<length ts]"
  using assms
proof (induction ts arbitrary: s)
  case Nil
  then show ?case by simp
next
  case (Cons t ts)
  obtain r s' where sel: "selectWeightedRR t store s = (r, s')" by fastforce
  have Sel: "Select t store s = (r, s')"
    using Cons.prems(2) sel by (simp add: Select_def)
  have slots: "slots = slots_of t (sc_cooldown s) (List_accounts store)"
    using Cons.prems(7) by simp
  note step = selectWeightedRR_slots [OF Cons.prems(1) slots Cons.prems(3,4) sel]
  show ?case
  proof (cases ts)
    case Nil
    then show ?thesis using step(1) Sel by simp
  next
    case (Cons t' ts')
    then have room: "unat (sc_counter s) + 1 < 2 ^ 64"
      using Cons.prems(6) by simp
    then have counter: "unat (sc_counter s') = unat (sc_counter s) + 1"
      unfolding step(2) by (simp add: unat_word_ariths)
    have "slots_of u (sc_cooldown s') (List_accounts store) = slots" if "u \<in> set ts" for u
    proof -
      have "t \<le> u" using Cons.prems(5) that by simp
      then have "slots_of u (sc_cooldown s') (List_accounts store) =
          slots_of u (sc_cooldown s) (List_accounts store)"
        using step(4) slots_of_cong by metis
      then show ?thesis using Cons.prems(7) that by simp
    qed
    then have "fst (select_run ts store s') =
        map (\<lambda>i. Some (slots ! ((unat (sc_counter s') + i) mod length slots))) [0..<length ts]"
      using Cons.IH [of s'] Cons.prems step(3) counter by simp
    moreover have "map (\<lambda>i. Some (slots ! ((unat (sc_counter s) + i) mod length slots)))
        [0..<length (t # ts)] = r #
        map (\<lambda>i. Some (slots ! ((unat (sc_counter s') + i) mod length slots))) [0..<length ts]"
      by (simp add: step(1) counter map_upt_Suc del: upt_Suc)
    ultimately show ?thesis
      using Sel by (simp add: case_prod_beta)
  qed
qed

lemma mset_cycle:
  assumes "xs \<noteq> []"
  shows "mset (map (\<lambda>i. xs ! ((c + i) mod length xs)) [0..<length xs]) = mset xs"
proof -
  have "map (\<lambda>i. xs ! ((c + i) mod length xs)) [0..<length xs] = rotate c xs"
    by (rule nth_equalityI) (simp_all add: nth_rotate)
  moreover have "mset (rotate c xs) = mset xs"
    by (metis append_take_drop_id mset_append rotate_drop_take union_commute)
  ultimately show ?thesis by simp
qed

lemma mset_cycles:
  assumes "xs \<noteq> []"
  shows "mset (map (\<lambda>i. xs ! ((c + i) mod length xs)) [0..<k * length xs]) =
    repeat_mset k (mset xs)"
proof (induction k)
  case 0
  then show ?case by simp
next
  case (Suc k)
  let ?f = "\<lambda>i. xs ! ((c + i) mod length xs)"
  have "[0..<Suc k * length xs] = [0..<k * length xs] @ [k * length xs..<k * length xs + length xs]"
    using upt_add_eq_append [of 0 "k * length xs" "length xs"] by (simp add: add.commute)
  moreover have "map ?f [k * length xs..<k * length xs + length xs] = map ?f [0..<length xs]"
  proof (rule nth_equalityI)
    fix i assume "i < length (map ?f [k * length xs..<k * length xs + length xs])"
    moreover have "(c + (k * length xs + i)) mod length xs = (c + i) mod length xs"
      using mod_mult_self3 [of k "length xs" "c + i"] by (simp add: ac_simps)
    ultimately show "map ?f [k * length xs..<k * length xs + length xs] ! i =
        map ?f [0..<length xs] ! i" by simp
  qed simp
  ultimately show ?case
    using Suc mset_cycle [OF assms, of c] by simp
qed

lemma store_distinct: "store_inv store \<Longrightarrow> distinct (List_accounts store)"
  by (simp add: store_inv_def List_accounts_def distinct_map)

lemma count_list_mset: "count_list xs x = count (mset xs) x"
  by (induction xs) auto

lemma count_list_Some: "count_list (map Some xs) (Some x) = count_list xs x"
  by (induction xs) auto

text \<open>
  C11: weighted round robin is fair. As long as the same accounts are cooling at every selection
  and the 64-bit counter does not wrap, \<open>k\<close> times as many selections as there are slots choose
  every available account exactly \<open>k\<close> times its weight (a weight of zero or less counting as
  one), and never a cooling one.
\<close>
theorem weighted_round_robin_fair:
  assumes "store_inv store" and "sc_policy s \<noteq> ScheduleNone"
    and "slots = slots_of t (sc_cooldown s) (List_accounts store)"
    and "slots \<noteq> []" and "length slots < 2 ^ 64"
    and "sorted ts" and "length ts = k * length slots"
    and "unat (sc_counter s) + length ts \<le> 2 ^ 64"
    and "\<And>u a. u \<in> set ts \<Longrightarrow> a \<in> set (List_accounts store) \<Longrightarrow>
           cooling u (sc_cooldown s) (da_ID a) = cooling t (sc_cooldown s) (da_ID a)"
  shows "count_list (fst (select_run ts store s)) (Some a) =
           (if a \<in> set (List_accounts store) \<and> \<not> cooling t (sc_cooldown s) (da_ID a)
            then k * slot_weight a else 0)
       \<and> None \<notin> set (fst (select_run ts store s))"
proof -
  let ?c = "unat (sc_counter s)"
  have acc: "List_accounts store \<noteq> []"
    using assms(3,4) by (auto simp: slots_of_def)
  have same: "slots_of u (sc_cooldown s) (List_accounts store) = slots" if "u \<in> set ts" for u
    using assms(9) [OF that] slots_of_cong assms(3) by metis
  have run: "fst (select_run ts store s) =
      map Some (map (\<lambda>i. slots ! ((?c + i) mod length slots)) [0..<k * length slots])"
    using select_run_slots [OF acc assms(2,4,5,6,8) same] assms(7) by simp
  have "count_list (fst (select_run ts store s)) (Some a) =
      count (repeat_mset k (mset slots)) a"
    by (simp only: run count_list_Some) (simp only: count_list_mset mset_cycles [OF assms(4)])
  also have "\<dots> = k * count_list slots a"
    by (simp add: count_list_mset)
  also have "\<dots> = (if a \<in> set (List_accounts store) \<and> \<not> cooling t (sc_cooldown s) (da_ID a)
                   then k * slot_weight a else 0)"
    using count_slots_of [OF store_distinct [OF assms(1)]] by (simp add: assms(3))
  finally show ?thesis by (auto simp: run)
qed

definition example_scheduler :: Scheduler where
  "example_scheduler = \<lparr>sc_policy = ScheduleWeightedRR, sc_cooldown = [(2, 100)],
     sc_counter = 7, sc_pinnedID = 0\<rparr>"

definition example_accounts :: AccountStore where
  "example_accounts = \<lparr>as_accounts = [example_account 1 ''one'' 2, example_account 2 ''two'' 1,
     example_account 3 ''three'' 0], as_nextID = 4, as_file = None\<rparr>"

lemmas example_simps = example_scheduler_def example_accounts_def example_account_def
  ScheduleWeightedRR_def ScheduleNone_def

lemma example_accounts_ok: "store_inv example_accounts"
  by (simp add: store_inv_def example_simps)

lemma weighted_round_robin_fair_witness:
  "count_list (fst (select_run [50, 60, 70, 80, 80, 90] example_accounts example_scheduler))
     (Some (example_account 1 ''one'' 2)) = 4"
proof -
  let ?slots = "[example_account 1 ''one'' 2, example_account 1 ''one'' 2,
    example_account 3 ''three'' 0]"
  have slots: "?slots =
      slots_of 50 (sc_cooldown example_scheduler) (List_accounts example_accounts)"
    by (simp add: slots_of_def cooling_def slot_weight_def List_accounts_def example_simps
        numeral_2_eq_2)
  have "count_list (fst (select_run [50, 60, 70, 80, 80, 90] example_accounts example_scheduler))
     (Some (example_account 1 ''one'' 2)) =
     (if example_account 1 ''one'' 2 \<in> set (List_accounts example_accounts) \<and>
        \<not> cooling 50 (sc_cooldown example_scheduler) (da_ID (example_account 1 ''one'' 2))
      then 2 * slot_weight (example_account 1 ''one'' 2) else 0)"
    by (rule conjunct1 [OF weighted_round_robin_fair [OF example_accounts_ok _ slots]])
      (auto simp: example_simps cooling_def List_accounts_def)
  then show ?thesis
    by (simp add: example_simps cooling_def List_accounts_def slot_weight_def)
qed

section \<open>The interface\<close>

text \<open>How long an account rests after a verdict; zero when the verdict ends its rest.\<close>

definition rest_after :: "ForwardOutcome \<Rightarrow> int" where
  "rest_after oc =
     (case Kind oc of
        OutcomeAccountRateLimited \<Rightarrow>
          (if sint (RetryAfter oc) \<le> 0 then 60 * second else sint (RetryAfter oc))
      | OutcomeAccountDead \<Rightarrow> 300 * second
      | OutcomeAccountUnavailable \<Rightarrow> 60 * second
      | _ \<Rightarrow> 0)"

text \<open>
  What the proxy relies on: a selection is one of the accounts, a resting one only when all
  rest, and changes nobody's rest; a report sets the rest of the account it names and of no
  other. \<open>pool\<close> is the accounts and \<open>rests\<close> tells who rests.
\<close>

locale cooling_scheduler =
  fixes select :: "instant \<Rightarrow> 's \<Rightarrow> DevAccount option \<times> 's"
    and report :: "instant \<Rightarrow> 64 word \<Rightarrow> ForwardOutcome \<Rightarrow> 's \<Rightarrow> 's"
    and pool :: "'s \<Rightarrow> DevAccount list"
    and rests :: "instant \<Rightarrow> 's \<Rightarrow> 64 word \<Rightarrow> bool"
    and inv :: "'s \<Rightarrow> bool"
  assumes select_some:
      "inv s \<Longrightarrow> select now s = (r, s') \<Longrightarrow> pool s \<noteq> [] \<Longrightarrow>
         \<exists>a \<in> set (pool s). r = Some a \<and>
           (rests now s (da_ID a) \<longrightarrow> (\<forall>b \<in> set (pool s). rests now s (da_ID b)))"
    and select_none: "inv s \<Longrightarrow> pool s = [] \<Longrightarrow> fst (select now s) = None"
    and select_keeps:
      "inv s \<Longrightarrow> select now s = (r, s') \<Longrightarrow>
         inv s' \<and> pool s' = pool s \<and> (\<forall>t \<ge> now. \<forall>i. rests t s' i = rests t s i)"
    and report_law:
      "inv s \<Longrightarrow>
         inv (report now i oc s) \<and> pool (report now i oc s) = pool s \<and>
         (\<forall>t j. rests t (report now i oc s) j =
            (if j = i then 0 < rest_after oc \<and> t < now + rest_after oc else rests t s j))"
begin

text \<open>A course of selections and reports, each at its instant.\<close>

fun course :: "(instant \<times> (64 word \<times> ForwardOutcome) option) list \<Rightarrow> 's \<Rightarrow> 's" where
  "course [] s = s"
| "course ((now, None) # es) s = course es (snd (select now s))"
| "course ((now, Some (i, oc)) # es) s = course es (report now i oc s)"

lemma course_keeps:
  "inv s \<Longrightarrow> \<forall>e \<in> set es. fst e \<le> t \<and> (\<forall>oc. snd e \<noteq> Some (i, oc)) \<Longrightarrow>
   inv (course es s) \<and> pool (course es s) = pool s \<and> rests t (course es s) i = rests t s i"
proof (induction es s rule: course.induct)
  case (2 now es s)
  obtain r s' where sel: "select now s = (r, s')" by fastforce
  show ?case
    using 2 select_keeps [OF "2.prems"(1) sel] by (simp add: sel)
next
  case (3 now j oc es s)
  have "j \<noteq> i" using "3.prems"(2) by auto
  then show ?case
    using 3 report_law [OF "3.prems"(1), of now j oc] by auto
qed simp

text \<open>An account that was reported rests until its time is over, whatever happens to others.\<close>

lemma reported_rests:
  assumes "inv s" and "0 < rest_after oc" and "t < now + rest_after oc"
    and "\<forall>e \<in> set es. fst e \<le> t \<and> (\<forall>oc. snd e \<noteq> Some (i, oc))"
    and "select t (course es (report now i oc s)) = (Some a, s')"
  shows "a \<in> set (pool s) \<and>
    (da_ID a \<noteq> i \<or>
     (\<forall>b \<in> set (pool s). rests t (course es (report now i oc s)) (da_ID b)))"
proof -
  let ?s = "course es (report now i oc s)"
  note rep = report_law [OF assms(1), of now i oc]
  have c: "inv ?s" "pool ?s = pool s" "rests t ?s i"
    using course_keeps [OF _ assms(4), of "report now i oc s"] rep assms(2,3) by auto
  have "pool ?s \<noteq> []"
    using select_none [OF c(1), of t] assms(5) by auto
  then show ?thesis
    using select_some [OF c(1) assms(5)] c(2,3) by auto
qed

end

text \<open>The weighted policy over a store is such a scheduler; \<open>ScheduleNone\<close> never rests anyone.\<close>

definition dev_select ::
  "instant \<Rightarrow> AccountStore \<times> Scheduler \<Rightarrow> DevAccount option \<times> AccountStore \<times> Scheduler" where
  "dev_select now = (\<lambda>(store, s). let (r, s') = Select now store s in (r, store, s'))"

definition dev_report ::
  "instant \<Rightarrow> 64 word \<Rightarrow> ForwardOutcome \<Rightarrow> AccountStore \<times> Scheduler
     \<Rightarrow> AccountStore \<times> Scheduler" where
  "dev_report now i oc = (\<lambda>(store, s). (store, ReportResult now i oc s))"

definition rr_inv :: "AccountStore \<times> Scheduler \<Rightarrow> bool" where
  "rr_inv = (\<lambda>(store, s). sc_policy s \<noteq> ScheduleNone \<and>
     sum_list (map slot_weight (List_accounts store)) < 2 ^ 64)"

lemma length_slots_of:
  "length (slots_of now cd as) \<le> sum_list (map slot_weight as)"
  by (induction as) (auto simp: slots_of_def)

lemma slots_of_empty:
  "slots_of now cd as = [] \<longleftrightarrow> (\<forall>a \<in> set as. cooling now cd (da_ID a))"
  using set_slots_of [of now cd as] by (auto simp del: set_empty simp flip: set_empty)

lemma selectWeightedRR_all_cooling:
  assumes "List_accounts store \<noteq> []"
    and "slots_of now (sc_cooldown s) (List_accounts store) = []"
    and "selectWeightedRR now store s = (r, s')"
  shows "r = Some (List_accounts store ! 0)" and "sc_policy s' = sc_policy s"
    and "now \<le> t \<Longrightarrow> cooling t (sc_cooldown s') j = cooling t (sc_cooldown s) j"
proof -
  obtain cd where cd: "slot_loop now (List_accounts store) (sc_cooldown s) = ([], cd)"
    using slot_loop_slots [of now "List_accounts store" "sc_cooldown s"] assms(2)
    by (metis prod.collapse)
  have s': "r = Some (List_accounts store ! 0)" "s' = s\<lparr>sc_cooldown := cd\<rparr>"
    using assms(1,3) by (simp_all add: selectWeightedRR_def cd)
  show "r = Some (List_accounts store ! 0)" and "sc_policy s' = sc_policy s"
    by (simp_all add: s')
  show "now \<le> t \<Longrightarrow> cooling t (sc_cooldown s') j = cooling t (sc_cooldown s) j"
    using slot_loop_cooldown [OF cd] by (simp add: s')
qed

lemma selectWeightedRR_law:
  assumes "List_accounts store \<noteq> []"
    and "sum_list (map slot_weight (List_accounts store)) < 2 ^ 64"
    and "selectWeightedRR now store s = (r, s')"
  shows "\<exists>a \<in> set (List_accounts store). r = Some a \<and>
           (cooling now (sc_cooldown s) (da_ID a) \<longrightarrow>
              (\<forall>b \<in> set (List_accounts store). cooling now (sc_cooldown s) (da_ID b)))"
    and "sc_policy s' = sc_policy s"
    and "now \<le> t \<Longrightarrow> cooling t (sc_cooldown s') j = cooling t (sc_cooldown s) j"
proof -
  let ?slots = "slots_of now (sc_cooldown s) (List_accounts store)"
  have "(\<exists>a \<in> set (List_accounts store). r = Some a \<and>
           (cooling now (sc_cooldown s) (da_ID a) \<longrightarrow>
              (\<forall>b \<in> set (List_accounts store). cooling now (sc_cooldown s) (da_ID b)))) \<and>
    sc_policy s' = sc_policy s \<and>
    (now \<le> t \<longrightarrow> cooling t (sc_cooldown s') j = cooling t (sc_cooldown s) j)"
  proof (cases "?slots = []")
    case True
    then show ?thesis
      using selectWeightedRR_all_cooling [OF assms(1) True assms(3)] assms(1) slots_of_empty
      by (metis length_greater_0_conv nth_mem)
  next
    case False
    note sel = selectWeightedRR_slots [OF assms(1) refl False _ assms(3)]
    have len: "length ?slots < 2 ^ 64"
      using length_slots_of assms(2) by (rule le_less_trans)
    have "?slots ! (unat (sc_counter s) mod length ?slots) \<in> set ?slots"
      using False by simp
    then show ?thesis
      using sel [OF len] by (auto simp: set_slots_of)
  qed
  then show "\<exists>a \<in> set (List_accounts store). r = Some a \<and>
           (cooling now (sc_cooldown s) (da_ID a) \<longrightarrow>
              (\<forall>b \<in> set (List_accounts store). cooling now (sc_cooldown s) (da_ID b)))"
    and "sc_policy s' = sc_policy s"
    and "now \<le> t \<Longrightarrow> cooling t (sc_cooldown s') j = cooling t (sc_cooldown s) j"
    by auto
qed

lemma cooling_update:
  "cooling t (AList.update i u cd) j = (if j = i then t < u else cooling t cd j)"
  by (simp add: cooling_def update_conv')

lemma cooling_deleted:
  "cooling t (AList.delete i cd) j = (j \<noteq> i \<and> cooling t cd j)"
  by (simp add: cooling_def delete_conv')

lemma ReportResult_law:
  assumes "sc_policy s \<noteq> ScheduleNone"
  shows "sc_policy (ReportResult now i oc s) = sc_policy s"
    and "cooling t (sc_cooldown (ReportResult now i oc s)) j =
      (if j = i then 0 < rest_after oc \<and> t < now + rest_after oc
       else cooling t (sc_cooldown s) j)"
  using assms
  by (cases "Kind oc";
      auto simp: ReportResult_def rest_after_def Let_def cooling_update cooling_deleted second_def)+

interpretation rr: cooling_scheduler dev_select dev_report "\<lambda>(store, s). List_accounts store"
  "\<lambda>now (store, s) i. cooling now (sc_cooldown s) i" rr_inv
proof unfold_locales
  fix x :: "AccountStore \<times> Scheduler" and now r x' i oc
  obtain store s where x: "x = (store, s)" by fastforce
  assume inv: "rr_inv x"
  then have policy: "sc_policy s \<noteq> ScheduleNone"
    and total: "sum_list (map slot_weight (List_accounts store)) < 2 ^ 64"
    by (simp_all add: rr_inv_def x)
  show "rr_inv (dev_report now i oc x) \<and>
    (case dev_report now i oc x of (store, s) \<Rightarrow> List_accounts store) =
      (case x of (store, s) \<Rightarrow> List_accounts store) \<and>
    (\<forall>t j. (case dev_report now i oc x of (store, s) \<Rightarrow> \<lambda>i. cooling t (sc_cooldown s) i) j =
       (if j = i then 0 < rest_after oc \<and> t < now + rest_after oc
        else (case x of (store, s) \<Rightarrow> \<lambda>i. cooling t (sc_cooldown s) i) j))"
    using ReportResult_law [OF policy] total policy by (simp add: rr_inv_def dev_report_def x)
  show "(case x of (store, s) \<Rightarrow> List_accounts store) = [] \<Longrightarrow> fst (dev_select now x) = None"
    using policy by (simp add: x dev_select_def Select_def selectWeightedRR_def)
  assume sel: "dev_select now x = (r, x')"
  then obtain s' where s': "selectWeightedRR now store s = (r, s')" "x' = (store, s')"
    using policy by (auto simp: x dev_select_def Select_def split: prod.splits)
  note law = selectWeightedRR_law [OF _ total s'(1)]
  show "rr_inv x' \<and>
    (case x' of (store, s) \<Rightarrow> List_accounts store) = (case x of (store, s) \<Rightarrow> List_accounts store) \<and>
    (\<forall>t \<ge> now. \<forall>i. (case x' of (store, s) \<Rightarrow> \<lambda>i. cooling t (sc_cooldown s) i) i =
       (case x of (store, s) \<Rightarrow> \<lambda>i. cooling t (sc_cooldown s) i) i)"
  proof (cases "List_accounts store = []")
    case True
    then have "s' = s" using s'(1) by (simp add: selectWeightedRR_def)
    then show ?thesis using inv by (simp add: x s'(2))
  next
    case False
    then show ?thesis
      using law(2,3) policy total by (simp add: x s'(2) rr_inv_def)
  qed
  assume "(case x of (store, s) \<Rightarrow> List_accounts store) \<noteq> []"
  then show "\<exists>a \<in> set (case x of (store, s) \<Rightarrow> List_accounts store). r = Some a \<and>
      ((case x of (store, s) \<Rightarrow> \<lambda>i. cooling now (sc_cooldown s) i) (da_ID a) \<longrightarrow>
       (\<forall>b \<in> set (case x of (store, s) \<Rightarrow> List_accounts store).
          (case x of (store, s) \<Rightarrow> \<lambda>i. cooling now (sc_cooldown s) i) (da_ID b)))"
    using law(1) by (simp add: x)
qed

section \<open>A reported account rests\<close>

text \<open>Selections and reports on a store, in the order they happen.\<close>

fun sched_course ::
  "(instant \<times> (64 word \<times> ForwardOutcome) option) list \<Rightarrow> AccountStore \<Rightarrow> Scheduler \<Rightarrow> Scheduler"
where
  "sched_course [] store s = s"
| "sched_course ((now, None) # es) store s = sched_course es store (snd (Select now store s))"
| "sched_course ((now, Some (i, oc)) # es) store s =
     sched_course es store (ReportResult now i oc s)"

lemma dev_apply:
  "dev_select now (store, s) = (fst (Select now store s), store, snd (Select now store s))"
  "dev_report now i oc (store, s) = (store, ReportResult now i oc s)"
  by (simp_all add: dev_select_def dev_report_def case_prod_beta)

lemma rr_course: "rr.course es (store, s) = (store, sched_course es store s)"
  by (induction es store s rule: sched_course.induct) (simp_all add: dev_apply)

text \<open>
  C12: an account the verdict blames rests. After a report of a rate limit, a dead credential or
  a temporary refusal, no selection before the rest is over chooses the account, whatever is
  selected and whatever is reported of other accounts in between, unless every account of the
  store rests at that instant.
\<close>
theorem reported_account_rests:
  assumes "sc_policy s \<noteq> ScheduleNone"
    and "sum_list (map slot_weight (List_accounts store)) < 2 ^ 64"
    and "Kind oc \<in> {OutcomeAccountRateLimited, OutcomeAccountDead, OutcomeAccountUnavailable}"
    and "t < now + rest_after oc"
    and "\<forall>e \<in> set es. fst e \<le> t \<and> (\<forall>oc. snd e \<noteq> Some (i, oc))"
    and "s1 = sched_course es store (ReportResult now i oc s)"
    and "Select t store s1 = (Some a, s2)"
  shows "a \<in> set (List_accounts store) \<and>
    (da_ID a \<noteq> i \<or> (\<forall>b \<in> set (List_accounts store). cooling t (sc_cooldown s1) (da_ID b)))"
proof -
  have "0 < rest_after oc"
    using assms(3) by (auto simp: rest_after_def second_def)
  moreover have "rr_inv (store, s)"
    using assms(1,2) by (simp add: rr_inv_def)
  moreover have "dev_select t (rr.course es (dev_report now i oc (store, s))) =
      (Some a, store, s2)"
    using assms(6,7) by (simp add: dev_apply rr_course)
  ultimately show ?thesis
    using rr.reported_rests [of "(store, s)" oc t now es i a "(store, s2)"] assms(4,5,6)
    by (simp add: dev_apply rr_course)
qed

definition example_verdict :: "OutcomeKind \<Rightarrow> ForwardOutcome" where
  "example_verdict k = zero_outcome\<lparr>Kind := k\<rparr>"

lemma reported_account_rests_witness:
  "fst (Select 300 example_accounts (sched_course [(200, None), (250, Some (3, example_verdict OutcomeSuccess))]
     example_accounts (ReportResult 150 1 (example_verdict OutcomeAccountDead) example_scheduler)))
   \<noteq> Some (example_account 1 ''one'' 2)"
proof
  let ?es = "[(200, None), (250, Some (3, example_verdict OutcomeSuccess))]"
  let ?s1 = "sched_course ?es
     example_accounts (ReportResult 150 1 (example_verdict OutcomeAccountDead) example_scheduler)"
  assume "fst (Select 300 example_accounts ?s1) = Some (example_account 1 ''one'' 2)"
  then obtain s2 where sel:
    "Select 300 example_accounts ?s1 = (Some (example_account 1 ''one'' 2), s2)"
    by (metis prod.collapse)
  have "\<forall>b \<in> set (List_accounts example_accounts). cooling 300 (sc_cooldown ?s1) (da_ID b)"
    using reported_account_rests [OF _ _ _ _ _ refl sel]
    by (simp add: example_simps List_accounts_def slot_weight_def example_verdict_def
        rest_after_def second_def)
  moreover have "\<not> cooling 300 (sc_cooldown ?s1) 3"
    by code_simp
  ultimately show False
    by (simp add: example_simps List_accounts_def)
qed

section \<open>The HTTP API\<close>

text \<open>
  \<^verbatim>\<open>Duration.String()\<close> of a whole, non-negative number of seconds, which is what the status
  shows.
\<close>

definition seconds_text :: "int \<Rightarrow> string" where
  "seconds_text n =
     (let h = nat (n div 3600); m = nat (n div 60 mod 60); s = nat (n mod 60) in
      (if h > 0 then decimal h @ ''h'' else []) @
      (if h > 0 \<or> m > 0 then decimal m @ ''m'' else []) @ decimal s @ ''s'')"

text \<open>\<^verbatim>\<open>until.Sub(now).Truncate(time.Second)\<close>, in seconds; \<^verbatim>\<open>Sub\<close> saturates.\<close>

definition remaining_seconds :: "instant \<Rightarrow> instant \<Rightarrow> int" where
  "remaining_seconds now until = min (until - now) (2 ^ 63 - 1) div second"

definition Status :: "instant \<Rightarrow> Scheduler \<Rightarrow> string \<times> (string, string) gomap \<times> 64 word" where
  "Status now s =
     (sc_policy s,
      map (\<lambda>(i, until). (FormatInt i, seconds_text (remaining_seconds now until)))
        (filter (\<lambda>(i, until). now < until) (AList.clearjunk (sc_cooldown s))),
      sc_pinnedID s)"

datatype scheduler_body =
    StatusJSON "string \<times> (string, string) gomap \<times> 64 word" "(string, nat) gomap"
  | PolicyJSON string
  | PinnedJSON "64 word"
  | WeightJSON "64 word" go_int
  | SchedulerError string

type_synonym scheduler_response = "nat \<times> scheduler_body"

text \<open>The decoders of the three request bodies; \<open>None\<close> is an error of package json.\<close>

record scheduler_json =
  sj_policy :: "bytes \<Rightarrow> string option"
  sj_account_id :: "bytes \<Rightarrow> 64 word option"
  sj_weight :: "bytes \<Rightarrow> go_int option"

definition getStatus :: "instant \<Rightarrow> AccountStore \<Rightarrow> Scheduler \<Rightarrow> scheduler_response" where
  "getStatus now store s =
     (200, StatusJSON (Status now s)
        (fold (\<lambda>a m. AList.update (FormatInt (da_ID a) @ '' ('' @ da_Name a @ '')'')
                       (slot_weight a) m)
           (List_accounts store) []))"

definition invalid_json :: scheduler_response where
  "invalid_json = (400, SchedulerError ''{\"error\":\"invalid json\"}'')"

definition setPolicy ::
  "scheduler_json \<Rightarrow> bytes \<Rightarrow> Scheduler \<Rightarrow> scheduler_response \<times> Scheduler" where
  "setPolicy js body s =
     (case sj_policy js body of
        None \<Rightarrow> (invalid_json, s)
      | Some policy \<Rightarrow>
          if policy \<in> {ScheduleNone, ScheduleWeightedRR}
          then ((200, PolicyJSON policy), SetPolicy policy s)
          else ((400, SchedulerError ''{\"error\":\"unknown policy, use: none, weighted_rr\"}''), s))"

definition setPinned ::
  "scheduler_json \<Rightarrow> bytes \<Rightarrow> AccountStore \<Rightarrow> Scheduler \<Rightarrow> scheduler_response \<times> Scheduler"
where
  "setPinned js body store s =
     (case sj_account_id js body of
        None \<Rightarrow> (invalid_json, s)
      | Some i \<Rightarrow>
          if sint i > 0 \<and> Get i store = None
          then ((404, SchedulerError ''{\"error\":\"account not found\"}''), s)
          else ((200, PinnedJSON i), SetPinned i s))"

definition setWeight ::
  "store_env \<Rightarrow> scheduler_json \<Rightarrow> bytes \<Rightarrow> string \<Rightarrow> AccountStore
     \<Rightarrow> scheduler_response \<times> AccountStore" where
  "setWeight env js body idStr store =
     (let (i, bad) = ParseInt idStr in
      if bad then ((400, SchedulerError ''{\"error\":\"invalid id\"}''), store)
      else case sj_weight js body of
        None \<Rightarrow> (invalid_json, store)
      | Some weight \<Rightarrow>
          if sint weight < 0
          then ((400, SchedulerError ''{\"error\":\"weight must be >= 0\"}''), store)
          else case Get i store of
            None \<Rightarrow> ((404, SchedulerError ''{\"error\":\"account not found\"}''), store)
          | Some account \<Rightarrow>
              ((200, WeightJSON i weight),
               snd (Update env i (account\<lparr>da_Weight := weight\<rparr>) store)))"

definition SchedulerHandler ::
  "store_env \<Rightarrow> scheduler_json \<Rightarrow> instant \<Rightarrow> string \<Rightarrow> string \<Rightarrow> bytes
     \<Rightarrow> AccountStore \<Rightarrow> Scheduler \<Rightarrow> scheduler_response \<times> AccountStore \<times> Scheduler" where
  "SchedulerHandler env js now httpMethod urlPath body store s =
     (let path = TrimPrefix (TrimPrefix urlPath ''/api/scheduler'') ''/'' in
      if path = [] \<and> httpMethod = ''GET'' then (getStatus now store s, store, s)
      else if path = ''policy'' \<and> httpMethod = ''PUT'' then
        (let (resp, s) = setPolicy js body s in (resp, store, s))
      else if path = ''pinned'' \<and> httpMethod = ''PUT'' then
        (let (resp, s) = setPinned js body store s in (resp, store, s))
      else if HasPrefix path ''weight/'' \<and> httpMethod = ''PUT'' then
        (let (resp, store) = setWeight env js body (TrimPrefix path ''weight/'') store
         in (resp, store, s))
      else ((404, SchedulerError ''{\"error\":\"not found\"}''), store, s))"

section \<open>What the API can change\<close>

lemma setPolicy_cases:
  "setPolicy js body s = (r, t) \<Longrightarrow>
   (t = s \<or> (\<exists>p \<in> {ScheduleNone, ScheduleWeightedRR}. t = SetPolicy p s)) \<and>
   (fst r \<noteq> 200 \<longrightarrow> t = s)"
  by (auto simp: setPolicy_def split: option.splits if_splits)

lemma setPinned_cases:
  "setPinned js body store s = (r, t) \<Longrightarrow>
   (t = s \<or> (\<exists>i. t = SetPinned i s \<and> (sint i \<le> 0 \<or> Get i store \<noteq> None))) \<and>
   (fst r \<noteq> 200 \<longrightarrow> t = s)"
  by (auto simp: setPinned_def split: option.splits if_splits)

lemma setWeight_updates:
  "setWeight env js body p store = (r, t) \<Longrightarrow>
   t = store \<or>
   fst r = 200 \<and> (\<exists>i a v. Get i store = Some a \<and> 0 \<le> sint v \<and>
     t = snd (Update env i (a\<lparr>da_Weight := v\<rparr>) store))"
  unfolding setWeight_def
  by (cases "ParseInt p"; cases "sj_weight js body"; cases "Get (fst (ParseInt p)) store")
    (auto simp: not_less split: if_splits)

lemma setWeight_cases:
  assumes "store_inv store" and "setWeight env js body p store = (r, t)"
  shows "store_inv t \<and>
    (accounts_map t = accounts_map store
      \<or> (\<exists>i a w. accounts_map store i = Some a \<and> 0 \<le> sint w \<and>
           accounts_map t = (accounts_map store)(i \<mapsto> a\<lparr>da_Weight := w\<rparr>))) \<and>
    (fst r \<noteq> 200 \<longrightarrow> t = store)"
proof (cases "t = store")
  case True
  then show ?thesis using assms(1) by simp
next
  case False
  then obtain i a v where a: "Get i store = Some a" and v: "0 \<le> sint v"
    and t: "t = snd (Update env i (a\<lparr>da_Weight := v\<rparr>) store)" and r: "fst r = 200"
    using setWeight_updates [OF assms(2)] by blast
  have i: "da_ID a = i" using dev_store.get_id [OF assms(1) a] .
  obtain u t' where up: "Update env i (a\<lparr>da_Weight := v\<rparr>) store = (u, t')"
    by fastforce
  have same: "a\<lparr>da_Weight := v, da_ID := i\<rparr> = a\<lparr>da_Weight := v\<rparr>"
    using i by (cases a) simp
  have "store_inv t' \<and> accounts_map t' = (accounts_map store)(i \<mapsto> a\<lparr>da_Weight := v\<rparr>)"
    using dev_store.read_modify_write [OF assms(1) a, of env "\<lambda>a. a\<lparr>da_Weight := v\<rparr>" u t'] up
    by (simp add: lookup_accounts_map same)
  moreover have "accounts_map store i = Some a"
    using a by (simp add: accounts_map_def)
  ultimately show ?thesis using v r up t by auto
qed

lemma SchedulerHandler_cases:
  assumes "SchedulerHandler env js now httpMethod urlPath body store s = (resp, store', s')"
  shows "(store' = store \<and> s' = s)
    \<or> (setPolicy js body s = (resp, s') \<and> store' = store)
    \<or> (setPinned js body store s = (resp, s') \<and> store' = store)
    \<or> (\<exists>p. setWeight env js body p store = (resp, store') \<and> s' = s)"
  using assms unfolding SchedulerHandler_def Let_def
  by (auto split: prod.splits if_splits)



end
