(* ===== verification/DevProxy.thy ===== *)
theory DevProxy
  imports Scheduler Writer
begin

text \<open>
  The proxy of the development server, \<^verbatim>\<open>devkit/devserver/proxy.go\<close>: it selects an account,
  forwards the request to the plugin, reports the verdict to the scheduler and, when the
  scheduler calls the verdict retryable, goes on with another account.

  The plugin is a parameter: for every attempt and request a program over the writer it is given.
  The response writer of the HTTP server is a parameter too (\<open>ops\<close>, with a state of any type);
  the buffer of a non-streaming request is the code's own. The clock is read at the selection
  and at the report of each attempt.
\<close>

section \<open>The buffer\<close>

record devBufferWriter =
  db_headers :: header
  db_code :: go_int
  db_body :: bytes

definition new_devBufferWriter :: devBufferWriter where
  "new_devBufferWriter = \<lparr>db_headers = [], db_code = 0, db_body = []\<rparr>"

definition db_Header :: "(header \<Rightarrow> header) \<Rightarrow> devBufferWriter \<Rightarrow> devBufferWriter" where
  "db_Header f w = w\<lparr>db_headers := f (db_headers w)\<rparr>"

definition db_Write :: "bytes \<Rightarrow> devBufferWriter \<Rightarrow> write_result \<times> devBufferWriter" where
  "db_Write data w = ((length data, None), w\<lparr>db_body := db_body w @ data\<rparr>)"

definition db_WriteHeader :: "go_int \<Rightarrow> devBufferWriter \<Rightarrow> devBufferWriter" where
  "db_WriteHeader statusCode w = w\<lparr>db_code := statusCode\<rparr>"

definition db_BeginStreamCompletion :: "devBufferWriter \<Rightarrow> devBufferWriter" where
  "db_BeginStreamCompletion w = w"

definition dev_buffer_ops :: "devBufferWriter writer_ops" where
  "dev_buffer_ops =
     \<lparr>wr_header = db_Header, wr_status = db_WriteHeader, wr_write = db_Write,
      wr_begin = db_BeginStreamCompletion\<rparr>"

interpretation dev_buffer: response_writer dev_buffer_ops db_body "\<lambda>_. None" "\<lambda>_. True"
  by unfold_locales
    (auto simp: dev_buffer_ops_def db_Header_def db_Write_def db_WriteHeader_def
      db_BeginStreamCompletion_def)

section \<open>Answers\<close>

text \<open>\<^verbatim>\<open>http.Error\<close>: the text ends with a newline.\<close>

definition http_Error :: "'w writer_ops \<Rightarrow> string \<Rightarrow> go_int \<Rightarrow> 'w \<Rightarrow> 'w" where
  "http_Error ops msg code w =
     (let w = wr_header ops (\<lambda>h. HeaderSet ''X-Content-Type-Options'' ''nosniff''
                (HeaderSet ''Content-Type'' ''text/plain; charset=utf-8''
                  (AList.delete ''Content-Length'' h))) w;
          w = wr_status ops code w
      in snd (wr_write ops (msg @ [CHR 0x0A]) w))"

definition writeForwardOutcome ::
  "'w writer_ops \<Rightarrow> ForwardOutcome \<Rightarrow> devBufferWriter option \<Rightarrow> 'w \<Rightarrow> 'w" where
  "writeForwardOutcome ops outcome buffered w =
     (let u = Upstream outcome;
          (statusCode, headers, body) =
            (case buffered of
               None \<Rightarrow> (up_StatusCode u, up_Headers u, up_Body u)
             | Some b \<Rightarrow>
                 (if up_StatusCode u = 0 \<and> sint (db_code b) > 0 then db_code b else up_StatusCode u,
                  if length (up_Headers u) = 0 then db_headers b else up_Headers u,
                  if length (up_Body u) = 0 \<and> length (db_body b) > 0 then db_body b
                  else up_Body u));
          statusCode = (if statusCode = 0 then 200 else statusCode);
          w = wr_status ops statusCode (wr_header ops (add_all headers) w)
      in if length body = 0 then w else snd (wr_write ops body w))"

section \<open>One attempt\<close>

text \<open>
  \<open>pc_plugin k\<close> is what the plugin does at its \<open>k\<close>-th call, \<open>pc_clock k\<close> the instants of the
  selection and of the report of attempt \<open>k\<close>.
\<close>

record proxy_call =
  pc_plugin :: "nat \<Rightarrow> ForwardRequest \<Rightarrow> (ForwardOutcome \<times> go_error option) writer_prog"
  pc_body :: bytes
  pc_headers :: header
  pc_path :: string
  pc_clock :: "nat \<Rightarrow> instant \<times> instant"

definition wants_stream :: "bytes \<Rightarrow> bool" where
  "wants_stream body \<longleftrightarrow>
     Contains body ''\"stream\":true'' \<or> Contains body ''\"stream\": true''"

definition dev_request :: "proxy_call \<Rightarrow> DevAccount \<Rightarrow> ForwardRequest" where
  "dev_request c account =
     \<lparr>fr_Account = zero_account\<lparr>ac_ID := da_ID account, ac_Credentials := da_Credentials account,
                      ac_ProxyURL := da_ProxyURL account\<rparr>,
      fr_Body = pc_body c,
      fr_Headers = HeaderSet ''X-Forwarded-Path'' (pc_path c) (pc_headers c),
      fr_Model = [], fr_DispatchPlan = zero_plan, fr_Stream = wants_stream (pc_body c),
      fr_TraceFinalError = False\<rparr>"

text \<open>What one call of the plugin leaves: its verdict and error, the buffer and its trace.\<close>

record dev_attempt =
  at_account :: DevAccount
  at_outcome :: ForwardOutcome
  at_err :: "go_error option"
  at_buffer :: "devBufferWriter option"
  at_trace :: write_trace

definition forward_attempt ::
  "'w writer_ops \<Rightarrow> proxy_call \<Rightarrow> nat \<Rightarrow> DevAccount \<Rightarrow> 'w \<Rightarrow> dev_attempt \<times> 'w" where
  "forward_attempt ops c k account w =
     (let prog = pc_plugin c k (dev_request c account) in
      if wants_stream (pc_body c)
      then (let ((oc, err), w, tr) = run_prog ops prog w
            in (\<lparr>at_account = account, at_outcome = oc, at_err = err, at_buffer = None,
                 at_trace = tr\<rparr>, w))
      else (let ((oc, err), b, tr) = run_prog dev_buffer_ops prog new_devBufferWriter
            in (\<lparr>at_account = account, at_outcome = oc, at_err = err, at_buffer = Some b,
                 at_trace = tr\<rparr>, w)))"

section \<open>The failover loop\<close>

definition selectAccount ::
  "instant \<Rightarrow> AccountStore \<Rightarrow> Scheduler option \<Rightarrow> DevAccount option \<times> Scheduler option" where
  "selectAccount now store sched =
     (case sched of
        None \<Rightarrow> (First store, None)
      | Some s \<Rightarrow> (let (a, s) = Select now store s in (a, Some s)))"

definition exhausted :: "'w writer_ops \<Rightarrow> 'w \<Rightarrow> 'w" where
  "exhausted ops w = http_Error ops ''{\"error\":\"all accounts exhausted\"}'' 503 w"

text \<open>The answer after an attempt that is not retried.\<close>

definition answer :: "'w writer_ops \<Rightarrow> bool \<Rightarrow> dev_attempt \<Rightarrow> 'w \<Rightarrow> 'w" where
  "answer ops stream att w =
     (case at_err att of
        Some e \<Rightarrow>
          if up_StatusCode (Upstream (at_outcome att)) = 0
          then http_Error ops (''{\"error\":\"'' @ error_text e @ ''\"}'') 502 w
          else if \<not> stream then writeForwardOutcome ops (at_outcome att) (at_buffer att) w
          else w
      | None \<Rightarrow>
          if \<not> stream then writeForwardOutcome ops (at_outcome att) (at_buffer att) w else w)"

definition attempt_retryable :: "dev_attempt \<Rightarrow> Scheduler option \<Rightarrow> bool" where
  "attempt_retryable att sched =
     (case sched of None \<Rightarrow> False | Some s \<Rightarrow> IsRetryable (at_outcome att) (at_err att) s)"

text \<open>
  \<open>failover_loop n k account tried sched w\<close> is the loop with \<open>n\<close> attempts left at attempt \<open>k\<close>;
  \<open>account\<close> is the account selected before the loop, used at attempt 0. It returns the writer,
  the scheduler and the attempts made.
\<close>

fun failover_loop ::
  "'w writer_ops \<Rightarrow> proxy_call \<Rightarrow> AccountStore \<Rightarrow> nat \<Rightarrow> nat \<Rightarrow> DevAccount \<Rightarrow> 64 word list
     \<Rightarrow> Scheduler option \<Rightarrow> 'w \<Rightarrow> 'w \<times> Scheduler option \<times> dev_attempt list" where
  "failover_loop ops c store 0 k account tried sched w = (exhausted ops w, sched, [])"
| "failover_loop ops c store (Suc n) k account tried sched w =
     (case (if k > 0 then selectAccount (fst (pc_clock c k)) store sched
            else (Some account, sched)) of
        (None, sched) \<Rightarrow> (exhausted ops w, sched, [])
      | (Some account, sched) \<Rightarrow>
          if k > 0 \<and> da_ID account \<in> set tried then (exhausted ops w, sched, [])
          else
            (let (att, w) = forward_attempt ops c k account w;
                 sched = map_option
                   (ReportResult (snd (pc_clock c k)) (da_ID account) (at_outcome att)) sched
             in if attempt_retryable att sched
                then (let (w, sched, atts) = failover_loop ops c store n (Suc k) account
                            (da_ID account # tried) sched w
                      in (w, sched, att # atts))
                else (answer ops (wants_stream (pc_body c)) att w, sched, [att])))"

text \<open>\<open>body_ok\<close>: reading the request's body succeeded.\<close>

definition handleHTTP ::
  "'w writer_ops \<Rightarrow> proxy_call \<Rightarrow> bool \<Rightarrow> AccountStore \<Rightarrow> Scheduler option \<Rightarrow> 'w
     \<Rightarrow> 'w \<times> Scheduler option \<times> dev_attempt list" where
  "handleHTTP ops c body_ok store sched w =
     (case selectAccount (fst (pc_clock c 0)) store sched of
        (None, sched) \<Rightarrow>
          (http_Error ops ''{\"error\":\"no accounts configured\"}'' 503 w, sched, [])
      | (Some account, sched) \<Rightarrow>
          if \<not> body_ok
          then (http_Error ops ''{\"error\":\"read body failed\"}'' 400 w, sched, [])
          else
            (let n = length (List_accounts store);
                 maxAttempts = (if n = 0 then 1 else n)
             in failover_loop ops c store maxAttempts 0 account [] sched w))"

section \<open>WebSocket requests\<close>

definition isWebSocketUpgrade :: "header \<Rightarrow> bool" where
  "isWebSocketUpgrade h \<longleftrightarrow> EqualFold (HeaderGet h ''Upgrade'') ''websocket''"

text \<open>Message types: 1 is text, 2 binary, for the SDK and for the WebSocket package alike.\<close>

definition read_type :: "go_int \<Rightarrow> go_int" where
  "read_type msgType = (if msgType = 2 then 2 else 1)"

definition write_type :: "go_int \<Rightarrow> go_int" where
  "write_type messageType = (if messageType = 2 then 2 else 1)"

section \<open>Lemmas: the loop\<close>

lemma Select_policy: "Select now store s = (r, s') \<Longrightarrow> sc_policy s' = sc_policy s"
  by (auto simp: Select_def selectWeightedRR_def Let_def split: if_splits option.splits prod.splits)

lemma ReportResult_policy: "sc_policy (ReportResult now i oc s) = sc_policy s"
  by (auto simp: ReportResult_def Let_def split: OutcomeKind.splits)

lemma selectAccount_policy:
  "selectAccount now store sched = (r, sched') \<Longrightarrow>
   map_option sc_policy sched' = map_option sc_policy sched"
  by (auto simp: selectAccount_def Select_policy split: option.splits prod.splits)

lemma report_policy:
  "map_option sc_policy (map_option (ReportResult now i oc) sched) = map_option sc_policy sched"
  by (cases sched) (simp_all add: ReportResult_policy)

lemma attempt_retryable_cong:
  "map_option sc_policy sched = map_option sc_policy sched' \<Longrightarrow>
   attempt_retryable att sched = attempt_retryable att sched'"
  by (cases sched; cases sched') (auto simp: attempt_retryable_def IsRetryable_def)

lemma Get_in_store: "Get i store = Some a \<Longrightarrow> a \<in> set (List_accounts store)"
  by (auto simp: Get_def List_accounts_def find_Some_iff)

lemma First_in_store: "First store = Some a \<Longrightarrow> a \<in> set (List_accounts store)"
  by (auto simp: First_def List_accounts_def split: if_splits)

lemma selectWeightedRR_in_store:
  assumes "selectWeightedRR now store s = (Some a, s')"
    and "sum_list (map slot_weight (List_accounts store)) < 2 ^ 64"
  shows "a \<in> set (List_accounts store)"
proof -
  have "List_accounts store \<noteq> []"
    using assms(1) by (auto simp: selectWeightedRR_def)
  then show ?thesis using selectWeightedRR_law(1) [OF _ assms(2,1)] by auto
qed

lemma selectAccount_in_store:
  assumes "selectAccount now store sched = (Some a, sched')"
    and "sum_list (map slot_weight (List_accounts store)) < 2 ^ 64"
  shows "a \<in> set (List_accounts store)"
  using assms Get_in_store First_in_store selectWeightedRR_in_store
  by (auto simp: selectAccount_def Select_def split: option.splits if_splits prod.splits)

lemma forward_attempt_account:
  "forward_attempt ops c k account w = (att, w') \<Longrightarrow> at_account att = account"
  by (auto simp: forward_attempt_def Let_def split: if_splits prod.splits)

lemma forward_attempt_buffered:
  "\<not> wants_stream (pc_body c) \<Longrightarrow> forward_attempt ops c k account w = (att, w') \<Longrightarrow> w' = w"
  by (auto simp: forward_attempt_def Let_def split: prod.splits)

text \<open>The steps of the loop.\<close>

lemma failover_loop_cases:
  assumes "failover_loop ops c store (Suc n) k account tried sched w = (w', sched', atts)"
  obtains (stop) "k > 0" "w' = exhausted ops w" "atts = []"
  | (go) a sched1 att w1 sched2 where
      "k = 0 \<and> a = account \<and> sched1 = sched \<or>
       k > 0 \<and> selectAccount (fst (pc_clock c k)) store sched = (Some a, sched1) \<and>
       da_ID a \<notin> set tried"
      "forward_attempt ops c k a w = (att, w1)"
      "sched2 = map_option (ReportResult (snd (pc_clock c k)) (da_ID a) (at_outcome att)) sched1"
      "attempt_retryable att sched2 \<and>
         (\<exists>atts'. failover_loop ops c store n (Suc k) a (da_ID a # tried) sched2 w1 =
                  (w', sched', atts') \<and> atts = att # atts') \<or>
       \<not> attempt_retryable att sched2 \<and> w' = answer ops (wants_stream (pc_body c)) att w1 \<and>
         atts = [att]"
proof -
  obtain r sched1 where r: "(if k > 0 then selectAccount (fst (pc_clock c k)) store sched
      else (Some account, sched)) = (r, sched1)" by fastforce
  show ?thesis
  proof (cases "r = None \<or> k > 0 \<and> da_ID (the r) \<in> set tried")
    case True
    then show ?thesis
      using assms r by (intro stop) (auto split: option.splits if_splits)
  next
    case False
    then obtain a where a: "r = Some a" "k > 0 \<longrightarrow> da_ID a \<notin> set tried" by auto
    obtain att w1 where att: "forward_attempt ops c k a w = (att, w1)" by fastforce
    show ?thesis
      using assms r a att
      by (intro go [of a sched1 att w1]) (auto simp: Let_def split: if_splits prod.splits)
  qed
qed

lemma step_policy:
  assumes "k = 0 \<and> a = account \<and> sched1 = sched \<or>
      k > 0 \<and> selectAccount now store sched = (Some a, sched1) \<and> da_ID a \<notin> set tried"
    and "sched2 = map_option (ReportResult now' i oc) sched1"
  shows "map_option sc_policy sched2 = map_option sc_policy sched"
proof -
  have "map_option sc_policy sched1 = map_option sc_policy sched"
    using assms(1) selectAccount_policy [of now store sched "Some a" sched1] by blast
  then show ?thesis
    unfolding assms(2) report_policy .
qed

lemma step_account:
  assumes "k = 0 \<and> a = account \<and> sched1 = sched \<or>
      k > 0 \<and> selectAccount now store sched = (Some a, sched1) \<and> da_ID a \<notin> set tried"
    and "sum_list (map slot_weight (List_accounts store)) < 2 ^ 64"
    and "account \<in> set (List_accounts store)" and "k = 0 \<Longrightarrow> tried = []"
  shows "a \<in> set (List_accounts store)" and "da_ID a \<notin> set tried"
  using assms(1) assms(3,4) selectAccount_in_store [OF _ assms(2), of now sched a sched1] by auto

text \<open>
  The attempts of the loop: at most \<open>n\<close>, different accounts of the store, none tried before,
  and every one but the last retryable.
\<close>

definition attempt_ids :: "dev_attempt list \<Rightarrow> 64 word list" where
  "attempt_ids atts = map (da_ID \<circ> at_account) atts"

definition retried :: "Scheduler option \<Rightarrow> dev_attempt list \<Rightarrow> bool" where
  "retried sched atts \<longleftrightarrow> (\<forall>a \<in> set (butlast atts). attempt_retryable a sched)"

lemma attempt_ids_simps [simp]:
  "attempt_ids [] = []" "attempt_ids (a # as) = da_ID (at_account a) # attempt_ids as"
  by (simp_all add: attempt_ids_def)

lemma failover_loop_attempts:
  assumes "failover_loop ops c store n k account tried sched w = (w', sched', atts)"
    and "sum_list (map slot_weight (List_accounts store)) < 2 ^ 64"
    and "account \<in> set (List_accounts store)" and "k = 0 \<Longrightarrow> tried = []"
  shows "length atts \<le> n \<and> distinct (attempt_ids atts) \<and>
    set (attempt_ids atts) \<inter> set tried = {} \<and>
    (\<forall>a \<in> set atts. at_account a \<in> set (List_accounts store)) \<and> retried sched atts"
  using assms
proof (induction n arbitrary: k account tried sched w atts)
  case 0
  then show ?case by (simp add: retried_def)
next
  case (Suc n)
  from Suc.prems(1) show ?case
  proof (cases rule: failover_loop_cases)
    case stop
    then show ?thesis by (simp add: retried_def)
  next
    case (go a sched1 att w1 sched2)
    note a = step_account [OF go(1) Suc.prems(2,3,4)]
    note pol = step_policy [OF go(1,3)]
    have acc: "at_account att = a" using forward_attempt_account go(2) .
    show ?thesis
    proof (cases "attempt_retryable att sched2")
      case False
      then show ?thesis
        using go(4) a acc by (simp add: retried_def)
    next
      case True
      then obtain atts' where rest:
        "failover_loop ops c store n (Suc k) a (da_ID a # tried) sched2 w1 = (w', sched', atts')"
        and atts: "atts = att # atts'" using go(4) by auto
      have "\<And>x. attempt_retryable x sched2 = attempt_retryable x sched"
        using attempt_retryable_cong [OF pol] .
      then show ?thesis
        using Suc.IH [OF rest Suc.prems(2) a(1)] a acc True by (auto simp: atts retried_def)
    qed
  qed
qed

text \<open>How the loop of a buffered request ends: one answer, given by the last attempt.\<close>

definition buffered_answer ::
  "'w writer_ops \<Rightarrow> Scheduler option \<Rightarrow> dev_attempt list \<Rightarrow> 'w \<Rightarrow> 'w" where
  "buffered_answer ops sched atts w =
     (if attempt_retryable (last atts) sched then exhausted ops w
      else answer ops False (last atts) w)"

lemma failover_loop_answer:
  assumes "failover_loop ops c store n k account tried sched w = (w', sched', atts)"
    and "\<not> wants_stream (pc_body c)"
  shows "if atts = [] then w' = exhausted ops w \<and> (n = 0 \<or> k > 0)
         else w' = buffered_answer ops sched atts w"
  using assms(1)
proof (induction n arbitrary: k account tried sched w atts)
  case 0
  then show ?case by simp
next
  case (Suc n)
  from Suc.prems show ?case
  proof (cases rule: failover_loop_cases)
    case stop
    then show ?thesis by simp
  next
    case (go a sched1 att w1 sched2)
    have w1: "w1 = w" using forward_attempt_buffered [OF assms(2)] go(2) .
    note pol = step_policy [OF go(1,3)]
    note cong = attempt_retryable_cong [OF pol]
    show ?thesis
    proof (cases "attempt_retryable att sched2")
      case False
      then show ?thesis
        using go(4) assms(2) cong by (simp add: buffered_answer_def w1)
    next
      case True
      then obtain atts' where rest:
        "failover_loop ops c store n (Suc k) a (da_ID a # tried) sched2 w1 = (w', sched', atts')"
        and atts: "atts = att # atts'" using go(4) by auto
      then show ?thesis
        using Suc.IH [OF rest] True cong by (simp add: buffered_answer_def w1 atts)
    qed
  qed
qed

text \<open>
  C13: a buffered request gets one answer. With accounts configured and a readable body, the
  plugin is called for at least one and at most as many accounts as the store has, all
  different and all of the store, and every verdict but the last asked for a replay. The
  client's writer sees nothing of the attempts but one answer at the end: the last verdict, or
  the error of the last call, or status 503 when the last verdict asked for a replay too.
\<close>
theorem buffered_request_one_answer:
  assumes "List_accounts store \<noteq> []"
    and "sum_list (map slot_weight (List_accounts store)) < 2 ^ 64"
    and "\<not> wants_stream (pc_body c)"
    and "handleHTTP ops c True store sched w = (w', sched', atts)"
  shows "1 \<le> length atts \<and> length atts \<le> length (List_accounts store)
       \<and> distinct (attempt_ids atts)
       \<and> (\<forall>a \<in> set atts. at_account a \<in> set (List_accounts store))
       \<and> retried sched atts
       \<and> w' = buffered_answer ops sched atts w"
proof -
  obtain r sched1 where sel: "selectAccount (fst (pc_clock c 0)) store sched = (r, sched1)"
    by fastforce
  have "r \<noteq> None"
  proof
    assume "r = None"
    then show False
      using sel assms(1) selectWeightedRR_law(1) [OF assms(1,2)]
      by (fastforce simp: selectAccount_def Select_def First_def List_accounts_def
          split: option.splits if_splits prod.splits)
  qed
  then obtain a where a: "r = Some a" by auto
  have loop: "failover_loop ops c store (length (List_accounts store)) 0 a [] sched1 w =
      (w', sched', atts)"
    using assms(1,4) by (simp add: handleHTTP_def sel a Let_def)
  have pol: "map_option sc_policy sched1 = map_option sc_policy sched"
    using selectAccount_policy [OF sel] .
  note cong = attempt_retryable_cong [OF pol]
  have mem: "a \<in> set (List_accounts store)"
    using selectAccount_in_store [OF _ assms(2)] sel a by blast
  show ?thesis
    using failover_loop_attempts [OF loop assms(2) mem] failover_loop_answer [OF loop assms(3)]
      assms(1) cong by (cases atts) (simp_all add: buffered_answer_def retried_def)
qed

section \<open>Lemmas: a streamed request\<close>

text \<open>What the answer adds to a stream after the attempts.\<close>

definition stream_tail :: "Scheduler option \<Rightarrow> dev_attempt list \<Rightarrow> bytes" where
  "stream_tail sched atts =
     (if atts = [] \<or> attempt_retryable (last atts) sched
      then ''{\"error\":\"all accounts exhausted\"}'' @ [CHR 0x0A]
      else case at_err (last atts) of
        Some e \<Rightarrow> if up_StatusCode (Upstream (at_outcome (last atts))) = 0
                  then ''{\"error\":\"'' @ error_text e @ ''\"}'' @ [CHR 0x0A] else []
      | None \<Rightarrow> [])"

definition attempts_body :: "dev_attempt list \<Rightarrow> bytes" where
  "attempts_body atts = concat (map (written \<circ> at_trace) atts)"

lemma attempts_body_simps [simp]:
  "attempts_body [] = []" "attempts_body (a # as) = written (at_trace a) @ attempts_body as"
  by (simp_all add: attempts_body_def)

text \<open>Over any writer that keeps the interface.\<close>

context response_writer
begin

lemma http_Error_body:
  assumes "inv w" and "failed (http_Error ops msg code w) = None"
  shows "body (http_Error ops msg code w) = body w @ msg @ [CHR 0x0A] \<and> failed w = None"
proof -
  let ?f = "\<lambda>h. HeaderSet ''X-Content-Type-Options'' ''nosniff''
    (HeaderSet ''Content-Type'' ''text/plain; charset=utf-8'' (AList.delete ''Content-Length'' h))"
  let ?w = "wr_status ops code (wr_header ops ?f w)"
  have w: "inv ?w" "body ?w = body w" "failed ?w = failed w"
    using header_keeps [OF assms(1)] status_keeps by simp_all
  obtain n e w2 where wr: "wr_write ops (msg @ [CHR 0x0A]) ?w = ((n, e), w2)"
    by (metis prod.collapse)
  have w2: "http_Error ops msg code w = w2"
    by (simp add: http_Error_def Let_def wr)
  show ?thesis
  proof (cases e)
    case None
    then show ?thesis
      using write_ok [OF w(1), of "msg @ [CHR 0x0A]" n w2] wr w2 w(2,3) by simp
  next
    case (Some er)
    then have "failed w2 = Some er"
      using write_err [OF w(1), of "msg @ [CHR 0x0A]" n er w2] wr by simp
    then show ?thesis using assms(2) w2 by simp
  qed
qed

lemma stream_attempt_body:
  assumes "wants_stream (pc_body c)" and "forward_attempt ops c k account w = (att, w')"
    and "inv w" and "failed w' = None"
  shows "inv w' \<and> body w' = body w @ written (at_trace att) \<and> failed w = None"
proof -
  obtain oc err tr where run: "run_prog ops (pc_plugin c k (dev_request c account)) w =
      ((oc, err), w', tr)" and tr: "at_trace att = tr"
    using assms(1,2) by (auto simp: forward_attempt_def Let_def split: prod.splits)
  have inv': "inv w'" by (rule run_inv [OF assms(3) run])
  show ?thesis
  proof (cases "failed w")
    case None
    have "conserved w w' tr" by (rule run_conserves [OF assms(3) None run])
    then show ?thesis
      using inv' None assms(4) by (simp add: conserved_def tr)
  next
    case (Some e)
    then have "failed w' = Some e" using run_failed [OF assms(3) Some run] by simp
    then show ?thesis using assms(4) by simp
  qed
qed

lemma stream_answer_body:
  assumes "inv w" and "failed (answer ops True att w) = None" and "\<not> attempt_retryable att sched"
  shows "body (answer ops True att w) = body w @ stream_tail sched [att] \<and> failed w = None"
  using assms http_Error_body [OF assms(1)]
  by (auto simp: answer_def stream_tail_def split: option.splits if_splits)

lemma stream_loop_body:
  assumes "failover_loop ops c store n k account tried sched w = (w', sched', atts)"
    and "wants_stream (pc_body c)" and "inv w" and "failed w' = None"
  shows "body w' = body w @ attempts_body atts @ stream_tail sched atts \<and> failed w = None"
  using assms(1,3)
proof (induction n arbitrary: k account tried sched w atts)
  case 0
  then show ?case
    using assms(4) http_Error_body [OF "0.prems"(2)]
    by (auto simp: exhausted_def stream_tail_def)
next
  case (Suc n)
  from Suc.prems(1) show ?case
  proof (cases rule: failover_loop_cases)
    case stop
    then show ?thesis
      using assms(4) http_Error_body [OF Suc.prems(2)]
      by (auto simp: exhausted_def stream_tail_def)
  next
    case (go a sched1 att w1 sched2)
    have inv1: "inv w1"
    proof -
      obtain oc err tr where "run_prog ops (pc_plugin c k (dev_request c a)) w =
          ((oc, err), w1, tr)"
        using assms(2) go(2) by (auto simp: forward_attempt_def Let_def split: prod.splits)
      then show ?thesis by (rule run_inv [OF Suc.prems(2)])
    qed
    note cong = attempt_retryable_cong [OF step_policy [OF go(1,3)]]
    show ?thesis
    proof (cases "attempt_retryable att sched2")
      case False
      then have w': "w' = answer ops True att w1" and atts: "atts = [att]"
        using go(4) assms(2) by simp_all
      note ans = stream_answer_body [OF inv1 _ False]
      have "failed w1 = None" using ans assms(4) w' by simp
      then show ?thesis
        using stream_attempt_body [OF assms(2) go(2) Suc.prems(2)] ans assms(4) cong
        by (simp add: w' atts stream_tail_def)
    next
      case True
      then obtain atts' where rest:
        "failover_loop ops c store n (Suc k) a (da_ID a # tried) sched2 w1 = (w', sched', atts')"
        and atts: "atts = att # atts'" using go(4) by auto
      have IH: "body w' = body w1 @ attempts_body atts' @ stream_tail sched2 atts'"
        "failed w1 = None"
        using Suc.IH [OF rest inv1] by auto
      have "stream_tail sched2 atts' = stream_tail sched atts"
      proof (cases "atts' = []")
        case True
        then show ?thesis
          using \<open>attempt_retryable att sched2\<close> cong by (simp add: stream_tail_def atts)
      next
        case False
        then have "last atts = last atts'" and "atts \<noteq> []" by (simp_all add: atts)
        then show ?thesis using False cong by (simp only: stream_tail_def simp_thms if_False)
      qed
      then show ?thesis
        using stream_attempt_body [OF assms(2) go(2) Suc.prems(2) IH(2)] IH(1)
        by (simp add: atts)
    qed
  qed
qed

end

text \<open>
  C14: a streamed request mixes its attempts. On any writer that keeps the writer interface and
  does not fail, the client gets the data of every attempt one after the other, that of the
  attempts that were abandoned included, and after it the text of the error answer if the loop
  ends in one.
\<close>
theorem streamed_request_concatenates:
  assumes "response_writer ops body failed ok" and "ok w" and "failed w' = None"
    and "wants_stream (pc_body c)"
    and "fst (selectAccount (fst (pc_clock c 0)) store sched) \<noteq> None"
    and "handleHTTP ops c True store sched w = (w', sched', atts)"
  shows "body w' = body w @ attempts_body atts @ stream_tail sched atts"
proof -
  obtain a sched1 where sel: "selectAccount (fst (pc_clock c 0)) store sched = (Some a, sched1)"
    using assms(5) by (cases "selectAccount (fst (pc_clock c 0)) store sched") auto
  obtain n where loop: "failover_loop ops c store n 0 a [] sched1 w = (w', sched', atts)"
    using assms(6) by (auto simp: handleHTTP_def sel Let_def)
  have "stream_tail sched1 atts = stream_tail sched atts"
    using attempt_retryable_cong [OF selectAccount_policy [OF sel]] by (simp add: stream_tail_def)
  then show ?thesis
    using response_writer.stream_loop_body [OF assms(1) loop assms(4,2,3)] by simp
qed

section \<open>Examples\<close>

text \<open>
  The plugin writes one byte at every call; the first call ends as given, the later ones succeed.
\<close>

definition example_call ::
  "bytes \<Rightarrow> ForwardOutcome \<Rightarrow> go_error option \<Rightarrow> proxy_call" where
  "example_call body oc err =
     \<lparr>pc_plugin = \<lambda>k req. CallWrite (if k = 0 then ''a'' else ''b'')
        (\<lambda>_. Return (if k = 0 then (oc, err) else (example_verdict OutcomeSuccess, None))),
      pc_body = body, pc_headers = [], pc_path = ''/v1/chat/completions'',
      pc_clock = \<lambda>k. (200 + int k, 200 + int k)\<rparr>"

lemma example_accounts_slots:
  "List_accounts example_accounts \<noteq> []"
  "sum_list (map slot_weight (List_accounts example_accounts)) < 2 ^ 64"
  by (simp_all add: example_simps List_accounts_def slot_weight_def)

lemma buffered_request_one_answer_witness:
  "let (w, _, atts) = handleHTTP dev_buffer_ops
         (example_call ''{}'' (example_verdict OutcomeAccountDead) None) True example_accounts
         (Some example_scheduler) new_devBufferWriter
   in attempt_ids atts = [3, 2] \<and> db_code w = 200 \<and> db_body w = ''b'' \<and>
      distinct (attempt_ids atts)"
proof -
  let ?c = "example_call ''{}'' (example_verdict OutcomeAccountDead) None"
  obtain w sched' atts where h: "handleHTTP dev_buffer_ops ?c True example_accounts
      (Some example_scheduler) new_devBufferWriter = (w, sched', atts)"
    by (metis prod.collapse)
  have "\<not> wants_stream (pc_body ?c)" by code_simp
  note one = buffered_request_one_answer [OF example_accounts_slots this h]
  have "(\<lambda>(w, _, atts). (db_code w, db_body w, attempt_ids atts)) (handleHTTP dev_buffer_ops ?c
      True example_accounts (Some example_scheduler) new_devBufferWriter) = (200, ''b'', [3, 2])"
    by code_simp
  then show ?thesis
    using one unfolding h by simp
qed

lemma streamed_request_concatenates_witness:
  "let (w, _, atts) = handleHTTP dev_buffer_ops
         (example_call ''{\"stream\":true}'' (example_verdict OutcomeStreamAborted) (Some EOF))
         True example_accounts (Some (example_scheduler\<lparr>sc_counter := 1\<rparr>)) new_devBufferWriter
   in db_body w = ''ab''"
proof -
  let ?c = "example_call ''{\"stream\":true}'' (example_verdict OutcomeStreamAborted) (Some EOF)"
  let ?s = "Some (example_scheduler\<lparr>sc_counter := 1\<rparr>)"
  obtain w sched' atts where h: "handleHTTP dev_buffer_ops ?c True example_accounts ?s
      new_devBufferWriter = (w, sched', atts)"
    by (metis prod.collapse)
  have stream: "wants_stream (pc_body ?c)" by code_simp
  have sel: "fst (selectAccount (fst (pc_clock ?c 0)) example_accounts ?s) \<noteq> None" by code_simp
  have "db_body w = db_body new_devBufferWriter @ attempts_body atts @ stream_tail ?s atts"
    by (rule streamed_request_concatenates
        [OF dev_buffer.response_writer_axioms _ _ stream sel h]) simp_all
  moreover have "(\<lambda>(w, _, atts). attempts_body atts @ stream_tail ?s atts) (handleHTTP
      dev_buffer_ops ?c True example_accounts ?s new_devBufferWriter) = ''ab''"
    by code_simp
  ultimately show ?thesis
    unfolding h by (simp add: new_devBufferWriter_def)
qed

end
