(* ===== verification/DevServer.thy ===== *)
theory DevServer
  imports Models DevProxy
begin

text \<open>
  How the development server routes requests, \<^verbatim>\<open>devkit/devserver/server.go\<close>: the path prefixes
  under which the proxy is mounted, the handler of the root path, the test of an account and
  the assets of the plugin. Theory DevRun puts them together.
\<close>

section \<open>Prefixes\<close>

definition rooted :: "string \<Rightarrow> string" where
  "rooted p = (if HasPrefix p ''/'' then p else CHR ''/'' # p)"

definition routePrefix :: "string \<Rightarrow> string option" where
  "routePrefix routePath =
     (let routePath = TrimSpace routePath in
      if routePath = [] then None
      else
        (let cleaned = path_Clean (rooted routePath) in
         if cleaned = ''/'' then Some ''/''
         else Some (CHR ''/'' # takeWhile (\<lambda>c. c \<noteq> CHR ''/'') (TrimPrefix cleaned ''/'')
                      @ ''/'')))"

text \<open>The loop of \<^verbatim>\<open>routePrefixes\<close>; \<open>seen\<close> are the prefixes already in the result.\<close>

fun prefix_loop :: "RouteDefinition list \<Rightarrow> string list \<Rightarrow> string list" where
  "prefix_loop [] seen = []"
| "prefix_loop (r # rs) seen =
     (case routePrefix (ro_Path r) of
        None \<Rightarrow> prefix_loop rs seen
      | Some p \<Rightarrow> if p \<in> set seen then prefix_loop rs seen else p # prefix_loop rs (p # seen))"

definition routePrefixes :: "RouteDefinition list \<Rightarrow> string list" where
  "routePrefixes routes = prefix_loop routes []"

definition routeMethodMatches :: "string \<Rightarrow> string \<Rightarrow> bool" where
  "routeMethodMatches routeMethod requestMethod =
     (let routeMethod = TrimSpace routeMethod in
      if routeMethod = [] then True else EqualFold routeMethod requestMethod)"

text \<open>
  \<^verbatim>\<open>path.Clean(p) == "/"\<close>; a path that does not start with a slash does not clean to the root.
\<close>

definition cleans_to_root :: "string \<Rightarrow> bool" where
  "cleans_to_root p \<longleftrightarrow> HasPrefix p ''/'' \<and> path_Clean p = ''/''"

text \<open>Whether the root handler gives a request to the proxy; it serves a static file otherwise.\<close>

fun root_to_proxy :: "RouteDefinition list \<Rightarrow> string \<Rightarrow> string \<Rightarrow> bool" where
  "root_to_proxy [] httpMethod urlPath = False"
| "root_to_proxy (route # routes) httpMethod urlPath =
     (if routePrefix (ro_Path route) \<noteq> Some ''/'' then root_to_proxy routes httpMethod urlPath
      else if \<not> cleans_to_root urlPath then root_to_proxy routes httpMethod urlPath
      else if \<not> routeMethodMatches (ro_Method route) httpMethod
      then root_to_proxy routes httpMethod urlPath
      else True)"

section \<open>Other handlers\<close>

text \<open>
  The test of an account: \<open>validate\<close> is the plugin's \<^verbatim>\<open>ValidateAccount\<close>, \<open>elapsed\<close> the text of
  the duration. The result is the id with the plugin's error, if any.
\<close>

datatype test_body = TestResult "64 word" string "go_error option" | TestError string

definition account_test ::
  "(metadata \<Rightarrow> go_error option) \<Rightarrow> string \<Rightarrow> string \<Rightarrow> string \<Rightarrow> AccountStore
     \<Rightarrow> nat \<times> test_body" where
  "account_test validate elapsed httpMethod urlPath store =
     (if httpMethod \<noteq> ''POST'' then (405, TestError ''{\"error\":\"method not allowed\"}'')
      else
        (let (i, bad) = ParseInt (TrimPrefix urlPath ''/api/accounts/test/'') in
         if bad then (400, TestError ''{\"error\":\"invalid id\"}'')
         else case Get i store of
           None \<Rightarrow> (404, TestError ''{\"error\":\"account not found\"}'')
         | Some account \<Rightarrow> (200, TestResult i elapsed (validate (da_Credentials account)))))"

text \<open>The assets of the plugin: the content type that is set and the data, \<open>None\<close> if not found.\<close>

definition plugin_asset ::
  "(string, bytes) gomap \<Rightarrow> string \<Rightarrow> (string option \<times> bytes) option" where
  "plugin_asset assets urlPath =
     (let name = TrimPrefix urlPath ''/plugin-assets/'' in
      case map_of assets name of
        None \<Rightarrow> None
      | Some data \<Rightarrow>
          Some (if HasSuffix name ''.js'' then Some ''application/javascript''
                else if HasSuffix name ''.css'' then Some ''text/css'' else None, data))"

section \<open>Lemmas\<close>

text \<open>A cleaned path is the root or a sequence of plain elements.\<close>

lemma path_Clean_form:
  "path_Clean s = ''/'' \<or>
   (\<exists>e es. path_Clean s = CHR ''/'' # e @ join_with (CHR ''/'') es \<and> plain_element e \<and>
      CHR ''/'' \<notin> set e)"
proof (cases "clean_elements [] (split_at (CHR ''/'') s)")
  case Nil
  then show ?thesis by (simp add: path_Clean_def)
next
  case (Cons e es)
  have "list_all plain_element (e # es)"
    using clean_elements_plain [of "[]" "split_at (CHR ''/'') s"] by (simp add: Cons)
  moreover have "CHR ''/'' \<notin> set e"
    using clean_elements_set [of "[]" "split_at (CHR ''/'') s"] split_at_pieces
    by (auto simp: Cons)
  ultimately show ?thesis
    using Cons by (auto simp: path_Clean_def join_with_def)
qed

lemma path_Clean_no_slash: "\<not> HasSuffix (path_Clean s) ''/'' \<or> path_Clean s = ''/''"
proof -
  define es where "es = clean_elements [] (split_at (CHR ''/'') s)"
  show ?thesis
  proof (cases es rule: rev_cases)
    case Nil
    then show ?thesis by (simp add: path_Clean_def es_def [symmetric])
  next
    case (snoc ds e)
    have "plain_element e" "CHR ''/'' \<notin> set e"
      using clean_elements_plain [of "[]" "split_at (CHR ''/'') s"]
        clean_elements_set [of "[]" "split_at (CHR ''/'') s"] split_at_pieces snoc
      by (auto simp: es_def)
    then obtain f x where "e = f @ [x]" "x \<noteq> CHR ''/''"
      by (cases e rule: rev_cases) (auto simp: plain_element_def)
    moreover have "path_Clean s = join_with (CHR ''/'') ds @ CHR ''/'' # e"
      using snoc by (simp add: path_Clean_def es_def [symmetric] join_with_def)
    ultimately show ?thesis by (auto simp: HasSuffix_def suffix_def)
  qed
qed

lemma takeWhile_element:
  "CHR ''/'' \<notin> set e \<Longrightarrow>
   takeWhile (\<lambda>c. c \<noteq> CHR ''/'') (e @ join_with (CHR ''/'') es) = e"
proof -
  assume e: "CHR ''/'' \<notin> set e"
  have "takeWhile (\<lambda>c. c \<noteq> CHR ''/'') (join_with (CHR ''/'') es) = []"
    by (cases es) (simp_all add: join_with_def)
  moreover have "\<forall>c \<in> set e. c \<noteq> CHR ''/''" using e by auto
  ultimately show ?thesis by (simp add: takeWhile_append)
qed

lemma routePrefix_cases:
  assumes "TrimSpace p \<noteq> []"
  obtains (root) "routePrefix p = Some ''/''" "path_Clean (rooted (TrimSpace p)) = ''/''"
  | (element) e es where "routePrefix p = Some (CHR ''/'' # e @ ''/'')" "plain_element e"
      "CHR ''/'' \<notin> set e"
      "path_Clean (rooted (TrimSpace p)) = CHR ''/'' # e @ join_with (CHR ''/'') es"
proof -
  let ?c = "path_Clean (rooted (TrimSpace p))"
  from path_Clean_form [of "rooted (TrimSpace p)"] show ?thesis
  proof (elim disjE exE conjE)
    assume "?c = ''/''"
    then show ?thesis using assms root by (simp add: routePrefix_def)
  next
    fix e es assume c: "?c = CHR ''/'' # e @ join_with (CHR ''/'') es" "plain_element e"
      "CHR ''/'' \<notin> set e"
    have "e \<noteq> []" using c(2) by (simp add: plain_element_def)
    then have "?c \<noteq> ''/''" using c(1) by simp
    then show ?thesis
      using assms c takeWhile_element [OF c(3), of es]
      by (intro element [of e es]) (simp_all add: routePrefix_def TrimPrefix_def)
  qed
qed

lemma set_prefix_loop:
  "set (prefix_loop rs seen) =
   {p. \<exists>r \<in> set rs. routePrefix (ro_Path r) = Some p} - set seen"
  by (induction rs seen rule: prefix_loop.induct) (auto split: option.splits)

lemma distinct_prefix_loop: "distinct (prefix_loop rs seen)"
  by (induction rs seen rule: prefix_loop.induct)
    (auto simp: set_prefix_loop split: option.splits)

lemma root_to_proxy_iff:
  "root_to_proxy routes httpMethod urlPath \<longleftrightarrow>
   cleans_to_root urlPath \<and>
   (\<exists>r \<in> set routes. routePrefix (ro_Path r) = Some ''/'' \<and>
      routeMethodMatches (ro_Method r) httpMethod)"
  by (induction routes) auto

lemma filter_eq_singleton: "distinct xs \<Longrightarrow> x \<in> set xs \<Longrightarrow> filter (\<lambda>y. y = x) xs = [x]"
  by (induction xs) (auto simp: filter_empty_conv)

text \<open>A mounted prefix, and a path below one.\<close>

definition prefix_form :: "string \<Rightarrow> bool" where
  "prefix_form p \<longleftrightarrow>
     p = ''/'' \<or>
     (let e = butlast (tl p)
      in p = CHR ''/'' # e @ ''/'' \<and> plain_element e \<and> CHR ''/'' \<notin> set e)"

definition path_under :: "string \<Rightarrow> string \<Rightarrow> bool" where
  "path_under p c \<longleftrightarrow> (if p = ''/'' then c = ''/'' else prefix p (c @ ''/''))"

definition route_path :: "RouteDefinition \<Rightarrow> string" where
  "route_path r = path_Clean (rooted (TrimSpace (ro_Path r)))"

lemma prefix_form_element:
  assumes "prefix_form p" and "p \<noteq> ''/''"
  obtains e where "p = CHR ''/'' # e @ ''/''" "plain_element e" "CHR ''/'' \<notin> set e"
  using assms that [of "butlast (tl p)"] unfolding prefix_form_def Let_def by blast

lemma prefix_form_routePrefix:
  assumes "routePrefix q = Some p"
  shows "prefix_form p"
proof -
  have "TrimSpace q \<noteq> []" using assms by (auto simp: routePrefix_def)
  then show ?thesis
    by (rule routePrefix_cases) (use assms in \<open>auto simp: prefix_form_def Let_def\<close>)
qed

lemma routePrefix_iff_under:
  assumes "TrimSpace (ro_Path r) \<noteq> []" and "prefix_form p"
  shows "routePrefix (ro_Path r) = Some p \<longleftrightarrow> path_under p (route_path r)"
  using assms(1)
proof (cases rule: routePrefix_cases)
  case root
  have "p = ''/''" if under: "path_under p ''/''"
  proof (rule ccontr)
    assume "p \<noteq> ''/''"
    with assms(2) obtain f where "p = CHR ''/'' # f @ ''/''" "plain_element f"
      by (rule prefix_form_element)
    moreover have "prefix p ''//''"
      using under \<open>p \<noteq> ''/''\<close> by (simp add: path_under_def)
    ultimately show False using prefix_length_le [of p "''//''"] by (simp add: plain_element_def)
  qed
  moreover have "path_under ''/'' ''/''" by (simp add: path_under_def)
  moreover have "route_path r = ''/''" using root(2) by (simp only: route_path_def)
  ultimately show ?thesis unfolding root(1) by (metis option.inject)
next
  case (element e es)
  have slash: "prefix ''/'' (join_with (CHR ''/'') es @ ''/'')"
    by (cases es) (simp_all add: join_with_def)
  have own: "path_under (CHR ''/'' # e @ ''/'') (route_path r)"
    using element(2,4) slash by (auto simp: path_under_def route_path_def plain_element_def)
  have "p = CHR ''/'' # e @ ''/''" if under: "path_under p (route_path r)"
  proof -
    have "p \<noteq> ''/''"
      using under element(2,4)
      by (auto simp: path_under_def route_path_def plain_element_def split: if_splits)
    with assms(2) obtain f where f: "p = CHR ''/'' # f @ ''/''" "CHR ''/'' \<notin> set f"
      by (rule prefix_form_element)
    have "prefix (f @ ''/'') (e @ join_with (CHR ''/'') (es @ [[]]))"
      using under f(1) \<open>p \<noteq> ''/''\<close> element(4)
      by (simp add: join_with_def path_under_def route_path_def)
    then obtain rest where rest: "f @ ''/'' @ rest = e @ join_with (CHR ''/'') (es @ [[]])"
      by (auto simp: prefix_def)
    then have "f = e"
      using takeWhile_element [OF f(2), of "[rest]"] takeWhile_element [OF element(3), of "es @ [[]]"]
      by (simp add: join_with_def)
    then show ?thesis using f(1) by simp
  qed
  then show ?thesis using own element(1) by auto
qed

lemma set_routePrefixes:
  "p \<in> set (routePrefixes routes) \<longleftrightarrow> (\<exists>r \<in> set routes. routePrefix (ro_Path r) = Some p)"
  by (simp add: routePrefixes_def set_prefix_loop)

text \<open>
  Every declared route has one prefix. The mounted prefixes are pairwise different and
  each is the root or one plain path element between slashes; the cleaned path of a route that
  is not blank lies under exactly one of them, and its own prefix is that one.
\<close>
lemma routePrefixes_cover:
  shows "distinct (routePrefixes routes)
    \<and> list_all prefix_form (routePrefixes routes)
    \<and> list_all (\<lambda>r. TrimSpace (ro_Path r) = [] \<or>
         filter (\<lambda>p. path_under p (route_path r)) (routePrefixes routes) =
           [the (routePrefix (ro_Path r))]) routes"
proof (intro conjI)
  show dist: "distinct (routePrefixes routes)"
    by (simp add: routePrefixes_def distinct_prefix_loop)
  show form: "list_all prefix_form (routePrefixes routes)"
    using prefix_form_routePrefix by (auto simp: list_all_iff set_routePrefixes)
  have "filter (\<lambda>p. path_under p (route_path r)) (routePrefixes routes) =
      [the (routePrefix (ro_Path r))]"
    if r: "r \<in> set routes" "TrimSpace (ro_Path r) \<noteq> []" for r
  proof -
    obtain p where p: "routePrefix (ro_Path r) = Some p"
      by (rule routePrefix_cases [OF r(2)]) auto
    have "filter (\<lambda>q. path_under q (route_path r)) (routePrefixes routes) =
        filter (\<lambda>q. q = p) (routePrefixes routes)"
      using routePrefix_iff_under [OF r(2)] form p by (auto simp: list_all_iff intro!: filter_cong)
    also have "\<dots> = [p]"
      using filter_eq_singleton [OF dist] r(1) p set_routePrefixes by blast
    finally show ?thesis using p by simp
  qed
  then show "list_all (\<lambda>r. TrimSpace (ro_Path r) = [] \<or>
         filter (\<lambda>p. path_under p (route_path r)) (routePrefixes routes) =
           [the (routePrefix (ro_Path r))]) routes"
    by (auto simp: list_all_iff)
qed

end
