(* ===== verification/DevRun.thy ===== *)
theory DevRun
  imports Mux DevServer
begin

text \<open>
  \<^verbatim>\<open>Run\<close> of \<^verbatim>\<open>devkit/devserver/server.go\<close>: its settings, the order in which it initialises the
  plugin, opens the account store and registers its handlers, and which handler a request gets.

  The listening socket, the two log files and the flag package are not modelled: the values of
  the flags are given, \<^verbatim>\<open>None\<close> for one that was not set, and so is \<^verbatim>\<open>filepath.Join\<close>. What the
  plugin registers itself in \<^verbatim>\<open>ExtraRoutes\<close> is a list of patterns.
\<close>

section \<open>Settings\<close>

record Config =
  cfg_Addr :: string
  cfg_DataDir :: string
  cfg_ExtraRoutes :: "(string \<times> nat) list"
  cfg_SchedulePolicy :: string

record dev_flags =
  fl_addr :: "string option"
  fl_data :: "string option"
  fl_log :: "string option"

record dev_settings =
  set_addr :: string
  set_dataDir :: string
  set_logFile :: string

definition run_settings ::
  "(string \<Rightarrow> string \<Rightarrow> string) \<Rightarrow> Config \<Rightarrow> dev_flags \<Rightarrow> dev_settings" where
  "run_settings join cfg flags =
     (let addr = (case fl_addr flags of None \<Rightarrow> cfg_Addr cfg | Some a \<Rightarrow> a);
          dataDir = (case fl_data flags of None \<Rightarrow> cfg_DataDir cfg | Some d \<Rightarrow> d);
          logFile = (case fl_log flags of None \<Rightarrow> [] | Some f \<Rightarrow> f);
          addr = (if addr = [] then '':18080'' else addr);
          dataDir = (if dataDir = [] then ''./devdata'' else dataDir);
          logFile = (if logFile = [] then join dataDir ''debug.log'' else logFile)
      in \<lparr>set_addr = addr, set_dataDir = dataDir, set_logFile = logFile\<rparr>)"

section \<open>Handlers\<close>

datatype dev_handler =
    HInfo
  | HAccounts
  | HAccountTest
  | HExtra nat
  | HScheduler
  | HProxy
  | HAssets
  | HRoot
  | HStatic

text \<open>The loop over the prefixes: what is registered, and whether the root is among them.\<close>

fun mount_loop :: "string list \<Rightarrow> (string \<times> dev_handler) list \<times> bool" where
  "mount_loop [] = ([], False)"
| "mount_loop (p # ps) =
     (let (rs, hasRootProxy) = mount_loop ps in
      if p = ''/'' then (rs, True) else ((p, HProxy) # rs, hasRootProxy))"

text \<open>The registrations of \<^verbatim>\<open>Run\<close>, in order; \<open>assets\<close> says whether the plugin has any.\<close>

definition dev_registrations ::
  "bool \<Rightarrow> (string \<times> nat) list \<Rightarrow> RouteDefinition list \<Rightarrow> (string \<times> dev_handler) list" where
  "dev_registrations assets extra routes =
     (let (proxies, hasRootProxy) = mount_loop (routePrefixes routes)
      in [(''/api/plugin/info'', HInfo), (''/api/accounts/'', HAccounts),
          (''/api/accounts'', HAccounts), (''/api/accounts/test/'', HAccountTest)] @
         map (\<lambda>(q, n). (q, HExtra n)) extra @
         [(''/api/scheduler/'', HScheduler), (''/api/scheduler'', HScheduler)] @
         proxies @
         (if assets then [(''/plugin-assets/'', HAssets)] else []) @
         [(''/'', if hasRootProxy then HRoot else HStatic)])"

definition dev_mux ::
  "bool \<Rightarrow> (string \<times> nat) list \<Rightarrow> RouteDefinition list \<Rightarrow> dev_handler mux option" where
  "dev_mux assets extra routes = mux_Handle_all (dev_registrations assets extra routes) []"

text \<open>The handler that answers, the one of the root path looking further.\<close>

definition dev_serve ::
  "RouteDefinition list \<Rightarrow> dev_handler mux \<Rightarrow> string \<Rightarrow> string \<Rightarrow> dev_handler mux_answer" where
  "dev_serve routes mux httpMethod path =
     (case mux_route mux path of
        ServedBy HRoot \<Rightarrow>
          if root_to_proxy routes httpMethod path then ServedBy HProxy else ServedBy HStatic
      | other \<Rightarrow> other)"

text \<open>
  The plugin's information, as a JSON object with the routes in it; \<open>to_map\<close> is what encoding and
  decoding the information as an object gives.
\<close>

definition plugin_info ::
  "('i \<Rightarrow> (string, 'j) gomap) \<Rightarrow> (RouteDefinition list \<Rightarrow> 'j) \<Rightarrow> 'i \<Rightarrow> RouteDefinition list
     \<Rightarrow> (string, 'j) gomap" where
  "plugin_info to_map routes_json info routes =
     AList.update ''routes'' (routes_json routes) (to_map info)"

section \<open>Run\<close>

text \<open>
  The log goes to the console from level Info and to a file from level Debug, if the file can be
  opened in its directory; \<^verbatim>\<open>slog\<close> numbers the levels 0 and -4.
\<close>

datatype log_sink = LogConsole int | LogFile string int

definition dev_log :: "(string \<Rightarrow> bool) \<Rightarrow> string \<Rightarrow> log_sink list option" where
  "dev_log opens logFile =
     (if opens logFile then Some [LogConsole 0, LogFile logFile (- 4)] else None)"

record dev_server =
  dsv_addr :: string
  dsv_log :: "log_sink list option"
  dsv_mux :: "dev_handler mux"
  dsv_store :: AccountStore
  dsv_scheduler :: Scheduler

datatype run_result = RunError go_error | RunPanic | RunListens dev_server

text \<open>
  \<open>init\<close> is what the plugin's \<^verbatim>\<open>Init\<close> returns, \<open>opens\<close> and \<open>read\<close> are the file system and \<open>env\<close>
  the package encoding/json the store uses. The plugin's routes and assets are arguments too.
\<close>

definition Run ::
  "(string \<Rightarrow> string \<Rightarrow> string) \<Rightarrow> (string \<Rightarrow> bool) \<Rightarrow> store_env \<Rightarrow> (string \<Rightarrow> bytes option)
     \<Rightarrow> go_error option \<Rightarrow> RouteDefinition list \<Rightarrow> (string, bytes) gomap option \<Rightarrow> Config \<Rightarrow> dev_flags
     \<Rightarrow> run_result" where
  "Run join opens env read init routes assets cfg flags =
     (let st = run_settings join cfg flags;
          logs = dev_log opens (set_logFile st) in
      case init of
        Some e \<Rightarrow> RunError e
      | None \<Rightarrow>
          (let store = NewAccountStore env (read (join (set_dataDir st) ''accounts.json''));
               scheduler = NewScheduler (cfg_SchedulePolicy cfg);
               hasAssets = (case assets of None \<Rightarrow> False | Some a \<Rightarrow> length a > 0)
           in case dev_mux hasAssets (cfg_ExtraRoutes cfg) routes of
                None \<Rightarrow> RunPanic
              | Some mux \<Rightarrow>
                  RunListens \<lparr>dsv_addr = set_addr st, dsv_log = logs, dsv_mux = mux,
                              dsv_store = store, dsv_scheduler = scheduler\<rparr>))"

section \<open>Lemmas: what is registered\<close>

lemma mount_loop_eq: "mount_loop ps = (map (\<lambda>p. (p, HProxy)) (filter (\<lambda>p. p \<noteq> ''/'') ps), ''/'' \<in> set ps)"
  by (induction ps) auto

lemma dev_registrations_iff:
  "(q, h) \<in> set (dev_registrations assets [] routes) \<longleftrightarrow>
     (q, h) \<in> {(''/api/plugin/info'', HInfo), (''/api/accounts/'', HAccounts),
       (''/api/accounts'', HAccounts), (''/api/accounts/test/'', HAccountTest),
       (''/api/scheduler/'', HScheduler), (''/api/scheduler'', HScheduler)} \<or>
     h = HProxy \<and> q \<in> set (routePrefixes routes) \<and> q \<noteq> ''/'' \<or>
     assets \<and> q = ''/plugin-assets/'' \<and> h = HAssets \<or>
     q = ''/'' \<and> h = (if ''/'' \<in> set (routePrefixes routes) then HRoot else HStatic)"
proof -
  have mounted: "(q, h) \<in> set (map (\<lambda>p. (p, HProxy)) (filter (\<lambda>p. p \<noteq> ''/'') ps)) \<longleftrightarrow>
      h = HProxy \<and> q \<in> set ps \<and> q \<noteq> ''/''" for ps
    by auto
  have optional: "(q, h) \<in> set (if assets then [(''/plugin-assets/'', HAssets)] else []) \<longleftrightarrow>
      assets \<and> q = ''/plugin-assets/'' \<and> h = HAssets"
    by (auto simp del: list.inject char.inject)
  show ?thesis
    unfolding dev_registrations_def mount_loop_eq Let_def prod.case set_append Un_iff mounted optional
    by (simp only: list.map list.set insert_iff empty_iff prod.inject disj_assoc simp_thms)
qed

lemma dev_mux_iff:
  "dev_mux assets extra routes = Some mux \<longleftrightarrow>
   mux = dev_registrations assets extra routes \<and>
   distinct (map fst (dev_registrations assets extra routes))"
  by (auto simp: dev_mux_def mux_Handle_all_eq split: if_splits)

section \<open>Lemmas: which pattern serves\<close>

text \<open>What the development server answers itself, as a decision on the clean path.\<close>

definition own_handler :: "bool \<Rightarrow> string \<Rightarrow> dev_handler option" where
  "own_handler assets c =
     (if c = ''/api/plugin/info'' then Some HInfo
      else if prefix ''/api/accounts/test/'' c then Some HAccountTest
      else if c = ''/api/accounts'' \<or> prefix ''/api/accounts/'' c then Some HAccounts
      else if c = ''/api/scheduler'' \<or> prefix ''/api/scheduler/'' c then Some HScheduler
      else if assets \<and> prefix ''/plugin-assets/'' c then Some HAssets
      else None)"

lemma slash_suffix:
  "\<not> HasSuffix ''/api/plugin/info'' ''/''" "\<not> HasSuffix ''/api/accounts'' ''/''"
  "\<not> HasSuffix ''/api/scheduler'' ''/''" "HasSuffix ''/api/accounts/'' ''/''"
  "HasSuffix ''/api/accounts/test/'' ''/''" "HasSuffix ''/api/scheduler/'' ''/''"
  "HasSuffix ''/plugin-assets/'' ''/''" "HasSuffix ''/'' ''/''"
  by code_simp+

lemma own_matches:
  "pattern_matches ''/api/plugin/info'' c \<longleftrightarrow> c = ''/api/plugin/info''"
  "pattern_matches ''/api/accounts'' c \<longleftrightarrow> c = ''/api/accounts''"
  "pattern_matches ''/api/scheduler'' c \<longleftrightarrow> c = ''/api/scheduler''"
  "pattern_matches ''/api/accounts/'' c \<longleftrightarrow> prefix ''/api/accounts/'' c"
  "pattern_matches ''/api/accounts/test/'' c \<longleftrightarrow> prefix ''/api/accounts/test/'' c"
  "pattern_matches ''/api/scheduler/'' c \<longleftrightarrow> prefix ''/api/scheduler/'' c"
  "pattern_matches ''/plugin-assets/'' c \<longleftrightarrow> prefix ''/plugin-assets/'' c"
  "pattern_matches ''/'' c \<longleftrightarrow> prefix ''/'' c"
  unfolding pattern_matches_def HasPrefix_def by (simp_all only: slash_suffix if_True if_False)

lemma mounted_form:
  assumes "p \<in> set (routePrefixes routes)" and "p \<noteq> ''/''"
  obtains e where "p = CHR ''/'' # e @ ''/''" "CHR ''/'' \<notin> set e" "e \<noteq> []"
proof -
  have "prefix_form p" using assms(1) prefix_form_routePrefix set_routePrefixes by blast
  then show ?thesis using assms(2)
    by (rule prefix_form_element) (use that in \<open>auto simp: plain_element_def\<close>)
qed

lemma mounted_matches:
  "p \<in> set (routePrefixes routes) \<Longrightarrow> pattern_matches p c \<longleftrightarrow> prefix p c"
proof (cases "p = ''/''")
  case False
  assume "p \<in> set (routePrefixes routes)"
  then obtain e where "p = CHR ''/'' # e @ ''/''" using False by (rule mounted_form)
  then have "HasSuffix p ''/''" by (auto simp: HasSuffix_def suffix_def)
  then show ?thesis by (simp add: pattern_matches_def HasPrefix_def)
qed (simp add: own_matches(8))

text \<open>Of two patterns for everything below a path, a mounted one is never the longer.\<close>

lemma mounted_shorter:
  assumes "p \<in> set (routePrefixes routes)" and "prefix p c" and "prefix (CHR ''/'' # f @ ''/'') c"
  shows "length p \<le> length (CHR ''/'' # f @ ''/'')"
proof (cases "p = ''/''")
  case False
  with assms(1) obtain e where e: "p = CHR ''/'' # e @ ''/''" "CHR ''/'' \<notin> set e"
    by (rule mounted_form)
  from assms(2,3) have "prefix p (CHR ''/'' # f @ ''/'') \<or> prefix (CHR ''/'' # f @ ''/'') p"
    by (rule prefix_same_cases)
  then show ?thesis
  proof
    assume "prefix (CHR ''/'' # f @ ''/'') p"
    then obtain rest where rest: "f @ CHR ''/'' # rest = e @ ''/''" by (auto simp: e(1) prefix_def)
    then have "f = e" using e(2) by (cases rest rule: rev_cases) (auto simp: append_eq_append_conv2)
    then show ?thesis by (simp add: e(1))
  qed (rule prefix_length_le)
qed simp

text \<open>The patterns of the server itself.\<close>

definition own_patterns :: "string list" where
  "own_patterns =
     [''/api/plugin/info'', ''/api/accounts/'', ''/api/accounts'', ''/api/accounts/test/'',
      ''/api/scheduler/'', ''/api/scheduler'', ''/plugin-assets/'', ''/'']"

lemma registered_cases:
  assumes "(q, h) \<in> set (dev_registrations assets [] routes)"
  obtains (own) "q \<in> set own_patterns" "q = ''/plugin-assets/'' \<Longrightarrow> assets"
  | (mounted) "q \<in> set (routePrefixes routes)" "q \<noteq> ''/''" "h = HProxy"
  using assms unfolding dev_registrations_iff own_patterns_def
  by (elim disjE conjE insertE emptyE; simp)

lemma serves_own:
  assumes "distinct (map fst (dev_registrations assets [] routes))"
    and "(p, h) \<in> set (dev_registrations assets [] routes)" and "p = CHR ''/'' # f @ ''/''"
    and "prefix p c" and "list_all (\<lambda>q. \<not> pattern_matches q c) (filter (strict_prefix p) own_patterns)"
  shows "mux_match (dev_registrations assets [] routes) c = Some (p, h)"
proof -
  have match: "pattern_matches p c"
    using assms(3,4) by (auto simp: pattern_matches_def HasPrefix_def HasSuffix_def suffix_def)
  have "length q \<le> length p"
    if "(q, h') \<in> set (dev_registrations assets [] routes)" "pattern_matches q c" for q h'
    using that(1)
  proof (cases rule: registered_cases)
    case own
    then have "\<not> strict_prefix p q" using assms(5) that(2) by (auto simp: list_all_iff)
    then show ?thesis
      using prefix_same_cases [OF pattern_matches_prefix [OF that(2)] assms(4)]
      by (metis le_refl prefix_length_le prefix_order.le_less)
  next
    case mounted
    then show ?thesis
      using mounted_shorter [of q routes c f] assms(3,4) pattern_matches_prefix [OF that(2)] by simp
  qed
  then show ?thesis
    unfolding mux_match_iff [OF assms(1)] using assms(2) match by blast
qed

lemma own_handler_None:
  assumes "own_handler assets c = None" and "q \<in> set own_patterns"
    and "q = ''/plugin-assets/'' \<Longrightarrow> assets" and "pattern_matches q c"
  shows "q = ''/''"
  using assms unfolding own_patterns_def own_handler_def
  by (simp del: list.inject char.inject split: if_splits) (elim disjE; simp only: own_matches simp_thms)

lemma own_registered:
  "(''/api/plugin/info'', HInfo) \<in> set (dev_registrations assets [] routes)"
  "(''/api/accounts/'', HAccounts) \<in> set (dev_registrations assets [] routes)"
  "(''/api/accounts'', HAccounts) \<in> set (dev_registrations assets [] routes)"
  "(''/api/accounts/test/'', HAccountTest) \<in> set (dev_registrations assets [] routes)"
  "(''/api/scheduler/'', HScheduler) \<in> set (dev_registrations assets [] routes)"
  "(''/api/scheduler'', HScheduler) \<in> set (dev_registrations assets [] routes)"
  "(''/'', if ''/'' \<in> set (routePrefixes routes) then HRoot else HStatic)
     \<in> set (dev_registrations assets [] routes)"
  "assets \<Longrightarrow> (''/plugin-assets/'', HAssets) \<in> set (dev_registrations assets [] routes)"
  "p \<in> set (routePrefixes routes) \<Longrightarrow> p \<noteq> ''/'' \<Longrightarrow>
     (p, HProxy) \<in> set (dev_registrations assets [] routes)"
  unfolding dev_registrations_iff by (simp_all only: insert_iff simp_thms)

lemma longer_patterns:
  "filter (strict_prefix ''/api/accounts/test/'') own_patterns = []"
  "filter (strict_prefix ''/api/accounts/'') own_patterns = [''/api/accounts/test/'']"
  "filter (strict_prefix ''/api/scheduler/'') own_patterns = []"
  "filter (strict_prefix ''/plugin-assets/'') own_patterns = []"
  by (simp_all add: own_patterns_def)

lemma decision_cases:
  "(if a then Some h1 else if b then Some h2 else if c1 \<or> c2 then Some h3
    else if d1 \<or> d2 then Some h4 else if e then Some h5 else None) = Some h \<Longrightarrow>
   a \<and> h = h1 \<or> b \<and> h = h2 \<or> c1 \<and> h = h3 \<or> c2 \<and> \<not> b \<and> h = h3 \<or> d1 \<and> h = h4 \<or>
   d2 \<and> h = h4 \<or> e \<and> h = h5"
  by (auto split: if_splits)

lemma serves_own_handler:
  assumes "distinct (map fst (dev_registrations assets [] routes))"
    and "own_handler assets c = Some h"
  shows "\<exists>q. mux_match (dev_registrations assets [] routes) c = Some (q, h)"
proof -
  note exact = mux_match_own [OF assms(1)]
  note below = serves_own [OF assms(1)]
  from decision_cases [OF assms(2) [unfolded own_handler_def]] show ?thesis
  proof (elim disjE conjE)
    assume "prefix ''/api/accounts/test/'' c" "h = HAccountTest"
    then show ?thesis
      using below [OF own_registered(4), of "''api/accounts/test''" c]
      by (simp add: longer_patterns)
  next
    assume "prefix ''/api/accounts/'' c" "\<not> prefix ''/api/accounts/test/'' c" "h = HAccounts"
    then show ?thesis
      using below [OF own_registered(2), of "''api/accounts''" c]
      by (simp add: longer_patterns own_matches)
  next
    assume "prefix ''/api/scheduler/'' c" "h = HScheduler"
    then show ?thesis
      using below [OF own_registered(5), of "''api/scheduler''" c] by (simp add: longer_patterns)
  next
    assume "assets" "prefix ''/plugin-assets/'' c" "h = HAssets"
    then show ?thesis
      using below [OF own_registered(8), of "''plugin-assets''" c] by (simp add: longer_patterns)
  qed (use exact own_registered in blast)+
qed

lemma serves_mounted:
  assumes "distinct (map fst (dev_registrations assets [] routes))"
    and "own_handler assets c = None" and "p \<in> set (routePrefixes routes)" "p \<noteq> ''/''"
    and "prefix p c"
  shows "mux_match (dev_registrations assets [] routes) c = Some (p, HProxy)"
proof -
  obtain e where e: "p = CHR ''/'' # e @ ''/''" by (rule mounted_form [OF assms(3,4)])
  have "length q \<le> length p"
    if "(q, h') \<in> set (dev_registrations assets [] routes)" "pattern_matches q c" for q h'
    using that(1)
  proof (cases rule: registered_cases)
    case own
    then have "q = ''/''" using own_handler_None [OF assms(2)] that(2) by blast
    then show ?thesis by (simp add: e)
  next
    case mounted
    then show ?thesis
      using mounted_shorter [of q routes c e] assms(5) pattern_matches_prefix [OF that(2)]
      by (simp add: e)
  qed
  then show ?thesis
    unfolding mux_match_iff [OF assms(1)]
    using own_registered(9) [OF assms(3,4)] assms(5) mounted_matches [OF assms(3)] by blast
qed

lemma serves_root:
  assumes "distinct (map fst (dev_registrations assets [] routes))"
    and "own_handler assets c = None" and "prefix ''/'' c"
    and "\<forall>p \<in> set (routePrefixes routes). prefix p c \<longrightarrow> p = ''/''"
  shows "mux_match (dev_registrations assets [] routes) c =
    Some (''/'', if ''/'' \<in> set (routePrefixes routes) then HRoot else HStatic)"
proof -
  have "q = ''/''"
    if "(q, h') \<in> set (dev_registrations assets [] routes)" "pattern_matches q c" for q h'
    using that(1)
  proof (cases rule: registered_cases)
    case own
    then show ?thesis using own_handler_None [OF assms(2)] that(2) by blast
  next
    case mounted
    then show ?thesis using assms(4) pattern_matches_prefix [OF that(2)] by blast
  qed
  then have "length q \<le> length ''/''"
    if "(q, h') \<in> set (dev_registrations assets [] routes)" "pattern_matches q c" for q h'
    using that by (metis order_refl)
  then show ?thesis
    unfolding mux_match_iff [OF assms(1)] using own_registered(7) assms(3) own_matches(8) by blast
qed

section \<open>Lemmas: redirects\<close>

lemma registered_names:
  "map fst (dev_registrations assets [] routes) =
     [''/api/plugin/info'', ''/api/accounts/'', ''/api/accounts'', ''/api/accounts/test/''] @
     [''/api/scheduler/'', ''/api/scheduler''] @
     filter (\<lambda>p. p \<noteq> ''/'') (routePrefixes routes) @
     (if assets then [''/plugin-assets/''] else []) @ [''/'']"
  by (simp add: dev_registrations_def mount_loop_eq comp_def)

lemma set_of_names:
  "set ([a, b, c, d] @ [e, f] @ filter (\<lambda>p. p \<noteq> z) ps @ (if s then [w] else []) @ [z]) =
   {a, b, c, d, e, f, z} \<union> set ps \<union> {q. s \<and> q = w}"
  by auto

lemma registered_set:
  "fst ` set (dev_registrations assets [] routes) =
     {''/api/plugin/info'', ''/api/accounts/'', ''/api/accounts'', ''/api/accounts/test/'',
      ''/api/scheduler/'', ''/api/scheduler'', ''/''} \<union>
     set (routePrefixes routes) \<union> {q. assets \<and> q = ''/plugin-assets/''}"
  unfolding set_map [symmetric] registered_names by (rule set_of_names)

lemma registered_plain:
  assumes "\<not> HasSuffix c ''/''"
  shows "c \<in> fst ` set (dev_registrations assets [] routes) \<longleftrightarrow>
     c \<in> {''/api/plugin/info'', ''/api/accounts'', ''/api/scheduler''}"
proof -
  have "c \<notin> set (routePrefixes routes)"
  proof
    assume c: "c \<in> set (routePrefixes routes)"
    have "c \<noteq> ''/''" using assms slash_suffix(8) by metis
    with c obtain e where "c = CHR ''/'' # e @ ''/''" by (rule mounted_form)
    then show False using assms by (auto simp: HasSuffix_def suffix_def)
  qed
  moreover have "c \<noteq> ''/api/accounts/''" "c \<noteq> ''/api/accounts/test/''" "c \<noteq> ''/api/scheduler/''"
    "c \<noteq> ''/plugin-assets/''" "c \<noteq> ''/''"
    using assms slash_suffix by metis+
  ultimately show ?thesis
    unfolding registered_set by (simp only: Un_iff insert_iff empty_iff mem_Collect_eq simp_thms)
qed

lemma registered_snoc:
  assumes "c \<noteq> []"
  shows "c @ ''/'' \<in> fst ` set (dev_registrations assets [] routes) \<longleftrightarrow>
     c \<in> {''/api/accounts'', ''/api/accounts/test'', ''/api/scheduler''} \<or>
     c @ ''/'' \<in> set (routePrefixes routes) \<or> assets \<and> c = ''/plugin-assets''"
proof -
  have "c @ ''/'' \<noteq> ''/api/plugin/info''" "c @ ''/'' \<noteq> ''/api/accounts''"
    "c @ ''/'' \<noteq> ''/api/scheduler''" "c @ ''/'' \<noteq> ''/''"
    "c @ ''/'' = ''/api/accounts/'' \<longleftrightarrow> c = ''/api/accounts''"
    "c @ ''/'' = ''/api/accounts/test/'' \<longleftrightarrow> c = ''/api/accounts/test''"
    "c @ ''/'' = ''/api/scheduler/'' \<longleftrightarrow> c = ''/api/scheduler''"
    "c @ ''/'' = ''/plugin-assets/'' \<longleftrightarrow> c = ''/plugin-assets''"
    using assms by (auto simp: snoc_eq_iff_butlast)
  then show ?thesis
    unfolding registered_set
    by (simp only: Un_iff insert_iff empty_iff mem_Collect_eq simp_thms disj_assoc)
qed

text \<open>A mounted path without its slash.\<close>

lemma mounted_snoc:
  assumes "c \<noteq> []" and "c @ ''/'' \<in> set (routePrefixes routes)"
  shows "\<not> HasSuffix c ''/'' \<and> c \<notin> {''/api/plugin/info'', ''/api/accounts'', ''/api/scheduler''}"
proof -
  have "c @ ''/'' \<noteq> ''/''" using assms(1) by simp
  with assms(2) obtain e where e: "c @ ''/'' = CHR ''/'' # e @ ''/''" "CHR ''/'' \<notin> set e" "e \<noteq> []"
    by (rule mounted_form)
  then have c: "c = CHR ''/'' # e" by (metis append_Cons butlast_snoc)
  have "\<not> HasSuffix c ''/''"
    using e(2,3) by (cases e rule: rev_cases) (auto simp: c HasSuffix_def suffix_def)
  then show ?thesis using e(2) by (auto simp: c)
qed

lemma redirect_iff:
  assumes "c \<noteq> []"
  shows "c \<notin> fst ` set (dev_registrations assets [] routes) \<and> \<not> HasSuffix c ''/'' \<and>
       c @ ''/'' \<in> fst ` set (dev_registrations assets [] routes) \<longleftrightarrow>
     c = ''/api/accounts/test'' \<or> c @ ''/'' \<in> set (routePrefixes routes) \<or>
     assets \<and> c = ''/plugin-assets''"
proof -
  have lits: "\<not> HasSuffix ''/api/accounts/test'' ''/''" "\<not> HasSuffix ''/plugin-assets'' ''/''"
    by code_simp+
  have other: "''/api/accounts/test'' \<notin> {''/api/plugin/info'', ''/api/accounts'', ''/api/scheduler''}"
    "''/plugin-assets'' \<notin> {''/api/plugin/info'', ''/api/accounts'', ''/api/scheduler''}"
    by simp_all
  show ?thesis
    using registered_plain [of c assets routes] registered_snoc [OF assms, of assets routes]
      mounted_snoc [OF assms, of routes] lits other
    by (cases "c = ''/api/accounts/test'' \<or> c = ''/plugin-assets''")
      (metis insert_iff empty_iff)+
qed

lemma cleanPath_rooted: "prefix ''/'' (cleanPath p)"
  using path_Clean_form [of p] path_Clean_form [of "CHR ''/'' # p"]
  by (auto simp: cleanPath_def Let_def)

lemma cleanPath_route_path: "cleanPath (route_path r) = route_path r"
proof -
  let ?c = "route_path r"
  have idem: "path_Clean ?c = ?c" unfolding route_path_def by (rule path_Clean_idem)
  have root: "HasPrefix ?c ''/''"
    using path_Clean_form [of "rooted (TrimSpace (ro_Path r))"]
    by (auto simp: route_path_def HasPrefix_def)
  then have "?c \<noteq> []" by (auto simp: HasPrefix_def)
  moreover have "\<not> HasSuffix ?c ''/'' \<or> ?c = ''/''"
    unfolding route_path_def by (rule path_Clean_no_slash)
  ultimately show ?thesis using idem root by (auto simp: cleanPath_def Let_def)
qed

section \<open>Properties\<close>

text \<open>The answer of the development server, as a decision on the path.\<close>

definition dev_answer ::
  "bool \<Rightarrow> RouteDefinition list \<Rightarrow> string \<Rightarrow> string \<Rightarrow> dev_handler mux_answer" where
  "dev_answer assets routes httpMethod path =
     (let c = cleanPath path;
          mounted = routePrefixes routes
      in if c = ''/api/accounts/test'' \<or> c @ ''/'' \<in> set mounted \<or> assets \<and> c = ''/plugin-assets''
         then RedirectTo (c @ ''/'')
         else if c \<noteq> path then RedirectTo c
         else (case own_handler assets c of
                 Some h \<Rightarrow> ServedBy h
               | None \<Rightarrow>
                   if list_ex (\<lambda>p. p \<noteq> ''/'' \<and> prefix p c) mounted \<or> root_to_proxy routes httpMethod c
                   then ServedBy HProxy else ServedBy HStatic))"

lemma own_handler_kind: "own_handler assets c = Some h \<Longrightarrow> h \<noteq> HRoot"
  by (auto simp: own_handler_def split: if_splits)

lemma dev_serve_alone:
  assumes "distinct (map fst (dev_registrations assets [] routes))"
  shows "dev_serve routes (dev_registrations assets [] routes) httpMethod path =
         dev_answer assets routes httpMethod path"
proof -
  let ?mux = "dev_registrations assets [] routes"
  define c where "c = cleanPath path"
  have slash: "prefix ''/'' c" by (simp add: c_def cleanPath_rooted)
  then have nonempty: "c \<noteq> []" by auto
  note route = mux_route_def [of ?mux path, folded c_def, unfolded Let_def mux_match_exact [OF assms]]
  note redirect = redirect_iff [OF nonempty, of assets routes]
  let ?r = "c = ''/api/accounts/test'' \<or> c @ ''/'' \<in> set (routePrefixes routes) \<or>
    assets \<and> c = ''/plugin-assets''"
  show ?thesis
  proof (cases "?r \<or> c \<noteq> path")
    case True
    then show ?thesis
      unfolding dev_serve_def route dev_answer_def Let_def c_def [symmetric] redirect by auto
  next
    case False
    then have path: "path = c" "\<not> ?r" by (simp, blast)
    have served: "mux_route ?mux path =
        (case mux_match ?mux c of None \<Rightarrow> NotFound | Some (q, h) \<Rightarrow> ServedBy h)"
      unfolding route redirect if_not_P [OF path(2)] by (simp add: path(1))
    have local_answer: "dev_answer assets routes httpMethod path =
        (case own_handler assets c of
           Some h \<Rightarrow> ServedBy h
         | None \<Rightarrow>
             if list_ex (\<lambda>p. p \<noteq> ''/'' \<and> prefix p c) (routePrefixes routes) \<or>
                root_to_proxy routes httpMethod c
             then ServedBy HProxy else ServedBy HStatic)"
      unfolding dev_answer_def Let_def c_def [symmetric] if_not_P [OF path(2)] by (simp add: path(1))
    show ?thesis
    proof (cases "own_handler assets c")
      case (Some h)
      then show ?thesis
        using serves_own_handler [OF assms Some] own_handler_kind [OF Some] Some
        unfolding dev_serve_def served local_answer
        by (auto split: dev_handler.splits)
    next
      case None
      show ?thesis
      proof (cases "list_ex (\<lambda>p. p \<noteq> ''/'' \<and> prefix p c) (routePrefixes routes)")
        case True
        then obtain p where "p \<in> set (routePrefixes routes)" "p \<noteq> ''/''" "prefix p c"
          by (auto simp: list_ex_iff)
        from serves_mounted [OF assms None this] show ?thesis
          using True None unfolding dev_serve_def served local_answer by simp
      next
        case False
        then have "\<forall>p \<in> set (routePrefixes routes). prefix p c \<longrightarrow> p = ''/''"
          by (auto simp: list_ex_iff)
        from serves_root [OF assms None slash this] show ?thesis
          using False None path(1) unfolding dev_serve_def served local_answer
          by (auto simp: root_to_proxy_iff set_routePrefixes)
      qed
    qed
  qed
qed

text \<open>Patterns of the plugin that match neither the path nor the path with a slash.\<close>

definition extra_silent :: "(string \<times> nat) list \<Rightarrow> string \<Rightarrow> bool" where
  "extra_silent extra c \<longleftrightarrow>
     list_all (\<lambda>(q, n). \<not> pattern_matches q c \<and> \<not> pattern_matches q (c @ ''/'')) extra"

lemma dev_serve_extra:
  assumes "extra_silent extra (cleanPath path)"
  shows "dev_serve routes (dev_registrations assets extra routes) httpMethod path =
         dev_serve routes (dev_registrations assets [] routes) httpMethod path"
proof -
  obtain xs zs where regs: "\<And>extra. dev_registrations assets extra routes =
      xs @ map (\<lambda>(q, n). (q, HExtra n)) extra @ zs"
    unfolding dev_registrations_def mount_loop_eq Let_def prod.case by blast
  have "list_all (\<lambda>r. \<not> pattern_matches (fst r) p) (map (\<lambda>(q, n). (q, HExtra n)) extra)"
    if "p = cleanPath path \<or> p = cleanPath path @ ''/''" for p
    using assms that by (auto simp: extra_silent_def list_all_iff)
  then have "mux_match (dev_registrations assets extra routes) p =
      mux_match (dev_registrations assets [] routes) p"
    if "p = cleanPath path \<or> p = cleanPath path @ ''/''" for p
    using mux_match_skip that unfolding regs by fastforce
  then show ?thesis by (simp add: dev_serve_def mux_route_def Let_def)
qed

lemma distinct_without_extra:
  "distinct (map fst (dev_registrations assets extra routes)) \<Longrightarrow>
   distinct (map fst (dev_registrations assets [] routes))"
  by (simp add: dev_registrations_def mount_loop_eq)

text \<open>A declared route whose path the server does not answer itself.\<close>

lemma dev_answer_route:
  assumes "r \<in> set routes" and "TrimSpace (ro_Path r) \<noteq> []"
    and "own_handler assets (route_path r) = None"
  shows "dev_answer assets routes httpMethod (route_path r) =
    (if route_path r @ ''/'' = the (routePrefix (ro_Path r)) \<or>
        assets \<and> route_path r = ''/plugin-assets''
     then RedirectTo (route_path r @ ''/'')
     else if route_path r = ''/'' \<and> \<not> root_to_proxy routes httpMethod ''/''
     then ServedBy HStatic else ServedBy HProxy)"
proof -
  let ?c = "route_path r"
  obtain p where p: "routePrefix (ro_Path r) = Some p"
    by (rule routePrefix_cases [OF assms(2)]) auto
  then have mounted: "p \<in> set (routePrefixes routes)" using assms(1) set_routePrefixes by blast
  have own: "q = p" if "q \<in> set (routePrefixes routes)" "path_under q ?c" for q
    using routePrefix_iff_under [OF assms(2)] prefix_form_routePrefix that p set_routePrefixes
    by (metis option.inject)
  have under: "path_under p ?c"
    using routePrefix_iff_under [OF assms(2) prefix_form_routePrefix [OF p]] p by blast
  have "?c \<noteq> []" using cleanPath_rooted [of ?c] cleanPath_route_path [of r] by auto
  have snoc: "?c @ ''/'' \<in> set (routePrefixes routes) \<longleftrightarrow> ?c @ ''/'' = p"
    using own [of "?c @ ''/''"] mounted \<open>?c \<noteq> []\<close> by (auto simp: path_under_def)
  have test: "?c \<noteq> ''/api/accounts/test''" using assms(3) by (auto simp: own_handler_def)
  have below: "p \<noteq> ''/'' \<and> prefix p ?c \<or> ?c = ''/'' \<or> ?c @ ''/'' = p"
    using under by (auto simp: path_under_def split: if_splits)
  have root: "root_to_proxy routes httpMethod ?c \<Longrightarrow> ?c = ''/''"
    using path_Clean_idem [of "rooted (TrimSpace (ro_Path r))"]
    by (simp add: root_to_proxy_iff cleans_to_root_def route_path_def)
  have at_root: "\<not> (q \<noteq> ''/'' \<and> prefix q ''/'')" if "q \<in> set (routePrefixes routes)" for q
    using mounted_form [OF that] by fastforce
  have listed: "list_ex (\<lambda>p. p \<noteq> ''/'' \<and> prefix p ?c) (routePrefixes routes) \<longleftrightarrow> ?c \<noteq> ''/''"
    if "?c @ ''/'' \<noteq> p"
    unfolding list_ex_iff using below mounted at_root that by metis
  have local_answer: "dev_answer assets routes httpMethod ?c =
      (if ?c @ ''/'' = p \<or> assets \<and> ?c = ''/plugin-assets'' then RedirectTo (?c @ ''/'')
       else if list_ex (\<lambda>p. p \<noteq> ''/'' \<and> prefix p ?c) (routePrefixes routes) \<or>
               root_to_proxy routes httpMethod ?c
            then ServedBy HProxy else ServedBy HStatic)"
    unfolding dev_answer_def Let_def cleanPath_route_path snoc by (simp add: assms(3) test)
  show ?thesis
  proof (cases "?c @ ''/'' = p \<or> assets \<and> ?c = ''/plugin-assets''")
    case True
    then show ?thesis unfolding local_answer p option.sel by (simp only: if_True)
  next
    case False
    then have "list_ex (\<lambda>p. p \<noteq> ''/'' \<and> prefix p ?c) (routePrefixes routes) \<or>
        root_to_proxy routes httpMethod ?c \<longleftrightarrow>
        \<not> (?c = ''/'' \<and> \<not> root_to_proxy routes httpMethod ''/'')"
      using listed by metis
    then show ?thesis unfolding local_answer p option.sel if_not_P [OF False] by simp
  qed
qed

text \<open>When registering panics: only the assets can clash with a mounted prefix.\<close>

lemma dev_mux_panics:
  "dev_mux assets [] routes = None \<longleftrightarrow> assets \<and> ''/plugin-assets/'' \<in> set (routePrefixes routes)"
proof -
  have apart: "q \<notin> set (routePrefixes routes)"
    if "q \<in> {''/api/plugin/info'', ''/api/accounts/'', ''/api/accounts'', ''/api/accounts/test/'',
      ''/api/scheduler/'', ''/api/scheduler''}" for q
  proof
    assume "q \<in> set (routePrefixes routes)"
    moreover have "q \<noteq> ''/''" using that by auto
    ultimately obtain e where "q = CHR ''/'' # e @ ''/''" "CHR ''/'' \<notin> set e" by (rule mounted_form)
    then have "CHR ''/'' \<notin> set (butlast (tl q))" by simp
    then show False using that by auto
  qed
  have "distinct (map fst (dev_registrations assets [] routes)) \<longleftrightarrow>
      \<not> (assets \<and> ''/plugin-assets/'' \<in> set (routePrefixes routes))"
    unfolding registered_names using apart
    by (auto simp: routePrefixes_def distinct_prefix_loop)
  then show ?thesis
    by (simp add: dev_mux_def mux_Handle_all_eq)
qed

lemma if_TrueI: "(c \<Longrightarrow> x) \<Longrightarrow> if c then x else True"
  by simp


text \<open>A plugin that declares \<^verbatim>\<open>POST /chat\<close> and \<^verbatim>\<open>POST /v1/chat\<close>.\<close>

definition chat_routes :: "RouteDefinition list" where
  "chat_routes =
     [\<lparr>ro_Method = ''POST'', ro_Path = ''/chat'', ro_Description = [], ro_Metadata = []\<rparr>,
      \<lparr>ro_Method = ''POST'', ro_Path = ''/v1/chat'', ro_Description = [], ro_Metadata = []\<rparr>]"

lemma chat_mux: "dev_mux True [(''/oauth/'', 0)] chat_routes \<noteq> None"
  by code_simp


end
