(* ===== verification/DevFailover.thy ===== *)
theory DevFailover
  imports DevProxy
begin

text \<open>
  How far the failover of \<^verbatim>\<open>devkit/devserver/proxy.go\<close> gets with the weighted round robin of
  \<^verbatim>\<open>scheduler.go\<close>: verdicts that rest their account lead it through every account, verdicts that do
  not can end it at an account it was offered twice. Also where the scheduler's retry rule departs
  from the verdict's.
\<close>

section \<open>Lemmas\<close>

lemma rest_retryable: "0 < rest_after oc \<Longrightarrow> Kind_ShouldFailover (Kind oc)"
  by (cases "Kind oc") (simp_all add: rest_after_def Kind_ShouldFailover_def)

lemma weighted_retryable:
  "sc_policy s \<noteq> ScheduleNone \<Longrightarrow>
   attempt_retryable att (Some s) \<longleftrightarrow> at_err att \<noteq> None \<or> Kind_ShouldFailover (Kind (at_outcome att))"
  by (simp add: attempt_retryable_def IsRetryable_def)

lemma weighted_select:
  "sc_policy s \<noteq> ScheduleNone \<Longrightarrow>
   selectAccount now store (Some s) = (let (r, s') = selectWeightedRR now store s in (r, Some s'))"
  by (simp add: selectAccount_def Select_def)

text \<open>The accounts tried are the ones that rest, from an instant on and as far as it matters.\<close>

definition rests_tried :: "AccountStore \<Rightarrow> instant \<Rightarrow> instant \<Rightarrow> 64 word list \<Rightarrow> Scheduler \<Rightarrow> bool" where
  "rests_tried store from lim tried s \<longleftrightarrow>
     sc_policy s \<noteq> ScheduleNone \<and>
     (\<forall>a \<in> set (List_accounts store). \<forall>t. from \<le> t \<and> t \<le> lim \<longrightarrow>
        cooling t (sc_cooldown s) (da_ID a) = (da_ID a \<in> set tried))"

lemma rests_tried_later:
  "rests_tried store from lim tried s \<Longrightarrow> from \<le> from' \<Longrightarrow> rests_tried store from' lim tried s"
  by (auto simp: rests_tried_def)

lemma rests_tried_select:
  assumes "rests_tried store now lim tried s" and "now \<le> lim"
    and "sum_list (map slot_weight (List_accounts store)) < 2 ^ 64"
    and "b \<in> set (List_accounts store)" and "da_ID b \<notin> set tried"
  obtains a s' where "selectAccount now store (Some s) = (Some a, Some s')"
    and "a \<in> set (List_accounts store)" and "da_ID a \<notin> set tried"
    and "rests_tried store now lim tried s'"
proof -
  obtain r s' where sel: "selectWeightedRR now store s = (r, s')" by fastforce
  have "List_accounts store \<noteq> []" using assms(4) by auto
  note law = selectWeightedRR_law [OF this assms(3) sel]
  obtain a where a: "a \<in> set (List_accounts store)" "r = Some a"
    "cooling now (sc_cooldown s) (da_ID a) \<longrightarrow>
       (\<forall>b \<in> set (List_accounts store). cooling now (sc_cooldown s) (da_ID b))"
    using law(1) by blast
  have cool: "cooling now (sc_cooldown s) (da_ID x) = (da_ID x \<in> set tried)"
    if "x \<in> set (List_accounts store)" for x
    using assms(1,2) that by (simp add: rests_tried_def)
  show ?thesis
  proof (rule that)
    show "selectAccount now store (Some s) = (Some a, Some s')"
      using assms(1) sel a(2) by (simp add: weighted_select rests_tried_def)
    show "da_ID a \<notin> set tried"
      using a(1,3) cool assms(4,5) by blast
    show "rests_tried store now lim tried s'"
      using assms(1) law(2,3) by (simp add: rests_tried_def)
  qed (rule a(1))
qed

lemma rests_tried_report:
  assumes "rests_tried store from lim tried s" and "0 < rest_after oc"
    and "lim < now + rest_after oc"
  shows "rests_tried store from lim (i # tried) (ReportResult now i oc s)"
  using assms ReportResult_law by (auto simp: rests_tried_def)

text \<open>One more account than were tried.\<close>

lemma untried_account:
  assumes "length tried < length (List_accounts store)"
    and "distinct (map da_ID (List_accounts store))"
  obtains b where "b \<in> set (List_accounts store)" and "da_ID b \<notin> set tried"
proof -
  let ?ids = "map da_ID (List_accounts store)"
  have "\<not> set ?ids \<subseteq> set tried"
  proof
    assume "set ?ids \<subseteq> set tried"
    then have "card (set ?ids) \<le> length tried"
      using card_mono [of "set tried" "set ?ids"] card_length [of tried] by simp
    then show False using assms(1) distinct_card [OF assms(2)] by simp
  qed
  then obtain i where "i \<in> set ?ids" "i \<notin> set tried" by blast
  then show ?thesis using that by auto
qed

text \<open>Every attempt's verdict rests its account until after the last selection.\<close>

definition all_rest :: "'w writer_ops \<Rightarrow> proxy_call \<Rightarrow> nat \<Rightarrow> bool" where
  "all_rest ops c n \<longleftrightarrow>
     (\<forall>k < n. \<forall>a w. let oc = at_outcome (fst (forward_attempt ops c k a w)) in
        0 < rest_after oc \<and> fst (pc_clock c (n - 1)) < snd (pc_clock c k) + rest_after oc)"

lemma failover_loop_reaches:
  assumes "failover_loop ops c store n k account tried (Some s) w = (w', sched', atts)"
    and "k = 0 \<longrightarrow> account \<in> set (List_accounts store)"
    and "rests_tried store (fst (pc_clock c k)) lim tried s"
    and "n + length tried = length (List_accounts store)"
    and "distinct (map da_ID (List_accounts store))"
    and "sum_list (map slot_weight (List_accounts store)) < 2 ^ 64"
    and "lim = fst (pc_clock c (k + n - 1))"
    and "\<And>i j. i \<le> j \<Longrightarrow> fst (pc_clock c i) \<le> fst (pc_clock c j)"
    and "all_rest ops c (k + n)"
  shows "length atts = n \<and> (atts \<noteq> [] \<longrightarrow> attempt_retryable (last atts) (Some s))"
  using assms(1-4,7,9)
proof (induction n arbitrary: k account tried s w atts)
  case 0
  then show ?case by simp
next
  case (Suc n)
  have now: "fst (pc_clock c k) \<le> lim"
    using Suc.prems(5) assms(8) by simp
  obtain b where b: "b \<in> set (List_accounts store)" "da_ID b \<notin> set tried"
    using untried_account [of tried store] Suc.prems(4) assms(5) by auto
  have "\<exists>a s1. (if k > 0 then selectAccount (fst (pc_clock c k)) store (Some s)
        else (Some account, Some s)) = (Some a, Some s1) \<and>
      \<not> (k > 0 \<and> da_ID a \<in> set tried) \<and> rests_tried store (fst (pc_clock c k)) lim tried s1 \<and>
      sc_policy s1 = sc_policy s"
  proof (cases "k > 0")
    case True
    then show ?thesis
      using rests_tried_select [OF Suc.prems(3) now assms(6) b] selectAccount_policy
      by (metis option.inject option.simps(9))
  qed (use Suc.prems(3) in simp)
  then obtain a s1 where sel: "(if k > 0 then selectAccount (fst (pc_clock c k)) store (Some s)
        else (Some account, Some s)) = (Some a, Some s1)" "\<not> (k > 0 \<and> da_ID a \<in> set tried)"
    "rests_tried store (fst (pc_clock c k)) lim tried s1" "sc_policy s1 = sc_policy s"
    by blast
  obtain att w1 where att: "forward_attempt ops c k a w = (att, w1)" by fastforce
  define s2 where "s2 = ReportResult (snd (pc_clock c k)) (da_ID a) (at_outcome att) s1"
  have "k < k + Suc n" by simp
  then have rest: "0 < rest_after (at_outcome att)"
    "lim < snd (pc_clock c k) + rest_after (at_outcome att)"
    using Suc.prems(6) att unfolding all_rest_def Suc.prems(5) Let_def by (metis fst_conv)+
  have s2: "rests_tried store (fst (pc_clock c (Suc k))) lim (da_ID a # tried) s2"
    unfolding s2_def
    using rests_tried_later [OF rests_tried_report [OF sel(3) rest]] assms(8) by simp
  have policy: "sc_policy s2 = sc_policy s" "sc_policy s \<noteq> ScheduleNone"
    using sel(3,4) ReportResult_law(1) by (auto simp: s2_def rests_tried_def)
  have retry: "attempt_retryable att (Some s2)"
    using rest_retryable [OF rest(1)] policy by (simp add: weighted_retryable)
  obtain w2 sc atts' where loop: "failover_loop ops c store n (Suc k) a (da_ID a # tried) (Some s2) w1
      = (w2, sc, atts')" by (metis prod_cases3)
  have atts: "atts = att # atts'"
    using Suc.prems(1) sel(1,2) att retry loop by (simp add: s2_def Let_def)
  have "length atts' = n \<and> (atts' \<noteq> [] \<longrightarrow> attempt_retryable (last atts') (Some s2))"
  proof (rule Suc.IH [OF _ _ s2])
    show "failover_loop ops c store n (Suc k) a (da_ID a # tried) (Some s2) w1 = (w', sched', atts')"
      using Suc.prems(1) sel(1,2) att retry loop by (simp add: s2_def Let_def)
  qed (use Suc.prems in simp_all)
  moreover have "attempt_retryable x (Some s2) = attempt_retryable x (Some s)" for x
    using policy by (simp add: weighted_retryable)
  ultimately show ?case using retry by (simp add: atts)
qed

section \<open>Every account is reached\<close>

lemma cooling_ends: "cooling t cd i \<Longrightarrow> now \<le> t \<Longrightarrow> cooling now cd i"
  by (auto simp: cooling_def split: option.splits)

text \<open>
  C19: The failover reaches every account when verdicts rest accounts. With weights and no account
  resting at first, if every verdict rests its account until after the last selection (a rate
  limit, dead or unavailable credentials), the plugin is called exactly once for each account of
  the store, in an order the weights and the counter decide; a request that does not stream is
  then answered that all accounts are exhausted, and with nothing else.
\<close>

theorem failover_reaches_every_account:
  assumes "store_inv store" and "List_accounts store \<noteq> []" and "sc_policy s \<noteq> ScheduleNone"
    and "sum_list (map slot_weight (List_accounts store)) < 2 ^ 64"
    and "\<And>a. a \<in> set (List_accounts store) \<Longrightarrow>
           \<not> cooling (fst (pc_clock c 0)) (sc_cooldown s) (da_ID a)"
    and "\<And>i j. i \<le> j \<Longrightarrow> fst (pc_clock c i) \<le> fst (pc_clock c j)"
    and "all_rest ops c (length (List_accounts store))"
    and "handleHTTP ops c True store (Some s) w = (w', sched', atts)"
  shows "mset (map at_account atts) = mset (List_accounts store) \<and>
         (if wants_stream (pc_body c) then True else w' = exhausted ops w)"
proof -
  let ?n = "length (List_accounts store)" and ?lim = "fst (pc_clock c (length (List_accounts store) - 1))"
  have ids: "distinct (map da_ID (List_accounts store))"
    using assms(1) by (simp add: store_inv_def List_accounts_def)
  obtain b where b: "b \<in> set (List_accounts store)" using assms(2) by (cases "List_accounts store") auto
  have "\<not> cooling t (sc_cooldown s) (da_ID a)"
    if "a \<in> set (List_accounts store)" "fst (pc_clock c 0) \<le> t" for a t
    using assms(5) [OF that(1)] cooling_ends [OF _ that(2)] by blast
  then have "rests_tried store (fst (pc_clock c 0)) ?lim [] s"
    using assms(3) by (simp add: rests_tried_def)
  then obtain a s1 where sel: "selectAccount (fst (pc_clock c 0)) store (Some s) = (Some a, Some s1)"
    "a \<in> set (List_accounts store)" "rests_tried store (fst (pc_clock c 0)) ?lim [] s1"
    using rests_tried_select [OF _ _ assms(4) b] assms(6) by (metis empty_iff list.set(1) zero_le)
  have loop: "failover_loop ops c store ?n 0 a [] (Some s1) w = (w', sched', atts)"
    using assms(2,8) by (simp add: handleHTTP_def sel(1) Let_def)
  have count: "length atts = ?n" "atts \<noteq> [] \<longrightarrow> attempt_retryable (last atts) (Some s1)"
    using failover_loop_reaches [OF loop _ sel(3) _ ids assms(4) _ assms(6)] sel(2) assms(7) by simp_all
  have atts: "distinct (attempt_ids atts)" "set (map at_account atts) \<subseteq> set (List_accounts store)"
    using failover_loop_attempts [OF loop assms(4) sel(2)] by auto
  then have "distinct (map at_account atts)"
    by (simp add: attempt_ids_def distinct_map comp_inj_on_iff flip: map_map)
  then have "mset (map at_account atts) = mset (List_accounts store)"
    using atts(2) count(1) store_distinct [OF assms(1)]
    by (metis card_subset_eq distinct_card finite_set length_map set_eq_iff_mset_eq_distinct)
  then show ?thesis
    using failover_loop_answer [OF loop] count assms(2)
    by (cases "atts = []") (auto simp: buffered_answer_def)
qed

section \<open>Where the loop departs from the contract\<close>

text \<open>Two selections in a row, the account of the first reported in between.\<close>

lemma select_again:
  assumes "List_accounts store \<noteq> []" and "sc_policy s \<noteq> ScheduleNone"
    and "slots = slots_of now (sc_cooldown s) (List_accounts store)" and "slots \<noteq> []"
    and "length slots < 2 ^ 64" and "unat (sc_counter s) + 1 < 2 ^ 64" and "now \<le> now'"
    and "a = slots ! (unat (sc_counter s) mod length slots)"
    and "slots ! ((unat (sc_counter s) + 1) mod length slots) = a"
    and "\<And>b. b \<in> set (List_accounts store) \<Longrightarrow>
           cooling now' (sc_cooldown s) (da_ID b) = cooling now (sc_cooldown s) (da_ID b)"
    and "rest_after oc = 0"
  obtains s1 s2 where "selectAccount now store (Some s) = (Some a, Some s1)"
    and "selectAccount now' store (Some (ReportResult t (da_ID a) oc s1)) = (Some a, Some s2)"
    and "sc_policy s1 = sc_policy s"
proof -
  obtain r s1 where sel: "selectWeightedRR now store s = (r, s1)" by fastforce
  note first = selectWeightedRR_slots [OF assms(1,3,4,5) sel]
  define s1' where "s1' = ReportResult t (da_ID a) oc s1"
  have policy: "sc_policy s1' = sc_policy s" "sc_policy s1 = sc_policy s"
    using first(3) assms(2) ReportResult_law(1) by (simp_all add: s1'_def)
  have counter: "sc_counter s1' = sc_counter s + 1"
    using first(2) by (cases "Kind oc") (simp_all add: s1'_def ReportResult_def Let_def)
  have "a \<in> set slots" using assms(4,8) by simp
  then have cool: "\<not> cooling now (sc_cooldown s) (da_ID a)" and mem: "a \<in> set (List_accounts store)"
    unfolding assms(3) set_slots_of by simp_all
  have "slots = slots_of now' (sc_cooldown s1') (List_accounts store)"
    unfolding assms(3)
  proof (rule slots_of_cong)
    fix b assume b: "b \<in> set (List_accounts store)"
    have "cooling now' (sc_cooldown s1) (da_ID b) = cooling now (sc_cooldown s) (da_ID b)"
      using first(4) [OF assms(7)] assms(10) [OF b] by simp
    moreover have "sc_policy s1 \<noteq> ScheduleNone" using policy assms(2) by simp
    ultimately show "cooling now (sc_cooldown s) (da_ID b) = cooling now' (sc_cooldown s1') (da_ID b)"
      using ReportResult_law(2) [of s1] cool assms(11) by (auto simp: s1'_def)
  qed
  moreover obtain r' s2 where sel': "selectWeightedRR now' store s1' = (r', s2)" by fastforce
  ultimately have "r' = Some (slots ! (unat (sc_counter s1') mod length slots))"
    using selectWeightedRR_slots(1) [OF assms(1) _ assms(4,5) sel'] by simp
  moreover have "unat (sc_counter s1') = unat (sc_counter s) + 1"
    unfolding counter using assms(6) by (simp add: unat_word_ariths)
  ultimately have "r' = Some a" using assms(9) by simp
  then have "selectAccount now' store (Some s1') = (Some a, Some s2)"
    using sel' policy assms(2) by (simp add: weighted_select)
  moreover have "selectAccount now store (Some s) = (Some a, Some s1)"
    using sel first(1) assms(2,8) by (simp add: weighted_select)
  ultimately show ?thesis using that policy(2) unfolding s1'_def by blast
qed

text \<open>
  C20: Where the failover departs from the SDK's contract. It retries against the verdict's word
  exactly when the call also returned an error, whatever the verdict (a success or an aborted
  stream included), or when the verdict's kind could be retried but its scope is terminal; it
  refuses a replay the verdict asks for exactly under the policy without failover. And it gives up
  early: if the round robin offers the account of a retryable verdict that rests nobody once more,
  as a weight above one makes it do, the loop ends after that one call and answers that all
  accounts are exhausted, however many there are.
\<close>

theorem failover_departs_from_contract:
  assumes "2 \<le> length (List_accounts store)" and "sc_policy s \<noteq> ScheduleNone"
    and "slots = slots_of (fst (pc_clock c 0)) (sc_cooldown s) (List_accounts store)"
    and "slots \<noteq> []" and "length slots < 2 ^ 64" and "unat (sc_counter s) + 1 < 2 ^ 64"
    and "fst (pc_clock c 0) \<le> fst (pc_clock c 1)"
    and "a = slots ! (unat (sc_counter s) mod length slots)"
    and "slots ! ((unat (sc_counter s) + 1) mod length slots) = a"
    and "\<And>b. b \<in> set (List_accounts store) \<Longrightarrow>
           cooling (fst (pc_clock c 1)) (sc_cooldown s) (da_ID b) =
           cooling (fst (pc_clock c 0)) (sc_cooldown s) (da_ID b)"
    and "forward_attempt ops c 0 a w = (att, w1)" and "rest_after (at_outcome att) = 0"
    and "attempt_retryable att (Some s)"
  shows "(IsRetryable oc err s \<and> \<not> Outcome_ShouldFailover oc) =
       (\<not> Outcome_ShouldFailover oc \<and>
        (case err of
           Some _ \<Rightarrow> True
         | None \<Rightarrow> FailoverScope oc = FailoverScopeTerminal \<and> Kind_ShouldFailover (Kind oc))) \<and>
     (Outcome_ShouldFailover oc \<and> \<not> IsRetryable oc err s') =
       (Outcome_ShouldFailover oc \<and> sc_policy s' = ScheduleNone) \<and>
     (let (w', _, atts) = handleHTTP ops c True store (Some s) w
      in w' = exhausted ops w1 \<and> atts = [att])"
proof -
  have accs: "List_accounts store \<noteq> []" using assms(1) by auto
  obtain s1 s2 where sel: "selectAccount (fst (pc_clock c 0)) store (Some s) = (Some a, Some s1)"
    "selectAccount (fst (pc_clock c 1)) store
       (Some (ReportResult (snd (pc_clock c 0)) (da_ID a) (at_outcome att) s1)) = (Some a, Some s2)"
    "sc_policy s1 = sc_policy s"
    by (rule select_again [OF accs assms(2-10,12)])
  obtain n where n: "length (List_accounts store) = Suc (Suc n)"
    using assms(1) by (metis add_2_eq_Suc le_Suc_ex)
  have "sc_policy s1 \<noteq> ScheduleNone" using sel(3) assms(2) by simp
  note policy = ReportResult_law(1) [OF this]
  have "attempt_retryable att
      (Some (ReportResult (snd (pc_clock c 0)) (da_ID a) (at_outcome att) s1))"
    using assms(13) attempt_retryable_cong policy sel(3) by (metis option.simps(9))
  then have "handleHTTP ops c True store (Some s) w = (exhausted ops w1, Some s2, [att])"
    using sel(1,2) assms(11) by (simp add: handleHTTP_def n Let_def)
  then show ?thesis
    using assms(2) by (auto simp: IsRetryable_def Outcome_ShouldFailover_def split: option.splits)
qed

text \<open>
  Three accounts of weights two, one and one: a plugin that reports dead credentials is called for
  all of them, one that reports an upstream failure for the first only.
\<close>

definition steady_call :: "OutcomeKind \<Rightarrow> proxy_call" where
  "steady_call k =
     \<lparr>pc_plugin = \<lambda>_ _. Return (example_verdict k, None), pc_body = ''{}'', pc_headers = [],
      pc_path = ''/v1'', pc_clock = \<lambda>k. (200 + int k, 200 + int k)\<rparr>"

definition fresh_scheduler :: Scheduler where
  "fresh_scheduler = NewScheduler ScheduleWeightedRR"

lemma steady_stream: "\<not> wants_stream ''{}''"
  by code_simp

lemma steady_attempt:
  "forward_attempt ops (steady_call k) n a w =
    (\<lparr>at_account = a, at_outcome = example_verdict k, at_err = None,
      at_buffer = Some new_devBufferWriter, at_trace = []\<rparr>, w)"
  by (simp add: forward_attempt_def steady_call_def steady_stream Let_def)

lemma steady_clock [simp]: "pc_clock (steady_call k) n = (200 + int n, 200 + int n)"
  by (simp add: steady_call_def)

lemma fresh_weighted: "sc_policy fresh_scheduler \<noteq> ScheduleNone" "sc_cooldown fresh_scheduler = []"
  "sc_counter fresh_scheduler = 0"
  by (simp_all add: fresh_scheduler_def NewScheduler_def ScheduleWeightedRR_def ScheduleNone_def)

lemma example_list: "List_accounts example_accounts =
    [example_account 1 ''one'' 2, example_account 2 ''two'' 1, example_account 3 ''three'' 0]"
  by (simp add: example_accounts_def List_accounts_def)

theorem failover_reaches_every_account_witness:
  "mset (map at_account (snd (snd (handleHTTP dev_buffer_ops (steady_call OutcomeAccountDead) True
     example_accounts (Some fresh_scheduler) new_devBufferWriter)))) =
   mset (List_accounts example_accounts)"
proof -
  let ?c = "steady_call OutcomeAccountDead"
  obtain w sched' atts where h: "handleHTTP dev_buffer_ops ?c True example_accounts
      (Some fresh_scheduler) new_devBufferWriter = (w, sched', atts)"
    by (metis prod_cases3)
  have "all_rest dev_buffer_ops ?c (length (List_accounts example_accounts))"
    by (auto simp: all_rest_def steady_attempt rest_after_def example_verdict_def second_def
        example_list Let_def)
  then show ?thesis
    using failover_reaches_every_account [OF example_accounts_ok example_accounts_slots(1)
        fresh_weighted(1) example_accounts_slots(2) _ _ _ h]
    by (simp add: h fresh_weighted(2) cooling_def example_list)
qed

theorem failover_departs_from_contract_witness:
  "snd (snd (handleHTTP dev_buffer_ops (steady_call OutcomeUpstreamTransient) True
     example_accounts (Some fresh_scheduler) new_devBufferWriter)) =
   [fst (forward_attempt dev_buffer_ops (steady_call OutcomeUpstreamTransient) 0
      (example_account 1 ''one'' 2) new_devBufferWriter)] \<and>
   length (List_accounts example_accounts) = 3"
proof -
  let ?c = "steady_call OutcomeUpstreamTransient" and ?a = "example_account 1 ''one'' 2"
  let ?slots = "[?a, ?a, example_account 2 ''two'' 1, example_account 3 ''three'' 0]"
  have two: "replicate 2 x = [x, x]" for x :: DevAccount
    by (simp add: numeral_2_eq_2)
  have slots: "?slots = slots_of (fst (pc_clock ?c 0)) (sc_cooldown fresh_scheduler)
      (List_accounts example_accounts)"
    by (simp add: example_list slots_of_def fresh_weighted(2) cooling_def slot_weight_def
        example_account_def two)
  have "rest_after (example_verdict OutcomeUpstreamTransient) = 0"
    by (simp add: rest_after_def example_verdict_def)
  moreover have "attempt_retryable (fst (forward_attempt dev_buffer_ops ?c 0 ?a new_devBufferWriter))
      (Some fresh_scheduler)"
    using fresh_weighted(1) by (simp add: weighted_retryable steady_attempt example_verdict_def
        Kind_ShouldFailover_def)
  ultimately show ?thesis
    using failover_departs_from_contract [where store = example_accounts and s = fresh_scheduler and
        slots = ?slots and c = ?c and a = ?a and ops = dev_buffer_ops and w = new_devBufferWriter,
        OF _ fresh_weighted(1) slots _ _ _ _ _ _ _ steady_attempt]
    by (simp add: steady_attempt fresh_weighted example_list cooling_def Let_def
        case_prod_beta)
qed

end
