(* ===== verification/DevWebSocket.thy ===== *)
theory DevWebSocket
  imports DevProxy WebSocket
begin

text \<open>
  The WebSocket path of the development proxy: \<^verbatim>\<open>handleWebSocket\<close>, \<^verbatim>\<open>devWebSocketConn\<close> and
  \<^verbatim>\<open>ServeHTTP\<close> of \<^verbatim>\<open>devkit/devserver/proxy.go\<close>. The WebSocket package is not modelled: \<open>ins\<close> is
  what its \<^verbatim>\<open>ReadMessage\<close> returns, \<open>ended\<close> its error after that, \<open>fate\<close> what its n-th write or
  close returns. The last lemma compares the plugin's program here and over the gRPC connection.
\<close>

section \<open>The connection\<close>

datatype dev_ws_op =
    DevWrite go_int bytes
  | DevClose go_int string

definition dev_ReadMessage :: "go_error + ws_message \<Rightarrow> go_error + ws_message" where
  "dev_ReadMessage recv =
     (case recv of Inl e \<Rightarrow> Inl e | Inr (msgType, data) \<Rightarrow> Inr (read_type msgType, data))"

definition dev_recv_next :: "go_error \<Rightarrow> (go_error + ws_message) list \<Rightarrow> go_error + ws_message" where
  "dev_recv_next ended ins = (case ins of [] \<Rightarrow> Inl ended | x # _ \<Rightarrow> x)"

text \<open>A close writes a close frame, whose error is dropped, and closes the connection.\<close>

primrec dev_run_ws ::
  "go_error \<Rightarrow> (nat \<Rightarrow> go_error option) \<Rightarrow> ws_prog \<Rightarrow> (go_error + ws_message) list
     \<Rightarrow> (dev_ws_op \<times> go_error option) list
     \<Rightarrow> forward_result \<times> (dev_ws_op \<times> go_error option) list" where
  "dev_run_ws ended fate (WsReturn outcome err) ins log = ((outcome, err), log)"
| "dev_run_ws ended fate (WsRead k) ins log =
     dev_run_ws ended fate (k (dev_ReadMessage (dev_recv_next ended ins))) (tl ins) log"
| "dev_run_ws ended fate (WsWrite m k) ins log =
     (let e = fate (length log)
      in dev_run_ws ended fate (k e) ins (log @ [(DevWrite (write_type (fst m)) (snd m), e)]))"
| "dev_run_ws ended fate (WsClose code reason k) ins log =
     (let e = fate (length log)
      in dev_run_ws ended fate (k e) ins (log @ [(DevClose code reason, e)]))"

section \<open>The handler\<close>

record dev_ws_request =
  dq_Path :: string
  dq_RawQuery :: string
  dq_Header :: header
  dq_RemoteAddr :: string

definition dev_connect_info :: "dev_ws_request \<Rightarrow> DevAccount \<Rightarrow> WebSocketConnectInfo" where
  "dev_connect_info r account =
     \<lparr>wi_Path = dq_Path r, wi_Query = dq_RawQuery r, wi_Headers = dq_Header r,
      wi_RemoteAddr = dq_RemoteAddr r, wi_ConnectionID = [],
      wi_Account = Some (zero_account\<lparr>ac_ID := da_ID account,
        ac_Credentials := da_Credentials account, ac_ProxyURL := da_ProxyURL account\<rparr>)\<rparr>"

text \<open>\<open>upgrade\<close> is the error of the upgrade, which has answered the request itself.\<close>

definition handleWebSocket ::
  "'w writer_ops \<Rightarrow> go_error option \<Rightarrow> go_error \<Rightarrow> (nat \<Rightarrow> go_error option)
     \<Rightarrow> (WebSocketConnectInfo \<Rightarrow> ws_prog) \<Rightarrow> dev_ws_request \<Rightarrow> (go_error + ws_message) list
     \<Rightarrow> instant \<Rightarrow> AccountStore \<Rightarrow> Scheduler option \<Rightarrow> 'w
     \<Rightarrow> 'w \<times> Scheduler option \<times> (dev_ws_op \<times> go_error option) list" where
  "handleWebSocket ops upgrade ended fate plugin r ins now store sched w =
     (case selectAccount now store sched of
        (None, sched) \<Rightarrow>
          (http_Error ops ''{\"error\":\"no accounts configured\"}'' 503 w, sched, [])
      | (Some account, sched) \<Rightarrow>
          (case upgrade of
             Some e \<Rightarrow> (w, sched, [])
           | None \<Rightarrow>
               (w, sched,
                snd (dev_run_ws ended fate (plugin (dev_connect_info r account)) ins []))))"

text \<open>\<^verbatim>\<open>ServeHTTP\<close> chooses between the two paths.\<close>

definition proxy_ServeHTTP :: "header \<Rightarrow> 'a \<Rightarrow> 'a \<Rightarrow> 'a" where
  "proxy_ServeHTTP h websocket http = (if isWebSocketUpgrade h then websocket else http)"

section \<open>Lemmas\<close>

text \<open>
  A plugin cannot tell the development connection from the gRPC one: with the same messages to
  read and the same fates it returns the same, and sends the same messages and closes, as long as
  the end of the input is \<^verbatim>\<open>io.EOF\<close>, which is what the gRPC connection reports.
\<close>

definition same_op :: "dev_ws_op \<Rightarrow> WebSocketFrame \<Rightarrow> bool" where
  "same_op op f \<longleftrightarrow>
     (case op of
        DevWrite t d \<Rightarrow> is_message f \<and> frame_message f = (t, d)
      | DevClose code reason \<Rightarrow> f = close_frame code reason)"

lemma write_type_view: "(write_type (fst m), snd m) = message_view m"
  by (simp add: write_type_def message_view_def WSMessageBinary_def WSMessageText_def)

lemma same_read:
  "conn_ReadMessage tt (recv_next (map (Inr \<circ> message_frame) ms)) =
   dev_ReadMessage (dev_recv_next EOF (map Inr ms))"
proof (cases ms)
  case Nil
  then show ?thesis
    by (simp add: recv_next_def dev_recv_next_def conn_ReadMessage_def dev_ReadMessage_def)
next
  case (Cons m ms')
  then show ?thesis
    by (cases m) (simp add: recv_next_def dev_recv_next_def dev_ReadMessage_def message_view_def
        read_type_def WSMessageBinary_def WSMessageText_def)
qed

lemma dev_run_matches:
  assumes "list_all2 (\<lambda>x y. same_op (fst x) (fst y) \<and> snd x = snd y) log log'"
  shows "fst (dev_run_ws EOF fate p (map Inr ms) log) =
           fst (run_ws tt fate p (map (Inr \<circ> message_frame) ms) log') \<and>
         list_all2 (\<lambda>x y. same_op (fst x) (fst y) \<and> snd x = snd y)
           (snd (dev_run_ws EOF fate p (map Inr ms) log))
           (snd (run_ws tt fate p (map (Inr \<circ> message_frame) ms) log'))"
  using assms
proof (induction p arbitrary: ms log log')
  case (WsReturn o' e)
  then show ?case by simp
next
  case (WsRead k)
  show ?case
    using WsRead.IH [OF rangeI WsRead.prems, of "dev_ReadMessage (dev_recv_next EOF (map Inr ms))"
        "tl ms"]
    by (simp only: run_ws.simps dev_run_ws.simps same_read map_tl)
next
  case (WsWrite m k)
  have len: "length log = length log'"
    using WsWrite.prems by (rule list_all2_lengthD)
  have "list_all2 (\<lambda>x y. same_op (fst x) (fst y) \<and> snd x = snd y)
      (log @ [(DevWrite (write_type (fst m)) (snd m), fate (length log'))])
      (log' @ [(message_frame m, fate (length log'))])"
    using WsWrite.prems by (simp add: list_all2_appendI same_op_def write_type_view)
  from WsWrite.IH [OF rangeI this, of "fate (length log')" ms] show ?case
    by (simp only: run_ws.simps dev_run_ws.simps Let_def len)
next
  case (WsClose code reason k)
  have len: "length log = length log'"
    using WsClose.prems by (rule list_all2_lengthD)
  have "list_all2 (\<lambda>x y. same_op (fst x) (fst y) \<and> snd x = snd y)
      (log @ [(DevClose code reason, fate (length log'))])
      (log' @ [(close_frame code reason, fate (length log'))])"
    using WsClose.prems by (simp add: list_all2_appendI same_op_def)
  from WsClose.IH [OF rangeI this, of "fate (length log')" ms] show ?case
    by (simp only: run_ws.simps dev_run_ws.simps Let_def len)
qed

end
