(* ===== verification/Sse.thy ===== *)
theory Sse
  imports Strconv
begin

text \<open>
  The incremental observers of \<^verbatim>\<open>sdkgo/requesttrace\<close>: the SSE observer of \<^verbatim>\<open>http.go\<close> and the body
  buffer of \<^verbatim>\<open>trace.go\<close>. Both see the data in whatever pieces the caller reads it. The interface
  \<open>incremental\<close> says that the pieces do not matter; the SSE observer is also compared with a
  reading of the whole text line by line.
\<close>

section \<open>Limits\<close>

definition maxBodyBytes :: nat where "maxBodyBytes = 48 * 2 ^ 20"
definition maxEventBytes :: nat where "maxEventBytes = 16 * 2 ^ 20"

section \<open>The interface\<close>

text \<open>
  A consumer of a byte stream: \<open>feed\<close> takes the next piece and returns what it emits. Feeding two
  pieces is feeding their concatenation.
\<close>

locale incremental =
  fixes feed :: "'s \<Rightarrow> bytes \<Rightarrow> 's \<times> 'e list" and ok :: "'s \<Rightarrow> bool"
  assumes feed_Nil: "ok s \<Longrightarrow> feed s [] = (s, [])"
    and feed_ok: "ok s \<Longrightarrow> ok (fst (feed s p))"
    and feed_append:
      "ok s \<Longrightarrow> feed s (p @ q) =
         (let (s', es) = feed s p; (s'', es') = feed s' q in (s'', es @ es'))"
begin

primrec feed_all :: "'s \<Rightarrow> bytes list \<Rightarrow> 's \<times> 'e list" where
  "feed_all s [] = (s, [])"
| "feed_all s (p # ps) =
     (let (s', es) = feed s p; (s'', es') = feed_all s' ps in (s'', es @ es'))"

lemma feed_all_concat: "ok s \<Longrightarrow> feed_all s ps = feed s (concat ps)"
proof (induction ps arbitrary: s)
  case Nil
  then show ?case by (simp add: feed_Nil)
next
  case (Cons p ps)
  then show ?case
    using feed_ok [OF Cons.prems, of p] by (simp add: feed_append case_prod_beta)
qed

lemma feed_all_cong:
  "ok s \<Longrightarrow> concat ps = concat qs \<Longrightarrow> feed_all s ps = feed_all s qs"
  by (simp add: feed_all_concat)

lemma feed_all_ok: "ok s \<Longrightarrow> ok (fst (feed_all s ps))"
  by (simp add: feed_all_concat feed_ok)

end

section \<open>The body buffer\<close>

record bodyBuffer =
  bb_data :: bytes
  bb_size :: go_int
  bb_closed :: bool

definition new_bodyBuffer :: bodyBuffer where
  "new_bodyBuffer = \<lparr>bb_data = [], bb_size = 0, bb_closed = False\<rparr>"

definition bb_write :: "bodyBuffer \<Rightarrow> bytes \<Rightarrow> bodyBuffer" where
  "bb_write b p =
     (if bb_closed b then b
      else
        (let b = b\<lparr>bb_size := bb_size b + word_of_nat (length p)\<rparr>;
             available = maxBodyBytes - length (bb_data b)
         in if available > 0
            then b\<lparr>bb_data := bb_data b @ take (min available (length p)) p\<rparr> else b))"

definition bb_release :: "bodyBuffer \<Rightarrow> bodyBuffer" where
  "bb_release b = b\<lparr>bb_data := [], bb_size := 0, bb_closed := True\<rparr>"

definition bb_snapshot :: "bodyBuffer \<Rightarrow> bytes \<times> go_int" where
  "bb_snapshot b = (bb_data b, bb_size b)"

lemma bb_write_data:
  "bb_data (bb_write b p) =
     (if bb_closed b then bb_data b
      else bb_data b @ take (maxBodyBytes - length (bb_data b)) p)"
  by (simp add: bb_write_def Let_def min_def)

lemma bb_write_simps [simp]:
  "bb_size (bb_write b p) =
     (if bb_closed b then bb_size b else bb_size b + word_of_nat (length p))"
  "bb_closed (bb_write b p) = bb_closed b"
  by (simp_all add: bb_write_def Let_def)

lemma bb_eqI:
  "bb_data b = bb_data c \<Longrightarrow> bb_size b = bb_size c \<Longrightarrow> bb_closed b = bb_closed c \<Longrightarrow>
   (b :: bodyBuffer) = c"
  by (cases b; cases c) simp

lemma bb_write_append: "bb_write b (p @ q) = bb_write (bb_write b p) q"
  by (rule bb_eqI) (auto simp: bb_write_data min_def)

interpretation body: incremental "\<lambda>b p. (bb_write b p, [] :: unit list)" "\<lambda>_. True"
proof unfold_locales
  show "(bb_write s [], []) = (s, [])" for s
    by (simp add: bb_eqI bb_write_data)
qed (simp_all add: bb_write_append)

definition bb_fits :: "bodyBuffer \<Rightarrow> bool" where
  "bb_fits b \<longleftrightarrow> length (bb_data b) \<le> maxBodyBytes"

lemma bb_fits_write: "bb_fits b \<Longrightarrow> bb_fits (bb_write b p)"
  by (auto simp: bb_fits_def bb_write_data)

lemma bb_fits_new [simp]: "bb_fits new_bodyBuffer" "bb_fits (bb_release b)"
  by (simp_all add: bb_fits_def new_bodyBuffer_def bb_release_def)

section \<open>The event observer\<close>

definition CR :: char where "CR = CHR 0x0D"
definition LF :: char where "LF = CHR 0x0A"

definition is_eol :: "char \<Rightarrow> bool" where "is_eol c \<longleftrightarrow> c = CR \<or> c = LF"

record eventObserver =
  eo_closed :: bool
  eo_line :: bytes
  eo_data :: bytes
  eo_skipLine :: bool
  eo_skipEvent :: bool
  eo_skipLF :: bool

definition new_eventObserver :: eventObserver where
  "new_eventObserver = \<lparr>eo_closed = False, eo_line = [], eo_data = [], eo_skipLine = False,
     eo_skipEvent = False, eo_skipLF = False\<rparr>"

text \<open>The payload an observer hands to \<^verbatim>\<open>Exchange.ObserveEvent\<close>, if any.\<close>

definition eo_flush :: "eventObserver \<Rightarrow> eventObserver \<times> bytes list" where
  "eo_flush s =
     (let payload = TrimSuffix (eo_data s) [LF]
      in (s\<lparr>eo_data := [], eo_skipEvent := False\<rparr>,
          if \<not> eo_skipEvent s \<and> payload \<noteq> ''[DONE]'' then [payload] else []))"

definition consumeLine :: "eventObserver \<Rightarrow> bytes \<Rightarrow> eventObserver \<times> bytes list" where
  "consumeLine s line =
     (if length line = 0 then eo_flush s
      else if \<not> HasPrefix line ''data:'' \<or> eo_skipEvent s then (s, [])
      else
        (let payload = TrimPrefix (drop 5 line) '' '' in
         if length (eo_data s) + length payload + 1 > maxEventBytes
         then (s\<lparr>eo_data := [], eo_skipEvent := True\<rparr>, [])
         else (s\<lparr>eo_data := eo_data s @ payload @ [LF]\<rparr>, [])))"

text \<open>The part of a read up to the next line end, added to the current line.\<close>

definition absorb :: "eventObserver \<Rightarrow> bytes \<Rightarrow> eventObserver" where
  "absorb s chunk =
     (if \<not> eo_skipLine s
      then
        (if length (eo_line s) + length chunk > maxEventBytes
         then s\<lparr>eo_line := [], eo_skipLine := True, eo_skipEvent := True\<rparr>
         else s\<lparr>eo_line := eo_line s @ chunk\<rparr>)
      else s)"

definition end_line :: "eventObserver \<Rightarrow> char \<Rightarrow> eventObserver \<times> bytes list" where
  "end_line s c =
     (let (s, es) = (if \<not> eo_skipLine s then consumeLine s (eo_line s) else (s, []))
      in (s\<lparr>eo_line := [], eo_skipLine := False, eo_skipLF := (c = CR)\<rparr>, es))"

lemma dropWhile_shorter:
  "dropWhile P xs = y # ys \<Longrightarrow> length ys < length xs"
  using length_dropWhile_le [of P xs] by simp

function eo_write_loop :: "eventObserver \<Rightarrow> bytes \<Rightarrow> eventObserver \<times> bytes list" where
  "eo_write_loop s p =
     (if p = [] then (s, [])
      else
        (let swallow = eo_skipLF s; s = s\<lparr>eo_skipLF := False\<rparr> in
         if swallow \<and> hd p = LF then eo_write_loop s (tl p)
         else
           (let chunk = takeWhile (\<lambda>c. \<not> is_eol c) p;
                s = absorb s chunk
            in case dropWhile (\<lambda>c. \<not> is_eol c) p of
                 [] \<Rightarrow> (s, [])
               | c # rest \<Rightarrow>
                   (let (s, es) = end_line s c; (s, es') = eo_write_loop s rest in (s, es @ es')))))"
  by pat_completeness auto

termination
  by (relation "measure (\<lambda>(s, p). length p)") (auto dest: dropWhile_shorter)

declare eo_write_loop.simps [simp del]

definition eo_write :: "eventObserver \<Rightarrow> bytes \<Rightarrow> eventObserver \<times> bytes list" where
  "eo_write s p = (if eo_closed s then (s, []) else eo_write_loop s p)"

definition eo_finish :: "eventObserver \<Rightarrow> eventObserver \<times> bytes list" where
  "eo_finish s =
     (if eo_closed s then (s, [])
      else
        (let (s, es) = (if \<not> eo_skipLine s \<and> length (eo_line s) > 0
                        then consumeLine s (eo_line s) else (s, []));
             s = s\<lparr>eo_line := []\<rparr>;
             (s, es') = eo_flush s
         in (s\<lparr>eo_line := [], eo_data := []\<rparr>, es @ es')))"

definition eo_release :: "eventObserver \<Rightarrow> eventObserver" where
  "eo_release s = s\<lparr>eo_closed := True, eo_line := [], eo_data := []\<rparr>"

section \<open>One byte at a time\<close>

definition eo_byte :: "eventObserver \<Rightarrow> char \<Rightarrow> eventObserver \<times> bytes list" where
  "eo_byte s c =
     (if eo_skipLF s \<and> c = LF then (s\<lparr>eo_skipLF := False\<rparr>, [])
      else if is_eol c then end_line (s\<lparr>eo_skipLF := False\<rparr>) c
      else (absorb (s\<lparr>eo_skipLF := False\<rparr>) [c], []))"

primrec eo_bytes :: "eventObserver \<Rightarrow> bytes \<Rightarrow> eventObserver \<times> bytes list" where
  "eo_bytes s [] = (s, [])"
| "eo_bytes s (c # cs) =
     (let (s, es) = eo_byte s c; (s, es') = eo_bytes s cs in (s, es @ es'))"

definition eo_ok :: "eventObserver \<Rightarrow> bool" where
  "eo_ok s \<longleftrightarrow> length (eo_line s) \<le> maxEventBytes \<and> length (eo_data s) \<le> maxEventBytes"

lemma eo_bytes_append:
  "eo_bytes s (p @ q) =
     (let (s', es) = eo_bytes s p; (s'', es') = eo_bytes s' q in (s'', es @ es'))"
  by (induction p arbitrary: s) (simp_all add: case_prod_beta)

lemma absorb_Nil: "eo_ok s \<Longrightarrow> absorb s [] = s"
  by (simp add: absorb_def eo_ok_def)

lemma absorb_append: "eo_ok s \<Longrightarrow> absorb s (p @ q) = absorb (absorb s p) q"
  by (auto simp: absorb_def eo_ok_def)

lemma absorb_simps [simp]:
  "eo_skipLF (absorb s p) = eo_skipLF s" "eo_data (absorb s p) = eo_data s"
  "eo_closed (absorb s p) = eo_closed s"
  by (simp_all add: absorb_def)

lemma absorb_ok: "eo_ok s \<Longrightarrow> eo_ok (absorb s p)"
  by (auto simp: absorb_def eo_ok_def)

lemma skipLF_ok [simp]: "eo_ok (s\<lparr>eo_skipLF := b\<rparr>) = eo_ok s"
  by (simp add: eo_ok_def)

lemma skipLF_same: "\<not> eo_skipLF s \<Longrightarrow> s\<lparr>eo_skipLF := False\<rparr> = s"
  by (cases s) simp

lemma consumeLine_data:
  "eo_ok s \<Longrightarrow> length (eo_data (fst (consumeLine s l))) \<le> maxEventBytes"
  "eo_line (fst (consumeLine s l)) = eo_line s" "eo_skipLF (fst (consumeLine s l)) = eo_skipLF s"
  "eo_closed (fst (consumeLine s l)) = eo_closed s"
  by (auto simp: consumeLine_def eo_flush_def eo_ok_def Let_def)

lemma end_line_ok: "eo_ok s \<Longrightarrow> eo_ok (fst (end_line s c))"
  using consumeLine_data(1) [of s "eo_line s"]
  by (auto simp: end_line_def eo_ok_def case_prod_beta)

lemma end_line_simps [simp]:
  "eo_closed (fst (end_line s c)) = eo_closed s" "eo_line (fst (end_line s c)) = []"
  "eo_skipLine (fst (end_line s c)) = False" "eo_skipLF (fst (end_line s c)) = (c = CR)"
  by (simp_all add: end_line_def case_prod_beta consumeLine_data(4))

lemma eo_byte_ok: "eo_ok s \<Longrightarrow> eo_ok (fst (eo_byte s c))"
  by (simp add: eo_byte_def end_line_ok absorb_ok)

lemma eo_bytes_ok: "eo_ok s \<Longrightarrow> eo_ok (fst (eo_bytes s p))"
  by (induction p arbitrary: s) (simp_all add: case_prod_beta eo_byte_ok)

lemma eo_byte_closed [simp]: "eo_closed (fst (eo_byte s c)) = eo_closed s"
  by (simp add: eo_byte_def)

lemma eo_bytes_closed [simp]: "eo_closed (fst (eo_bytes s p)) = eo_closed s"
  by (induction p arbitrary: s) (simp_all add: case_prod_beta)

text \<open>A run of bytes without a line end is absorbed whole.\<close>

lemma eo_bytes_chunk:
  "eo_ok s \<Longrightarrow> \<not> eo_skipLF s \<Longrightarrow> \<forall>c \<in> set p. \<not> is_eol c \<Longrightarrow> eo_bytes s p = (absorb s p, [])"
proof (induction p arbitrary: s)
  case Nil
  then show ?case by (simp add: absorb_Nil)
next
  case (Cons c p)
  have "eo_byte s c = (absorb s [c], [])"
    using Cons.prems by (simp add: eo_byte_def skipLF_same)
  then show ?case
    using Cons.IH [OF absorb_ok [OF Cons.prems(1)], of "[c]"] Cons.prems
      absorb_append [OF Cons.prems(1), of "[c]" p] by simp
qed

text \<open>The code's loop, which works on the pieces between line ends, does the same.\<close>

lemma eo_write_loop_rest:
  "p \<noteq> [] \<Longrightarrow> \<not> (eo_skipLF s \<and> hd p = LF) \<Longrightarrow>
   eo_write_loop s p =
     (let s = absorb (s\<lparr>eo_skipLF := False\<rparr>) (takeWhile (\<lambda>c. \<not> is_eol c) p) in
      case dropWhile (\<lambda>c. \<not> is_eol c) p of
        [] \<Rightarrow> (s, [])
      | c # rest \<Rightarrow>
          (let (s, es) = end_line s c; (s, es') = eo_write_loop s rest in (s, es @ es')))"
  by (subst eo_write_loop.simps) (auto simp: Let_def)

lemma eo_write_loop_bytes: "eo_ok s \<Longrightarrow> eo_write_loop s p = eo_bytes s p"
proof (induction s p rule: eo_write_loop.induct)
  case (1 s p)
  let ?s = "s\<lparr>eo_skipLF := False\<rparr>"
  let ?chunk = "takeWhile (\<lambda>c. \<not> is_eol c) p" and ?rest = "dropWhile (\<lambda>c. \<not> is_eol c) p"
  have ok: "eo_ok ?s" using "1.prems" by simp
  show ?case
  proof (cases "p = []")
    case True
    then show ?thesis by (simp add: eo_write_loop.simps)
  next
    case False
    then obtain c0 p' where p: "p = c0 # p'" by (cases p) auto
    show ?thesis
    proof (cases "eo_skipLF s \<and> hd p = LF")
      case True
      have "eo_write_loop ?s (tl p) = eo_bytes ?s (tl p)"
        using "1.IH"(1) [OF False refl refl True ok] .
      then show ?thesis
        using True by (subst eo_write_loop.simps) (simp add: p eo_byte_def)
    next
      case noskip: False
      have chunk: "eo_bytes ?s ?chunk = (absorb ?s ?chunk, [])"
        by (rule eo_bytes_chunk [OF ok]) (auto dest: set_takeWhileD)
      have strip: "eo_bytes s p = eo_bytes ?s p"
        using noskip by (auto simp: p eo_byte_def)
      have split: "eo_bytes ?s p = eo_bytes (absorb ?s ?chunk) ?rest"
        using eo_bytes_append [of ?s ?chunk ?rest] chunk by (simp add: case_prod_beta)
      show ?thesis
      proof (cases ?rest)
        case Nil
        then show ?thesis
          unfolding eo_write_loop_rest [OF False noskip] strip split Let_def Nil by simp
      next
        case (Cons c rest)
        have eol: "is_eol c" using Cons by (metis dropWhile_eq_Cons_conv)
        let ?e = "end_line (absorb ?s ?chunk) c"
        have byte: "eo_byte (absorb ?s ?chunk) c = ?e"
          using eol by (simp add: eo_byte_def skipLF_same)
        have "eo_write_loop (fst ?e) rest = eo_bytes (fst ?e) rest"
          using "1.IH"(2) [OF False refl refl noskip refl refl Cons, of ?e "fst ?e" "snd ?e"]
            end_line_ok [OF absorb_ok [OF ok]] by simp
        then show ?thesis
          unfolding eo_write_loop_rest [OF False noskip] strip split Let_def Cons
          by (simp add: byte case_prod_beta)
      qed
    qed
  qed
qed

lemma eo_write_bytes: "eo_ok s \<Longrightarrow> \<not> eo_closed s \<Longrightarrow> eo_write s p = eo_bytes s p"
  by (simp add: eo_write_def eo_write_loop_bytes)

interpretation sse: incremental eo_write eo_ok
proof unfold_locales
  fix s p q assume ok: "eo_ok s"
  show "eo_write s [] = (s, [])" by (simp add: eo_write_def eo_write_loop.simps)
  show "eo_ok (fst (eo_write s p))"
    using ok by (simp add: eo_write_def eo_write_loop_bytes eo_bytes_ok)
  show "eo_write s (p @ q) =
      (let (s', es) = eo_write s p; (s'', es') = eo_write s' q in (s'', es @ es'))"
    using ok eo_bytes_ok [OF ok, of p]
    by (simp add: eo_write_def eo_write_loop_bytes eo_bytes_append case_prod_beta)
qed

section \<open>The whole text\<close>

text \<open>
  The reference reading of an event stream: lines end at LF, CR or CR LF; the \<^verbatim>\<open>data:\<close> lines
  before an empty line, one leading space removed, make an event; the text may end within one.
\<close>

fun unify_eol :: "bytes \<Rightarrow> bytes" where
  "unify_eol [] = []"
| "unify_eol [c] = [if c = CR then LF else c]"
| "unify_eol (c # d # cs) =
     (if c = CR then (if d = LF then LF # unify_eol cs else LF # unify_eol (d # cs))
      else c # unify_eol (d # cs))"

fun join_lines :: "bytes list \<Rightarrow> bytes" where
  "join_lines [] = []"
| "join_lines [x] = x"
| "join_lines (x # y # xs) = x @ [LF] @ join_lines (y # xs)"

fun sse_events :: "bytes list \<Rightarrow> bytes list \<Rightarrow> bytes list" where
  "sse_events acc [] = [join_lines acc]"
| "sse_events acc (l # ls) =
     (if l = [] then join_lines acc # sse_events [] ls
      else if prefix ''data:'' l then sse_events (acc @ [TrimPrefix (drop 5 l) '' '']) ls
      else sse_events acc ls)"

text \<open>The payloads that count: not empty and not the terminator.\<close>

definition sse_payloads :: "bytes \<Rightarrow> bytes list" where
  "sse_payloads text =
     filter (\<lambda>p. p \<noteq> [] \<and> p \<noteq> ''[DONE]'') (sse_events [] (split_at LF (unify_eol text)))"

section \<open>Lemmas: the observer reads what the reference reads\<close>

definition data_lines :: "bytes list \<Rightarrow> bytes" where
  "data_lines acc = concat (map (\<lambda>d. d @ [LF]) acc)"

lemma data_lines_join: "acc \<noteq> [] \<Longrightarrow> data_lines acc = join_lines acc @ [LF]"
  by (induction acc rule: join_lines.induct) (simp_all add: data_lines_def)

lemma payload_join: "TrimSuffix (data_lines acc) [LF] = join_lines acc"
proof (cases "acc = []")
  case True
  then show ?thesis by (simp add: data_lines_def TrimSuffix_def)
next
  case False
  then show ?thesis by (simp add: data_lines_join TrimSuffix_def)
qed

text \<open>\<open>reading s acc\<close>: the observer holds a partial line and the data lines \<open>acc\<close>, skipping nothing.\<close>

definition reading :: "eventObserver \<Rightarrow> bytes list \<Rightarrow> bool" where
  "reading s acc \<longleftrightarrow>
     \<not> eo_closed s \<and> \<not> eo_skipLine s \<and> \<not> eo_skipEvent s \<and> eo_data s = data_lines acc"

definition held :: "eventObserver \<Rightarrow> nat" where
  "held s = length (eo_line s) + length (eo_data s)"

lemma TrimPrefix_length: "length (TrimPrefix x y) \<le> length x"
  by (simp add: TrimPrefix_def)

text \<open>The end of a line is one step of the reference.\<close>

lemma consumeLine_reading:
  assumes "reading s acc" and "held s \<le> maxEventBytes" and "length (eo_line s) \<le> maxEventBytes"
  obtains s' es acc' evs where "consumeLine s (eo_line s) = (s', es)" and "reading s' acc'"
    and "eo_line s' = eo_line s" and "length (eo_data s') \<le> held s"
    and "\<And>ls. sse_events acc (eo_line s # ls) = evs @ sse_events acc' ls"
    and "filter (\<lambda>p. p \<noteq> [] \<and> p \<noteq> ''[DONE]'') evs = filter (\<lambda>p. p \<noteq> []) es"
proof (cases "eo_line s = []")
  case True
  show ?thesis
    by (rule that [of "s\<lparr>eo_data := [], eo_skipEvent := False\<rparr>"
          "if join_lines acc \<noteq> ''[DONE]'' then [join_lines acc] else []" "[]" "[join_lines acc]"])
      (use assms(1) True in \<open>auto simp: consumeLine_def eo_flush_def reading_def payload_join
        data_lines_def [of "[]"]\<close>)
next
  case line: False
  show ?thesis
  proof (cases "prefix ''data:'' (eo_line s)")
    case False
    show ?thesis
      by (rule that [of s "[]" acc "[]"])
        (use assms(1) line False in \<open>simp_all add: consumeLine_def HasPrefix_def held_def\<close>)
  next
    case True
    let ?p = "TrimPrefix (drop 5 (eo_line s)) '' ''"
    have "5 \<le> length (eo_line s)"
      using prefix_length_le [OF True] by simp
    then have len: "length ?p + 1 \<le> length (eo_line s)"
      using TrimPrefix_length [of "drop 5 (eo_line s)" "'' ''"] by simp
    then have fits: "length (eo_data s) + length ?p + 1 \<le> maxEventBytes"
      using assms(2) by (simp add: held_def)
    show ?thesis
      by (rule that [of "s\<lparr>eo_data := eo_data s @ ?p @ [LF]\<rparr>" "[]" "acc @ [?p]" "[]"])
        (use assms(1) line True len fits in \<open>simp_all add: consumeLine_def HasPrefix_def held_def
          reading_def data_lines_def\<close>)
  qed
qed

lemma reading_finish:
  assumes "reading s acc" and "held s \<le> maxEventBytes"
  shows "filter (\<lambda>p. p \<noteq> []) (snd (eo_finish s)) =
    filter (\<lambda>p. p \<noteq> [] \<and> p \<noteq> ''[DONE]'') (sse_events acc [eo_line s])"
proof (cases "eo_line s = []")
  case True
  then show ?thesis
    using assms(1)
    by (simp add: eo_finish_def eo_flush_def reading_def payload_join case_prod_beta Let_def)
next
  case False
  have "length (eo_line s) \<le> maxEventBytes" using assms(2) by (simp add: held_def)
  with assms obtain s' es acc' evs where c: "consumeLine s (eo_line s) = (s', es)"
    "reading s' acc'" "\<And>ls. sse_events acc (eo_line s # ls) = evs @ sse_events acc' ls"
    "filter (\<lambda>p. p \<noteq> [] \<and> p \<noteq> ''[DONE]'') evs = filter (\<lambda>p. p \<noteq> []) es"
    by (rule consumeLine_reading) (rule that)
  show ?thesis
    using assms(1) False c(2,3,4)
    by (simp add: eo_finish_def reading_def eo_flush_def c(1) payload_join Let_def)
qed

lemma unify_cons:
  "unify_eol (c # t) =
     (if c = CR then LF # unify_eol (if t \<noteq> [] \<and> hd t = LF then tl t else t)
      else c # unify_eol t)"
  by (cases t) auto

lemma split_unify_plain:
  "\<not> is_eol c \<Longrightarrow>
   split_at LF (unify_eol (c # t)) =
     (c # hd (split_at LF (unify_eol t))) # tl (split_at LF (unify_eol t))"
  by (auto simp: unify_cons is_eol_def split_at_nonempty split: list.splits)

lemma absorb_reading:
  "reading s acc \<Longrightarrow> held s < maxEventBytes \<Longrightarrow>
   absorb (s\<lparr>eo_skipLF := False\<rparr>) [c] = s\<lparr>eo_skipLF := False, eo_line := eo_line s @ [c]\<rparr>"
  by (simp add: absorb_def reading_def held_def)

lemma end_line_reading:
  assumes "reading s acc" and "held s \<le> maxEventBytes"
  obtains s' es acc' evs where "end_line s c = (s', es)" and "reading s' acc'"
    and "eo_line s' = []" and "held s' \<le> held s" and "eo_skipLF s' = (c = CR)"
    and "\<And>ls. sse_events acc (eo_line s # ls) = evs @ sse_events acc' ls"
    and "filter (\<lambda>p. p \<noteq> [] \<and> p \<noteq> ''[DONE]'') evs = filter (\<lambda>p. p \<noteq> []) es"
proof -
  have "length (eo_line s) \<le> maxEventBytes" using assms(2) by (simp add: held_def)
  with assms obtain s' es acc' evs where c: "consumeLine s (eo_line s) = (s', es)"
    "reading s' acc'" "eo_line s' = eo_line s" "length (eo_data s') \<le> held s"
    "\<And>ls. sse_events acc (eo_line s # ls) = evs @ sse_events acc' ls"
    "filter (\<lambda>p. p \<noteq> [] \<and> p \<noteq> ''[DONE]'') evs = filter (\<lambda>p. p \<noteq> []) es"
    by (rule consumeLine_reading) (rule that)
  let ?s = "s'\<lparr>eo_line := [], eo_skipLine := False, eo_skipLF := (c = CR)\<rparr>"
  have "end_line s c = (?s, es)"
    using assms(1) by (simp add: end_line_def c(1) reading_def)
  moreover have "reading ?s acc'" using c(2) by (simp add: reading_def)
  moreover have "held ?s \<le> held s" using c(4) by (simp add: held_def)
  ultimately show ?thesis using that c(5,6) by simp
qed

text \<open>The relation between what is left of the text and the lines the reference has left.\<close>

definition left_lines :: "eventObserver \<Rightarrow> bytes \<Rightarrow> bytes list" where
  "left_lines s t =
     (let ls = split_at LF (unify_eol t) in (eo_line s @ hd ls) # tl ls)"

lemma left_lines_Nil: "left_lines s [] = [eo_line s]"
  by (simp add: left_lines_def)

lemma left_lines_eol:
  assumes "is_eol c" and "t' = (if c = CR \<and> t \<noteq> [] \<and> hd t = LF then tl t else t)"
  shows "left_lines s (c # t) = eo_line s # split_at LF (unify_eol t')"
  using assms by (auto simp: left_lines_def unify_cons is_eol_def)

lemma eo_bytes_reading:
  assumes "reading s acc" and "held s + length t \<le> maxEventBytes"
  shows "filter (\<lambda>p. p \<noteq> []) (snd (eo_bytes s t) @ snd (eo_finish (fst (eo_bytes s t)))) =
    filter (\<lambda>p. p \<noteq> [] \<and> p \<noteq> ''[DONE]'')
      (sse_events acc (left_lines s (if eo_skipLF s \<and> t \<noteq> [] \<and> hd t = LF then tl t else t)))"
  using assms
proof (induction t arbitrary: s acc)
  case Nil
  then show ?case using reading_finish [of s acc] by (simp add: left_lines_Nil)
next
  case (Cons c t)
  let ?good = "\<lambda>p. p \<noteq> [] \<and> p \<noteq> ''[DONE]''"
  consider (swallow) "eo_skipLF s \<and> c = LF" | (eol) "\<not> (eo_skipLF s \<and> c = LF)" "is_eol c"
    | (plain) "\<not> (eo_skipLF s \<and> c = LF)" "\<not> is_eol c" by blast
  then show ?case
  proof cases
    case swallow
    have "reading (s\<lparr>eo_skipLF := False\<rparr>) acc"
      and "held (s\<lparr>eo_skipLF := False\<rparr>) + length t \<le> maxEventBytes"
      using Cons.prems by (simp_all add: reading_def held_def)
    from Cons.IH [OF this] show ?thesis
      using swallow by (simp add: eo_byte_def case_prod_beta left_lines_def)
  next
    case plain
    let ?s = "s\<lparr>eo_skipLF := False, eo_line := eo_line s @ [c]\<rparr>"
    have byte: "eo_byte s c = (?s, [])"
      using plain absorb_reading [OF Cons.prems(1), of c] Cons.prems(2) by (auto simp: eo_byte_def)
    have "reading ?s acc" and "held ?s + length t \<le> maxEventBytes"
      using Cons.prems by (simp_all add: reading_def held_def)
    note IH = Cons.IH [OF this]
    have "left_lines s (c # t) = left_lines ?s t"
      using split_unify_plain [OF plain(2), of t] by (simp add: left_lines_def Let_def)
    moreover have "(if eo_skipLF s \<and> c # t \<noteq> [] \<and> hd (c # t) = LF then tl (c # t) else c # t) = c # t"
      using plain(1) by auto
    ultimately show ?thesis
      using IH by (simp add: byte case_prod_beta del: sse_events.simps)
  next
    case eol
    have s': "reading (s\<lparr>eo_skipLF := False\<rparr>) acc" "held (s\<lparr>eo_skipLF := False\<rparr>) \<le> maxEventBytes"
      using Cons.prems by (simp_all add: reading_def held_def)
    obtain s1 es acc' evs where e: "end_line (s\<lparr>eo_skipLF := False\<rparr>) c = (s1, es)"
      "reading s1 acc'" "eo_line s1 = []" "held s1 \<le> held (s\<lparr>eo_skipLF := False\<rparr>)"
      "eo_skipLF s1 = (c = CR)"
      "\<And>ls. sse_events acc (eo_line (s\<lparr>eo_skipLF := False\<rparr>) # ls) = evs @ sse_events acc' ls"
      "filter ?good evs = filter (\<lambda>p. p \<noteq> []) es"
      by (rule end_line_reading [OF s', of c]) (rule that)
    have byte: "eo_byte s c = (s1, es)"
      using eol e(1) by (auto simp: eo_byte_def)
    have "held s1 + length t \<le> maxEventBytes"
      using e(4) Cons.prems(2) by (simp add: held_def)
    note IH = Cons.IH [OF e(2) this]
    let ?t = "if c = CR \<and> t \<noteq> [] \<and> hd t = LF then tl t else t"
    have left: "left_lines s (c # t) = eo_line s # left_lines s1 ?t"
      using left_lines_eol [OF eol(2) refl, of s t] e(3) split_at_nonempty [of LF "unify_eol ?t"]
      by (simp add: left_lines_def Let_def)
    have same: "(if eo_skipLF s \<and> c # t \<noteq> [] \<and> hd (c # t) = LF then tl (c # t) else c # t) = c # t"
      using eol(1) by auto
    have "sse_events acc (left_lines s (c # t)) = evs @ sse_events acc' (left_lines s1 ?t)"
      using e(6) [of "left_lines s1 ?t"] left by simp
    then show ?thesis
      using IH e(5,7) unfolding same by (simp add: byte case_prod_beta del: sse_events.simps)
  qed
qed

section \<open>What the observer promises\<close>

text \<open>A stream read in pieces.\<close>

primrec eo_feed :: "eventObserver \<Rightarrow> bytes list \<Rightarrow> eventObserver \<times> bytes list" where
  "eo_feed s [] = (s, [])"
| "eo_feed s (p # ps) =
     (let (s', es) = eo_write s p; (s'', es') = eo_feed s' ps in (s'', es @ es'))"

lemma eo_feed_sse: "eo_feed s ps = sse.feed_all s ps"
  by (induction ps arbitrary: s) simp_all

lemma eo_new_ok [simp]: "eo_ok new_eventObserver"
  by (simp add: eo_ok_def new_eventObserver_def)

lemma eo_payload_fits:
  assumes "eo_ok s"
  shows "list_all (\<lambda>e. length e \<le> maxEventBytes) (snd (eo_bytes s p))"
  using assms
proof (induction p arbitrary: s)
  case (Cons c p)
  have "length (TrimSuffix (eo_data s) [LF]) \<le> maxEventBytes"
    using Cons.prems by (auto simp: eo_ok_def TrimSuffix_def)
  then have "list_all (\<lambda>e. length e \<le> maxEventBytes) (snd (eo_byte s c))"
    by (auto simp: eo_byte_def end_line_def consumeLine_def eo_flush_def Let_def)
  then show ?case
    using Cons.IH [OF eo_byte_ok [OF Cons.prems]] by (simp add: case_prod_beta)
qed simp

lemma observer_payloads:
  assumes "length (concat ps) \<le> maxEventBytes"
  shows "filter (\<lambda>p. p \<noteq> [])
      (snd (eo_feed new_eventObserver ps) @ snd (eo_finish (fst (eo_feed new_eventObserver ps)))) =
    sse_payloads (concat ps)"
proof -
  have open_new: "\<not> eo_closed new_eventObserver" by (simp add: new_eventObserver_def)
  have "eo_feed new_eventObserver ps = eo_bytes new_eventObserver (concat ps)"
    using sse.feed_all_concat [of new_eventObserver ps] open_new
    by (simp add: eo_feed_sse eo_write_bytes)
  moreover have "reading new_eventObserver []"
    by (simp add: reading_def new_eventObserver_def data_lines_def)
  moreover have "left_lines new_eventObserver t = split_at LF (unify_eol t)" for t
    using split_at_nonempty [of LF "unify_eol t"]
    by (simp add: left_lines_def new_eventObserver_def)
  ultimately show ?thesis
    using eo_bytes_reading [of new_eventObserver "[]" "concat ps"] assms
    by (simp add: sse_payloads_def held_def) (simp add: new_eventObserver_def)
qed



text \<open>
  C22: the observer is bounded. Whatever the stream and however it is cut, the observer never holds
  more than its budget of a line or of an event, never reports a larger payload, and reports and
  ends the same for any two ways to cut the same stream, oversized lines and events included;
  once released it holds nothing and reports nothing.
\<close>
theorem observer_is_bounded:
  assumes "concat ps = concat qs"
  shows "eo_feed new_eventObserver ps = eo_feed new_eventObserver qs
    \<and> length (eo_line (fst (eo_feed new_eventObserver ps))) \<le> maxEventBytes
    \<and> length (eo_data (fst (eo_feed new_eventObserver ps))) \<le> maxEventBytes
    \<and> list_all (\<lambda>e. length e \<le> maxEventBytes) (snd (eo_feed new_eventObserver ps))
    \<and> eo_feed (eo_release (fst (eo_feed new_eventObserver ps))) rs =
        (eo_release (fst (eo_feed new_eventObserver ps)), [])"
proof -
  have open_new: "\<not> eo_closed new_eventObserver" by (simp add: new_eventObserver_def)
  have feed: "eo_feed new_eventObserver ps = eo_bytes new_eventObserver (concat ps)"
    using sse.feed_all_concat [of new_eventObserver ps] open_new
    by (simp add: eo_feed_sse eo_write_bytes)
  have "eo_feed (eo_release s) rs = (eo_release s, [])" for s
    by (induction rs) (simp_all add: eo_write_def eo_release_def)
  then show ?thesis
    using sse.feed_all_cong [OF eo_new_ok assms] eo_bytes_ok [of new_eventObserver "concat ps"]
      eo_payload_fits [of new_eventObserver "concat ps"] feed
    by (simp add: eo_feed_sse [symmetric] eo_ok_def) (simp add: new_eventObserver_def)
qed

lemma observer_is_bounded_witness:
  "eo_feed new_eventObserver [''data: a'' @ [CR], [LF, LF]] =
   eo_feed new_eventObserver [''data:'', '' a'' @ [CR, LF, LF]]"
  using observer_is_bounded [of "[''data: a'' @ [CR], [LF, LF]]" "[''data:'', '' a'' @ [CR, LF, LF]]"]
  by simp

end
