(* ===== verification/Trace.thy ===== *)
theory Trace
  imports Sse Outcome
begin

text \<open>
  The request trace of \<^verbatim>\<open>sdkgo/requesttrace\<close>: \<^verbatim>\<open>trace.go\<close>, the transport of \<^verbatim>\<open>http.go\<close> and the
  WebSocket wrapper of \<^verbatim>\<open>websocket.go\<close>.

  A capture, its exchanges, their buffers and their observers are shared by pointers, and
  goroutines reach them through their locks. The state is a store: lists of exchanges, buffers and
  observers, a pointer being an index. Every operation that holds a lock from start to end is one
  function. Go's copies of byte slices and headers are values here.
\<close>

section \<open>State\<close>

definition maxRequests :: nat where "maxRequests = 8"

record Exchange =
  ex_request :: OutboundRequestDiagnostic
  ex_sent :: "nat option"
  ex_response :: "nat option"
  ex_event :: bytes
  ex_events :: "nat option"
  ex_closed :: bool

text \<open>
  \<open>cp_exchanges\<close> and \<open>cp_closed\<close> are the fields of \<^verbatim>\<open>Capture\<close>, the rest is the store. An observer
  carries the pointer to its exchange.
\<close>

record Capture =
  cp_exchanges :: "nat list"
  cp_closed :: bool
  hp_exs :: "Exchange list"
  hp_bufs :: "bodyBuffer list"
  hp_obs :: "(eventObserver \<times> nat) list"

definition new_Capture :: Capture where
  "new_Capture = \<lparr>cp_exchanges = [], cp_closed = False, hp_exs = [], hp_bufs = [], hp_obs = []\<rparr>"

definition zero_request :: OutboundRequestDiagnostic where
  "zero_request =
     \<lparr>rd_Transport = [], rd_Method = [], rd_URL = [], rd_Headers = [], rd_Body = [],
      rd_StatusCode = 0, rd_BodyOriginalSize = 0\<rparr>"

definition update_ex :: "nat \<Rightarrow> (Exchange \<Rightarrow> Exchange) \<Rightarrow> Capture \<Rightarrow> Capture" where
  "update_ex i f s = s\<lparr>hp_exs := (hp_exs s)[i := f (hp_exs s ! i)]\<rparr>"

definition update_buf :: "nat \<Rightarrow> (bodyBuffer \<Rightarrow> bodyBuffer) \<Rightarrow> Capture \<Rightarrow> Capture" where
  "update_buf j f s = s\<lparr>hp_bufs := (hp_bufs s)[j := f (hp_bufs s ! j)]\<rparr>"

definition update_obs :: "nat \<Rightarrow> (eventObserver \<Rightarrow> eventObserver) \<Rightarrow> Capture \<Rightarrow> Capture" where
  "update_obs j f s =
     s\<lparr>hp_obs := (hp_obs s)[j := (f (fst (hp_obs s ! j)), snd (hp_obs s ! j))]\<rparr>"

section \<open>Exchanges\<close>

definition on_ptr :: "(nat \<Rightarrow> Capture \<Rightarrow> Capture) \<Rightarrow> nat option \<Rightarrow> Capture \<Rightarrow> Capture" where
  "on_ptr f p s = (case p of None \<Rightarrow> s | Some j \<Rightarrow> f j s)"

definition release_exchange :: "nat \<Rightarrow> Capture \<Rightarrow> Capture" where
  "release_exchange i s =
     (let e = hp_exs s ! i;
          s = update_ex i (\<lambda>e. e\<lparr>ex_closed := True, ex_request := zero_request, ex_sent := None,
                ex_response := None, ex_events := None, ex_event := []\<rparr>) s;
          s = on_ptr (\<lambda>j. update_buf j bb_release) (ex_sent e) s;
          s = on_ptr (\<lambda>j. update_buf j bb_release) (ex_response e) s
      in on_ptr (\<lambda>j. update_obs j eo_release) (ex_events e) s)"

definition go_max :: "go_int \<Rightarrow> go_int \<Rightarrow> go_int" where
  "go_max a b = (if sint a < sint b then b else a)"

definition clip_request :: "OutboundRequestDiagnostic \<Rightarrow> OutboundRequestDiagnostic" where
  "clip_request r =
     (if length (rd_Body r) > maxBodyBytes
      then r\<lparr>rd_BodyOriginalSize := go_max (rd_BodyOriginalSize r) (word_of_nat (length (rd_Body r))),
             rd_Body := []\<rparr>
      else r)"

text \<open>
  From the second lock of \<^verbatim>\<open>record\<close> on. The buffer of a request without a replay reader is
  allocated here: it is the caller's own until the exchange is published.
\<close>

definition publish ::
  "OutboundRequestDiagnostic \<Rightarrow> bool \<Rightarrow> Capture \<Rightarrow> nat option \<times> Capture" where
  "publish request withSent s =
     (let j = length (hp_bufs s);
          s = (if withSent then s\<lparr>hp_bufs := hp_bufs s @ [new_bodyBuffer]\<rparr> else s);
          i = length (hp_exs s);
          s = s\<lparr>hp_exs := hp_exs s @ [\<lparr>ex_request = request,
                 ex_sent = (if withSent then Some j else None), ex_response = None, ex_event = [],
                 ex_events = None, ex_closed = False\<rparr>]\<rparr>
      in
      if cp_closed s then (None, release_exchange i s)
      else if length (cp_exchanges s) < maxRequests
      then (Some i, s\<lparr>cp_exchanges := cp_exchanges s @ [i]\<rparr>)
      else
        (let evicted = cp_exchanges s ! 1;
             s = s\<lparr>cp_exchanges := take 1 (cp_exchanges s) @ drop 2 (cp_exchanges s) @ [i]\<rparr>
         in (Some i, release_exchange evicted s)))"

definition record_exchange ::
  "OutboundRequestDiagnostic \<Rightarrow> bool \<Rightarrow> Capture \<Rightarrow> nat option \<times> Capture" where
  "record_exchange request withSent s =
     (if cp_closed s then (None, s) else publish (clip_request request) withSent s)"

text \<open>The methods of an exchange; the nil exchange of a disabled trace does nothing.\<close>

definition SetStatus :: "nat \<Rightarrow> go_int \<Rightarrow> Capture \<Rightarrow> Capture" where
  "SetStatus i status s =
     (if ex_closed (hp_exs s ! i) then s
      else update_ex i (\<lambda>e. e\<lparr>ex_request := ex_request e\<lparr>rd_StatusCode := status\<rparr>\<rparr>) s)"

definition ObserveEvent :: "nat \<Rightarrow> bytes \<Rightarrow> Capture \<Rightarrow> Capture" where
  "ObserveEvent i data s =
     (if length data = 0 then s
      else if length data > maxEventBytes then s
      else if ex_closed (hp_exs s ! i) then s
      else update_ex i (\<lambda>e. e\<lparr>ex_event := data\<rparr>) s)"

section \<open>Bodies\<close>

text \<open>
  What a wrapped body feeds. \<open>media_type\<close> is the first result of \<^verbatim>\<open>mime.ParseMediaType\<close>.
\<close>

datatype observedBody = Plain | ToBuffer nat | ToObserver nat bool

record http_response =
  hs_StatusCode :: go_int
  hs_Header :: header
  hs_hasBody :: bool

definition WrapResponse ::
  "(string \<Rightarrow> string) \<Rightarrow> nat \<Rightarrow> http_response \<Rightarrow> Capture \<Rightarrow> observedBody \<times> Capture" where
  "WrapResponse media_type i resp s =
     (let s = SetStatus i (hs_StatusCode resp) s in
      if \<not> hs_hasBody resp then (Plain, s)
      else if ex_closed (hp_exs s ! i) then (Plain, s)
      else if EqualFold (media_type (HeaderGet (hs_Header resp) ''Content-Type''))
                ''text/event-stream''
      then
        (let j = length (hp_obs s)
         in (ToObserver j False,
             update_ex i (\<lambda>e. e\<lparr>ex_events := Some j\<rparr>)
               (s\<lparr>hp_obs := hp_obs s @ [(new_eventObserver, i)]\<rparr>)))
      else
        (let j = length (hp_bufs s)
         in (ToBuffer j,
             update_ex i (\<lambda>e. e\<lparr>ex_response := Some j\<rparr>)
               (s\<lparr>hp_bufs := hp_bufs s @ [new_bodyBuffer]\<rparr>))))"

text \<open>An observer runs and its exchange takes the payloads it reports.\<close>

definition run_observer ::
  "nat \<Rightarrow> (eventObserver \<Rightarrow> eventObserver \<times> bytes list) \<Rightarrow> Capture \<Rightarrow> Capture" where
  "run_observer j f s =
     (let (o', es) = f (fst (hp_obs s ! j))
      in fold (ObserveEvent (snd (hp_obs s ! j))) es (update_obs j (\<lambda>_. o') s))"

text \<open>\<^verbatim>\<open>observedBody.Read\<close>, on what the wrapped body returned.\<close>

definition body_Read ::
  "observedBody \<Rightarrow> bytes \<Rightarrow> go_error option \<Rightarrow> Capture \<Rightarrow> observedBody \<times> Capture" where
  "body_Read b data err s =
     (case b of
        Plain \<Rightarrow> (b, s)
      | ToBuffer j \<Rightarrow> (b, if length data > 0 then update_buf j (\<lambda>b. bb_write b data) s else s)
      | ToObserver j finished \<Rightarrow>
          (let s = (if length data > 0 then run_observer j (\<lambda>o'. eo_write o' data) s else s)
           in if err \<noteq> None \<and> \<not> finished
              then (ToObserver j True, run_observer j eo_finish s)
              else (b, s)))"

section \<open>The transport\<close>

text \<open>
  A request: \<open>rq_GetBody\<close> is what reading the independent reader yields, its content and the
  error it ends with (\<open>EOF\<close> for a complete one), \<open>None\<close> when there is no \<^verbatim>\<open>GetBody\<close> or it fails.
\<close>

record http_request =
  rq_Method :: string
  rq_URL :: string
  rq_Header :: header
  rq_hasBody :: bool
  rq_ContentLength :: go_int
  rq_GetBody :: "(bytes \<times> go_error) option"

text \<open>\<^verbatim>\<open>io.ReadAll(io.LimitReader(r, n))\<close> on a reader with the given content and end.\<close>

definition read_limited :: "nat \<Rightarrow> bytes \<times> go_error \<Rightarrow> bytes \<times> go_error option" where
  "read_limited n r =
     (if n \<le> length (fst r) then (take n (fst r), None)
      else (fst r, if snd r = EOF then None else Some (snd r)))"

definition readRequestSnapshot :: "bytes \<times> go_error \<Rightarrow> go_int \<Rightarrow> bytes \<times> go_error option" where
  "readRequestSnapshot r n =
     (if sint n \<le> 0 \<or> sint n > int maxBodyBytes then read_limited (maxBodyBytes + 1) r
      else
        (let room = nat (sint n) + 1 in
         if length (fst r) < room
         then (if snd r = EOF then (fst r, None) else ([], Some (snd r)))
         else if room > maxBodyBytes then (take room (fst r), None)
         else read_limited (maxBodyBytes + 1) r))"

definition trace_request :: "http_request \<Rightarrow> OutboundRequestDiagnostic \<times> bool" where
  "trace_request req =
     (let d = \<lparr>rd_Transport = ''http'', rd_Method = rq_Method req, rd_URL = rq_URL req,
               rd_Headers = rq_Header req, rd_Body = [], rd_StatusCode = 0,
               rd_BodyOriginalSize = 0\<rparr>;
          (d, replayable) =
            (case (if rq_hasBody req then rq_GetBody req else None) of
               None \<Rightarrow> (d, False)
             | Some r \<Rightarrow>
                 (let (body, err) = readRequestSnapshot r (rq_ContentLength req);
                      d = d\<lparr>rd_Body := body,
                            rd_BodyOriginalSize :=
                              go_max (rq_ContentLength req) (word_of_nat (length body))\<rparr>
                  in (if err \<noteq> None then d\<lparr>rd_Body := []\<rparr> else d, err = None)))
      in if rq_hasBody req
         then (d\<lparr>rd_BodyOriginalSize := go_max (rd_BodyOriginalSize d) (rq_ContentLength req)\<rparr>,
               \<not> replayable)
         else (d, False))"

text \<open>
  The traced round trip before the base transport runs: the exchange and the buffer that sees
  the request body as it is sent.
\<close>

definition RoundTrip_start :: "http_request \<Rightarrow> Capture \<Rightarrow> nat option \<times> observedBody \<times> Capture" where
  "RoundTrip_start req s =
     (let (d, withSent) = trace_request req; (e, s) = record_exchange d withSent s in
      case e of
        None \<Rightarrow> (None, Plain, s)
      | Some i \<Rightarrow>
          (Some i, case ex_sent (hp_exs s ! i) of None \<Rightarrow> Plain | Some j \<Rightarrow> ToBuffer j, s))"

text \<open>And after it, when it returned a response.\<close>

definition RoundTrip_end ::
  "(string \<Rightarrow> string) \<Rightarrow> nat option \<Rightarrow> http_response option \<Rightarrow> Capture
     \<Rightarrow> observedBody \<times> Capture" where
  "RoundTrip_end media_type e resp s =
     (case (e, resp) of (Some i, Some r) \<Rightarrow> WrapResponse media_type i r s | _ \<Rightarrow> (Plain, s))"

section \<open>Publishing\<close>

text \<open>One exchange of the snapshot: its request and what is left of the budget.\<close>

definition snapshot_request ::
  "Capture \<Rightarrow> nat \<Rightarrow> Exchange \<Rightarrow> OutboundRequestDiagnostic \<times> nat" where
  "snapshot_request s remaining e =
     (let req = ex_request e;
          originalSize = go_max (rd_BodyOriginalSize req) (word_of_nat (length (rd_Body req)));
          (body, originalSize) =
            (case ex_sent e of
               None \<Rightarrow> (rd_Body req, originalSize)
             | Some j \<Rightarrow>
                 (let (body, sentSize) = bb_snapshot (hp_bufs s ! j)
                  in (body, go_max originalSize sentSize)));
          req = req\<lparr>rd_Body := [], rd_BodyOriginalSize := originalSize\<rparr>
      in if sint originalSize \<le> int (length body) \<and> length body \<le> remaining
         then (req\<lparr>rd_Body := body\<rparr>, remaining - length body)
         else (req, remaining))"

definition snapshot_error :: "Capture \<Rightarrow> nat \<Rightarrow> Exchange \<Rightarrow> bytes \<times> nat" where
  "snapshot_error s remaining e =
     (let raw = (case ex_response e of
                   None \<Rightarrow> ex_event e
                 | Some j \<Rightarrow>
                     (let (raw, n) = bb_snapshot (hp_bufs s ! j)
                      in if sint n > int (length raw) then [] else raw))
      in if length raw \<le> remaining then (raw, remaining - length raw) else ([], remaining))"

text \<open>From the last exchange to the first.\<close>

fun snapshot_loop :: "Capture \<Rightarrow> nat \<Rightarrow> nat list \<Rightarrow> OutboundRequestDiagnostic list" where
  "snapshot_loop s remaining [] = []"
| "snapshot_loop s remaining (i # is) =
     (let (req, remaining) = snapshot_request s remaining (hp_exs s ! i)
      in snapshot_loop s remaining is @ [req])"

definition Snapshot :: "Capture \<Rightarrow> FinalErrorDiagnostic option" where
  "Snapshot s =
     (case rev (cp_exchanges s) of
        [] \<Rightarrow> None
      | i # is \<Rightarrow>
          (let (req, remaining) = snapshot_request s maxBodyBytes (hp_exs s ! i);
               (raw, remaining) = snapshot_error s remaining (hp_exs s ! i)
           in Some \<lparr>OutboundRequests = snapshot_loop s remaining is @ [req],
                    UpstreamErrorBody = raw\<rparr>))"

definition release_capture :: "Capture \<Rightarrow> Capture" where
  "release_capture s =
     fold release_exchange (cp_exchanges s) (s\<lparr>cp_exchanges := [], cp_closed := True\<rparr>)"

definition Finish ::
  "ForwardOutcome option \<Rightarrow> go_error option \<Rightarrow> Capture \<Rightarrow> ForwardOutcome option \<times> Capture" where
  "Finish outcome err s =
     ((case outcome of
         None \<Rightarrow> None
       | Some oc \<Rightarrow>
           if err = None \<and> Kind oc = OutcomeSuccess then Some oc
           else Some (oc\<lparr>FinalErrorDiagnostic := Snapshot s\<rparr>)),
      release_capture s)"

section \<open>The traced WebSocket\<close>

text \<open>
  The wrapper of a connection, whose context is traced or not; \<open>tw_exchange\<close> is the exchange of
  the last message written. \<open>envelope_type\<close> is the \<^verbatim>\<open>Type\<close> that package json finds in a message,
  \<open>None\<close> when it is not such an object. What the connection itself returns is passed through.
\<close>

record trace_ws =
  tw_traced :: bool
  tw_url :: string
  tw_headers :: header
  tw_exchange :: "nat option"

definition ws_WriteMessage ::
  "(bytes \<Rightarrow> string option) \<Rightarrow> trace_ws \<Rightarrow> go_int \<Rightarrow> bytes \<Rightarrow> Capture \<Rightarrow> trace_ws \<times> Capture" where
  "ws_WriteMessage envelope_type c kind data s =
     (if \<not> tw_traced c then (c, s)
      else if kind = 1 \<or> kind = 2
      then
        (let httpMethod = (case envelope_type data of
                             Some ty \<Rightarrow> if ty \<noteq> [] then ty else ''message''
                           | None \<Rightarrow> ''message'');
             headers = HeaderSet ''Content-Type'' ''application/json'' (tw_headers c);
             (e, s) = record_exchange
               \<lparr>rd_Transport = ''websocket'', rd_Method = httpMethod, rd_URL = tw_url c,
                rd_Headers = headers, rd_Body = data, rd_StatusCode = 101,
                rd_BodyOriginalSize = 0\<rparr> False s
         in (c\<lparr>tw_exchange := e\<rparr>, s))
      else (c, s))"

text \<open>\<open>json\<close> is the value's encoding, \<open>None\<close> when it cannot be encoded: nothing is sent then.\<close>

definition ws_WriteJSON ::
  "(bytes \<Rightarrow> string option) \<Rightarrow> trace_ws \<Rightarrow> bytes option \<Rightarrow> Capture \<Rightarrow> trace_ws \<times> Capture" where
  "ws_WriteJSON envelope_type c json s =
     (if \<not> tw_traced c then (c, s)
      else case json of
        None \<Rightarrow> (c, s)
      | Some raw \<Rightarrow> ws_WriteMessage envelope_type c 1 (raw @ [LF]) s)"

definition ws_ReadMessage :: "trace_ws \<Rightarrow> bytes \<Rightarrow> Capture \<Rightarrow> Capture" where
  "ws_ReadMessage c data s =
     (if length data \<noteq> 0 \<and> tw_traced c
      then (case tw_exchange c of None \<Rightarrow> s | Some e \<Rightarrow> ObserveEvent e data s) else s)"

section \<open>The steps\<close>

text \<open>
  Everything that can happen to a capture. \<open>publish\<close> needs no earlier check of the capture, as
  the code copies the request between the two; a response is wrapped once per exchange, by the
  transport; an exchange may be used after its capture has finished.
\<close>

definition body_valid :: "observedBody \<Rightarrow> Capture \<Rightarrow> bool" where
  "body_valid b s =
     (case b of Plain \<Rightarrow> True | ToBuffer j \<Rightarrow> j < length (hp_bufs s)
      | ToObserver j f \<Rightarrow> j < length (hp_obs s))"

inductive trace_step :: "Capture \<Rightarrow> Capture \<Rightarrow> bool" where
  Publish: "trace_step s (snd (publish (clip_request request) withSent s))"
| Status: "i < length (hp_exs s) \<Longrightarrow> trace_step s (SetStatus i status s)"
| Observe: "i < length (hp_exs s) \<Longrightarrow> trace_step s (ObserveEvent i data s)"
| Wrap:
    "i < length (hp_exs s) \<Longrightarrow> ex_response (hp_exs s ! i) = None \<Longrightarrow>
     ex_events (hp_exs s ! i) = None \<Longrightarrow> trace_step s (snd (WrapResponse media i resp s))"
| Read: "body_valid b s \<Longrightarrow> trace_step s (snd (body_Read b data err s))"
| Release: "trace_step s (release_capture s)"

inductive trace_reaches :: "Capture \<Rightarrow> Capture \<Rightarrow> bool" where
  None_yet: "trace_reaches s s"
| One_more: "trace_reaches s t \<Longrightarrow> trace_step t u \<Longrightarrow> trace_reaches s u"

inductive_cases trace_stepE: "trace_step s t"

section \<open>The invariant\<close>

definition blank_exchange :: "Exchange \<Rightarrow> bool" where
  "blank_exchange e \<longleftrightarrow>
     ex_closed e \<and> ex_request e = zero_request \<and> ex_sent e = None \<and> ex_response e = None \<and>
     ex_events e = None \<and> ex_event e = []"

definition blank_buffer :: "bodyBuffer \<Rightarrow> bool" where
  "blank_buffer b \<longleftrightarrow> bb_closed b \<and> bb_data b = []"

definition blank_observer :: "eventObserver \<Rightarrow> bool" where
  "blank_observer b \<longleftrightarrow> eo_closed b \<and> eo_line b = [] \<and> eo_data b = []"

text \<open>What one exchange may hold and point to.\<close>

definition exchange_ok :: "Capture \<Rightarrow> Exchange \<Rightarrow> bool" where
  "exchange_ok s e \<longleftrightarrow>
     (ex_closed e \<longrightarrow> blank_exchange e) \<and>
     length (rd_Body (ex_request e)) \<le> maxBodyBytes \<and> length (ex_event e) \<le> maxEventBytes \<and>
     pred_option (\<lambda>j. j < length (hp_bufs s)) (ex_sent e) \<and>
     pred_option (\<lambda>j. j < length (hp_bufs s)) (ex_response e) \<and>
     pred_option (\<lambda>j. j < length (hp_obs s)) (ex_events e)"

definition owns_buffer :: "nat \<Rightarrow> Exchange \<Rightarrow> bool" where
  "owns_buffer j e \<longleftrightarrow> ex_sent e = Some j \<or> ex_response e = Some j"

definition store_ok :: "Capture \<Rightarrow> bool" where
  "store_ok s \<longleftrightarrow>
     (\<forall>e \<in> set (hp_exs s). exchange_ok s e) \<and>
     (\<forall>j < length (hp_bufs s).
        bb_fits (hp_bufs s ! j) \<and>
        (blank_buffer (hp_bufs s ! j) \<or> (\<exists>e \<in> set (hp_exs s). owns_buffer j e))) \<and>
     (\<forall>j < length (hp_obs s).
        eo_ok (fst (hp_obs s ! j)) \<and> snd (hp_obs s ! j) < length (hp_exs s) \<and>
        (blank_observer (fst (hp_obs s ! j)) \<or> (\<exists>e \<in> set (hp_exs s). ex_events e = Some j)))"

definition capture_ok :: "Capture \<Rightarrow> bool" where
  "capture_ok s \<longleftrightarrow>
     store_ok s \<and> length (cp_exchanges s) \<le> maxRequests \<and> distinct (cp_exchanges s) \<and>
     (\<forall>i \<in> set (cp_exchanges s). i < length (hp_exs s)) \<and>
     (cp_closed s \<longrightarrow> cp_exchanges s = []) \<and>
     (\<forall>i < length (hp_exs s). i \<notin> set (cp_exchanges s) \<longrightarrow> ex_closed (hp_exs s ! i))"

section \<open>Lemmas: releasing\<close>

lemma blank_release [simp]: "blank_buffer (bb_release b)" "blank_observer (eo_release o')"
  by (simp_all add: blank_buffer_def blank_observer_def bb_release_def eo_release_def)

lemma bb_release_idem [simp]: "bb_release (bb_release b) = bb_release b"
  by (simp add: bb_release_def)

definition blank :: Exchange where
  "blank = \<lparr>ex_request = zero_request, ex_sent = None, ex_response = None, ex_event = [],
     ex_events = None, ex_closed = True\<rparr>"

lemma blank_ok [simp]: "blank_exchange blank" "exchange_ok s blank" "\<not> owns_buffer j blank"
  "ex_events blank = None" "ex_closed blank"
  by (simp_all add: blank_exchange_def blank_def exchange_ok_def owns_buffer_def zero_request_def)

lemma blank_eq: "ex_closed e \<Longrightarrow> exchange_ok s e \<Longrightarrow> e = blank"
  by (cases e) (simp add: exchange_ok_def blank_exchange_def blank_def)

lemma blanked:
  "e\<lparr>ex_closed := True, ex_request := zero_request, ex_sent := None, ex_response := None,
     ex_events := None, ex_event := []\<rparr> = blank"
  by (cases e) (simp add: blank_def)

lemma release_exchange_fields [simp]:
  "cp_exchanges (release_exchange i s) = cp_exchanges s"
  "cp_closed (release_exchange i s) = cp_closed s"
  "hp_exs (release_exchange i s) = (hp_exs s)[i := blank]"
  "length (hp_bufs (release_exchange i s)) = length (hp_bufs s)"
  "length (hp_obs (release_exchange i s)) = length (hp_obs s)"
  by (simp_all add: release_exchange_def Let_def on_ptr_def update_ex_def update_buf_def
      update_obs_def blanked split: option.splits)

lemma nth_updated: "j < length xs \<Longrightarrow> xs[i := x] ! j = (if i = j then x else xs ! j)"
  by (cases "i = j") simp_all

lemma release_exchange_bufs:
  "j < length (hp_bufs s) \<Longrightarrow>
   hp_bufs (release_exchange i s) ! j =
     (if owns_buffer j (hp_exs s ! i) then bb_release (hp_bufs s ! j) else hp_bufs s ! j)"
  by (auto simp: release_exchange_def Let_def on_ptr_def update_ex_def update_buf_def
      update_obs_def owns_buffer_def nth_updated split: option.splits)

lemma release_exchange_obs:
  "j < length (hp_obs s) \<Longrightarrow>
   hp_obs (release_exchange i s) ! j =
     (if ex_events (hp_exs s ! i) = Some j then (eo_release (fst (hp_obs s ! j)), snd (hp_obs s ! j))
      else hp_obs s ! j)"
  by (auto simp: release_exchange_def Let_def on_ptr_def update_ex_def update_buf_def
      update_obs_def nth_updated split: option.splits)

lemma exchange_ok_cong:
  "length (hp_bufs s) \<le> length (hp_bufs s') \<Longrightarrow> length (hp_obs s) \<le> length (hp_obs s') \<Longrightarrow>
   exchange_ok s e \<Longrightarrow> exchange_ok s' e"
  by (auto simp: exchange_ok_def elim!: option.pred_mono_strong)

lemma in_updated:
  "e \<in> set xs \<Longrightarrow> i < length xs \<Longrightarrow> e = xs ! i \<or> e \<in> set (xs[i := x])"
  by (metis in_set_conv_nth length_list_update nth_list_update_neq)

lemma release_exchange_ok:
  assumes "store_ok s" and "i < length (hp_exs s)"
  shows "store_ok (release_exchange i s)"
  unfolding store_ok_def
proof (intro conjI allI impI ballI)
  let ?s = "release_exchange i s"
  fix e assume "e \<in> set (hp_exs ?s)"
  then have "e = blank \<or> e \<in> set (hp_exs s)"
    using set_update_subset_insert by fastforce
  then show "exchange_ok ?s e"
    using assms(1) exchange_ok_cong [of s ?s e] by (auto simp: store_ok_def)
next
  let ?s = "release_exchange i s"
  fix j assume "j < length (hp_bufs ?s)"
  then have j: "j < length (hp_bufs s)" by simp
  have old: "bb_fits (hp_bufs s ! j)"
    "blank_buffer (hp_bufs s ! j) \<or> (\<exists>e \<in> set (hp_exs s). owns_buffer j e)"
    using assms(1) j by (simp_all add: store_ok_def)
  show "bb_fits (hp_bufs ?s ! j)"
    using old(1) by (simp add: release_exchange_bufs [OF j])
  show "blank_buffer (hp_bufs ?s ! j) \<or> (\<exists>e \<in> set (hp_exs ?s). owns_buffer j e)"
    using old(2) in_updated [OF _ assms(2), of _ blank]
    by (auto simp: release_exchange_bufs [OF j])
next
  let ?s = "release_exchange i s"
  fix j assume "j < length (hp_obs ?s)"
  then have j: "j < length (hp_obs s)" by simp
  have old: "eo_ok (fst (hp_obs s ! j))" "snd (hp_obs s ! j) < length (hp_exs s)"
    "blank_observer (fst (hp_obs s ! j)) \<or> (\<exists>e \<in> set (hp_exs s). ex_events e = Some j)"
    using assms(1) j by (simp_all add: store_ok_def)
  show "eo_ok (fst (hp_obs ?s ! j))"
    using old(1) by (simp add: release_exchange_obs [OF j] eo_ok_def eo_release_def)
  show "snd (hp_obs ?s ! j) < length (hp_exs ?s)"
    using old(2) by (simp add: release_exchange_obs [OF j])
  show "blank_observer (fst (hp_obs ?s ! j)) \<or> (\<exists>e \<in> set (hp_exs ?s). ex_events e = Some j)"
    using old(3) in_updated [OF _ assms(2), of _ blank]
    by (auto simp: release_exchange_obs [OF j])
qed

lemma release_all_ok:
  "store_ok s \<Longrightarrow> \<forall>i \<in> set is. i < length (hp_exs s) \<Longrightarrow>
   store_ok (fold release_exchange is s) \<and>
   cp_exchanges (fold release_exchange is s) = cp_exchanges s \<and>
   cp_closed (fold release_exchange is s) = cp_closed s \<and>
   length (hp_exs (fold release_exchange is s)) = length (hp_exs s) \<and>
   (\<forall>k < length (hp_exs s).
      ex_closed (hp_exs s ! k) \<or> k \<in> set is \<longrightarrow> ex_closed (hp_exs (fold release_exchange is s) ! k))"
proof (induction "is" arbitrary: s)
  case (Cons i "is")
  have "store_ok (release_exchange i s)"
    using release_exchange_ok Cons.prems by simp
  from Cons.IH [OF this] Cons.prems(2) show ?case
    by (auto simp: nth_list_update)
qed simp

section \<open>Lemmas: the other steps\<close>

text \<open>Steps that neither open nor close an exchange nor touch the list of the capture.\<close>

definition same_frame :: "Capture \<Rightarrow> Capture \<Rightarrow> bool" where
  "same_frame s s' \<longleftrightarrow>
     cp_exchanges s' = cp_exchanges s \<and> cp_closed s' = cp_closed s \<and>
     length (hp_exs s') = length (hp_exs s) \<and>
     (\<forall>i < length (hp_exs s). ex_closed (hp_exs s' ! i) = ex_closed (hp_exs s ! i))"

lemma same_frame_refl [simp]: "same_frame s s"
  by (simp add: same_frame_def)

lemma same_frame_trans: "same_frame s t \<Longrightarrow> same_frame t u \<Longrightarrow> same_frame s u"
  by (simp add: same_frame_def)

lemma capture_ok_frame: "capture_ok s \<Longrightarrow> same_frame s s' \<Longrightarrow> store_ok s' \<Longrightarrow> capture_ok s'"
  by (auto simp: capture_ok_def same_frame_def)

lemma capture_ok_store: "capture_ok s \<Longrightarrow> store_ok s"
  by (simp add: capture_ok_def)

lemma store_ok_exchange:
  "store_ok s \<Longrightarrow> i < length (hp_exs s) \<Longrightarrow> exchange_ok s (hp_exs s ! i)"
  by (simp add: store_ok_def)

lemma updated_owner:
  assumes "\<exists>e \<in> set xs. P e" and "i < length xs" and "P (xs ! i) \<Longrightarrow> P x"
  shows "\<exists>e \<in> set (xs[i := x]). P e"
proof -
  obtain k where k: "k < length xs" "P (xs ! k)"
    using assms(1) by (auto simp: in_set_conv_nth)
  then have "P (xs[i := x] ! k)"
    using assms(3) by (auto simp: nth_updated)
  then show ?thesis
    using k(1) by (metis length_list_update nth_mem)
qed

lemma update_ex_ok:
  assumes "store_ok s" and "i < length (hp_exs s)"
    and "exchange_ok s (f (hp_exs s ! i))"
    and "ex_sent (f (hp_exs s ! i)) = ex_sent (hp_exs s ! i)"
    and "ex_response (f (hp_exs s ! i)) = ex_response (hp_exs s ! i)"
    and "ex_events (f (hp_exs s ! i)) = ex_events (hp_exs s ! i)"
  shows "store_ok (update_ex i f s)"
proof -
  let ?xs = "(hp_exs s)[i := f (hp_exs s ! i)]"
  have new: "f (hp_exs s ! i) \<in> set ?xs" using assms(2) by (simp add: set_update_memI)
  have own: "(\<exists>e \<in> set ?xs. owns_buffer j e)" if "\<exists>e \<in> set (hp_exs s). owns_buffer j e" for j
    using that assms(2) by (rule updated_owner) (simp add: owns_buffer_def assms(4,5))
  have obs: "(\<exists>e \<in> set ?xs. ex_events e = Some j)" if "\<exists>e \<in> set (hp_exs s). ex_events e = Some j" for j
    using that assms(2) by (rule updated_owner) (simp add: assms(6))
  have ex: "\<forall>e \<in> set ?xs. exchange_ok (update_ex i f s) e"
    using assms(1,3) set_update_subset_insert [of "hp_exs s" i "f (hp_exs s ! i)"]
    by (auto simp: store_ok_def update_ex_def exchange_ok_def)
  have "\<forall>j < length (hp_bufs s). bb_fits (hp_bufs s ! j) \<and>
      (blank_buffer (hp_bufs s ! j) \<or> (\<exists>e \<in> set ?xs. owns_buffer j e))"
    using assms(1) own unfolding store_ok_def by blast
  moreover have "\<forall>j < length (hp_obs s). eo_ok (fst (hp_obs s ! j)) \<and>
      snd (hp_obs s ! j) < length (hp_exs s) \<and>
      (blank_observer (fst (hp_obs s ! j)) \<or> (\<exists>e \<in> set ?xs. ex_events e = Some j))"
    using assms(1) obs unfolding store_ok_def by blast
  ultimately show ?thesis
    using ex by (simp add: store_ok_def update_ex_def)
qed

lemma SetStatus_ok:
  assumes "store_ok s" and "i < length (hp_exs s)"
  shows "store_ok (SetStatus i status s)" and "same_frame s (SetStatus i status s)"
proof -
  have "exchange_ok s (hp_exs s ! i)" using store_ok_exchange [OF assms] .
  then show "store_ok (SetStatus i status s)"
    using update_ex_ok [OF assms] assms(1) by (simp add: SetStatus_def exchange_ok_def)
  show "same_frame s (SetStatus i status s)"
    by (auto simp: SetStatus_def same_frame_def update_ex_def nth_updated)
qed

lemma ObserveEvent_ok:
  assumes "store_ok s" and "i < length (hp_exs s)"
  shows "store_ok (ObserveEvent i data s)" and "same_frame s (ObserveEvent i data s)"
proof -
  have "exchange_ok s (hp_exs s ! i)" using store_ok_exchange [OF assms] .
  then show "store_ok (ObserveEvent i data s)"
    using update_ex_ok [OF assms] assms(1) by (simp add: ObserveEvent_def exchange_ok_def)
  show "same_frame s (ObserveEvent i data s)"
    by (auto simp: ObserveEvent_def same_frame_def update_ex_def nth_updated)
qed

lemma observe_all_ok:
  "store_ok s \<Longrightarrow> i < length (hp_exs s) \<Longrightarrow>
   store_ok (fold (ObserveEvent i) es s) \<and> same_frame s (fold (ObserveEvent i) es s)"
proof (induction es arbitrary: s)
  case (Cons e es)
  note one = ObserveEvent_ok [OF Cons.prems, of e]
  have "i < length (hp_exs (ObserveEvent i e s))"
    using one(2) Cons.prems(2) by (simp add: same_frame_def)
  then show ?case
    using Cons.IH [OF one(1)] same_frame_trans [OF one(2)] by simp
qed simp

lemma update_buf_ok:
  assumes "store_ok s" and "j < length (hp_bufs s)"
    and "bb_fits (f (hp_bufs s ! j))" and "blank_buffer (hp_bufs s ! j) \<Longrightarrow> blank_buffer (f (hp_bufs s ! j))"
  shows "store_ok (update_buf j f s)" and "same_frame s (update_buf j f s)"
proof -
  show "same_frame s (update_buf j f s)" by (simp add: same_frame_def update_buf_def)
  show "store_ok (update_buf j f s)"
    using assms by (auto simp: store_ok_def update_buf_def exchange_ok_def nth_updated)
qed

lemma update_obs_ok:
  assumes "store_ok s" and "j < length (hp_obs s)" and "eo_ok (f (fst (hp_obs s ! j)))"
    and "blank_observer (fst (hp_obs s ! j)) \<Longrightarrow> blank_observer (f (fst (hp_obs s ! j)))"
  shows "store_ok (update_obs j f s)" and "same_frame s (update_obs j f s)"
proof -
  show "same_frame s (update_obs j f s)" by (simp add: same_frame_def update_obs_def)
  show "store_ok (update_obs j f s)"
    using assms by (auto simp: store_ok_def update_obs_def exchange_ok_def nth_updated)
qed

lemma run_observer_ok:
  assumes "store_ok s" and "j < length (hp_obs s)"
    and "\<And>o'. eo_ok o' \<Longrightarrow> eo_ok (fst (f o'))"
    and "\<And>o'. eo_closed o' \<Longrightarrow> f o' = (o', [])"
  shows "store_ok (run_observer j f s)" and "same_frame s (run_observer j f s)"
proof -
  let ?o = "fst (hp_obs s ! j)" and ?i = "snd (hp_obs s ! j)"
  have o': "eo_ok ?o" and i: "?i < length (hp_exs s)"
    using assms(1,2) by (simp_all add: store_ok_def)
  let ?s = "update_obs j (\<lambda>_. fst (f ?o)) s"
  have "store_ok ?s" and "same_frame s ?s"
    using update_obs_ok [OF assms(1,2), of "\<lambda>_. fst (f ?o)"] assms(3) [OF o'] assms(4) [of ?o]
    by (auto simp: blank_observer_def)
  moreover have "?i < length (hp_exs ?s)" using i by (simp add: update_obs_def)
  ultimately show "store_ok (run_observer j f s)" and "same_frame s (run_observer j f s)"
    using observe_all_ok [of ?s ?i "snd (f ?o)"] same_frame_trans
    by (auto simp: run_observer_def case_prod_beta)
qed

lemma run_observer_length [simp]: "length (hp_obs (run_observer j f s)) = length (hp_obs s)"
proof -
  have "hp_obs (fold (ObserveEvent i) es t) = hp_obs t" for i es t
    by (induction es arbitrary: t) (simp_all add: ObserveEvent_def update_ex_def)
  then show ?thesis by (simp add: run_observer_def case_prod_beta update_obs_def)
qed

lemma eo_finish_ok: "eo_ok o' \<Longrightarrow> eo_ok (fst (eo_finish o'))"
  by (simp add: eo_finish_def eo_ok_def Let_def case_prod_beta eo_flush_def)

lemma body_Read_ok:
  assumes "store_ok s" and "body_valid b s"
  shows "store_ok (snd (body_Read b data err s)) \<and> same_frame s (snd (body_Read b data err s))"
proof (cases b)
  case Plain
  then show ?thesis using assms(1) by (simp add: body_Read_def)
next
  case (ToBuffer j)
  then have "store_ok (update_buf j (\<lambda>b. bb_write b data) s)"
    and "same_frame s (update_buf j (\<lambda>b. bb_write b data) s)"
    using assms update_buf_ok [OF assms(1), of j "\<lambda>b. bb_write b data"]
    by (auto simp: body_valid_def store_ok_def bb_fits_write blank_buffer_def bb_write_data)
  then show ?thesis using assms(1) by (simp add: body_Read_def ToBuffer)
next
  case (ToObserver j fin)
  have j: "j < length (hp_obs s)" using assms(2) by (simp add: body_valid_def ToObserver)
  define s1 where "s1 = (if length data > 0 then run_observer j (\<lambda>o'. eo_write o' data) s else s)"
  have s1: "store_ok s1" "same_frame s s1" "j < length (hp_obs s1)"
    using run_observer_ok [OF assms(1) j, of "\<lambda>o'. eo_write o' data"] sse.feed_ok assms(1) j
    by (auto simp: s1_def eo_write_def)
  have "store_ok (run_observer j eo_finish s1)" and "same_frame s1 (run_observer j eo_finish s1)"
    using run_observer_ok [OF s1(1,3), of eo_finish] eo_finish_ok by (auto simp: eo_finish_def)
  moreover have "snd (body_Read b data err s) =
      (if err \<noteq> None \<and> \<not> fin then run_observer j eo_finish s1 else s1)"
    by (simp add: body_Read_def ToObserver s1_def Let_def)
  ultimately show ?thesis
    using s1(1,2) same_frame_trans by (metis (full_types))
qed

text \<open>A new cell at the end of the store, taken by an exchange that was without.\<close>

lemma attach_buffer_ok:
  assumes "store_ok s" and "i < length (hp_exs s)" and "\<not> ex_closed (hp_exs s ! i)"
    and "ex_response (hp_exs s ! i) = None"
  shows "store_ok (update_ex i (\<lambda>e. e\<lparr>ex_response := Some (length (hp_bufs s))\<rparr>)
      (s\<lparr>hp_bufs := hp_bufs s @ [new_bodyBuffer]\<rparr>))" (is "store_ok ?t")
proof -
  let ?e = "(hp_exs s ! i)\<lparr>ex_response := Some (length (hp_bufs s))\<rparr>"
  have exs: "hp_exs ?t = (hp_exs s)[i := ?e]" and bufs: "hp_bufs ?t = hp_bufs s @ [new_bodyBuffer]"
    and obs: "hp_obs ?t = hp_obs s" by (simp_all add: update_ex_def)
  have new: "?e \<in> set (hp_exs ?t)" using assms(2) by (simp add: exs set_update_memI)
  have "exchange_ok ?t ?e"
    using store_ok_exchange [OF assms(1,2)] assms(3) exchange_ok_cong [of s ?t]
    by (auto simp: exchange_ok_def update_ex_def elim: option.pred_mono_strong)
  then have "\<forall>e \<in> set (hp_exs ?t). exchange_ok ?t e"
    using assms(1) set_update_subset_insert [of "hp_exs s" i ?e] exchange_ok_cong [of s ?t]
    by (fastforce simp: store_ok_def exs bufs obs)
  moreover have own: "\<exists>e \<in> set (hp_exs ?t). owns_buffer j e"
    if "\<exists>e \<in> set (hp_exs s). owns_buffer j e" for j
    unfolding exs using that assms(2)
    by (rule updated_owner) (use assms(4) in \<open>simp add: owns_buffer_def\<close>)
  moreover have "\<exists>e \<in> set (hp_exs ?t). ex_events e = Some j"
    if "\<exists>e \<in> set (hp_exs s). ex_events e = Some j" for j
    unfolding exs using that assms(2) by (rule updated_owner) simp
  moreover have "bb_fits (hp_bufs ?t ! j) \<and>
      (blank_buffer (hp_bufs ?t ! j) \<or> (\<exists>e \<in> set (hp_exs ?t). owns_buffer j e))"
    if j: "j < length (hp_bufs ?t)" for j
  proof (cases "j = length (hp_bufs s)")
    case True
    then show ?thesis using new by (force simp: owns_buffer_def bufs)
  next
    case False
    then have "j < length (hp_bufs s)" and "hp_bufs ?t ! j = hp_bufs s ! j"
      using j by (simp_all add: bufs nth_append)
    then show ?thesis using assms(1) own [of j] unfolding store_ok_def by metis
  qed
  ultimately show ?thesis
    using assms(1) unfolding store_ok_def obs exs length_list_update by blast
qed

lemma attach_observer_ok:
  assumes "store_ok s" and "i < length (hp_exs s)" and "\<not> ex_closed (hp_exs s ! i)"
    and "ex_events (hp_exs s ! i) = None"
  shows "store_ok (update_ex i (\<lambda>e. e\<lparr>ex_events := Some (length (hp_obs s))\<rparr>)
      (s\<lparr>hp_obs := hp_obs s @ [(new_eventObserver, i)]\<rparr>))" (is "store_ok ?t")
proof -
  let ?e = "(hp_exs s ! i)\<lparr>ex_events := Some (length (hp_obs s))\<rparr>"
  have exs: "hp_exs ?t = (hp_exs s)[i := ?e]" and bufs: "hp_bufs ?t = hp_bufs s"
    and obs: "hp_obs ?t = hp_obs s @ [(new_eventObserver, i)]" by (simp_all add: update_ex_def)
  have new: "?e \<in> set (hp_exs ?t)" using assms(2) by (simp add: exs set_update_memI)
  have "exchange_ok ?t ?e"
    using store_ok_exchange [OF assms(1,2)] assms(3) exchange_ok_cong [of s ?t]
    by (auto simp: exchange_ok_def update_ex_def elim: option.pred_mono_strong)
  then have "\<forall>e \<in> set (hp_exs ?t). exchange_ok ?t e"
    using assms(1) set_update_subset_insert [of "hp_exs s" i ?e] exchange_ok_cong [of s ?t]
    by (fastforce simp: store_ok_def exs bufs obs)
  moreover have "\<exists>e \<in> set (hp_exs ?t). owns_buffer j e"
    if "\<exists>e \<in> set (hp_exs s). owns_buffer j e" for j
    unfolding exs using that assms(2) by (rule updated_owner) (simp add: owns_buffer_def)
  moreover have own: "\<exists>e \<in> set (hp_exs ?t). ex_events e = Some j"
    if "\<exists>e \<in> set (hp_exs s). ex_events e = Some j" for j
    unfolding exs using that assms(2) by (rule updated_owner) (simp add: assms(4))
  moreover have "eo_ok (fst (hp_obs ?t ! j)) \<and> snd (hp_obs ?t ! j) < length (hp_exs ?t) \<and>
      (blank_observer (fst (hp_obs ?t ! j)) \<or> (\<exists>e \<in> set (hp_exs ?t). ex_events e = Some j))"
    if j: "j < length (hp_obs ?t)" for j
  proof (cases "j = length (hp_obs s)")
    case True
    then show ?thesis using new assms(2) by (force simp: obs exs)
  next
    case False
    then have "j < length (hp_obs s)" and "hp_obs ?t ! j = hp_obs s ! j"
      and "length (hp_exs ?t) = length (hp_exs s)"
      using j by (simp_all add: obs exs nth_append)
    then show ?thesis using assms(1) own [of j] unfolding store_ok_def by metis
  qed
  ultimately show ?thesis
    using assms(1) unfolding store_ok_def bufs by blast
qed

lemma WrapResponse_ok:
  assumes "store_ok s" and "i < length (hp_exs s)"
    and "ex_response (hp_exs s ! i) = None" and "ex_events (hp_exs s ! i) = None"
  shows "store_ok (snd (WrapResponse media i resp s)) \<and>
    same_frame s (snd (WrapResponse media i resp s))"
proof -
  let ?s = "SetStatus i (hs_StatusCode resp) s"
  have s: "store_ok ?s" "same_frame s ?s" using SetStatus_ok [OF assms(1,2)] by auto
  have i: "i < length (hp_exs ?s)" using s(2) assms(2) by (simp add: same_frame_def)
  have p: "ex_response (hp_exs ?s ! i) = None" "ex_events (hp_exs ?s ! i) = None"
    using assms by (auto simp: SetStatus_def update_ex_def)
  show ?thesis
  proof (cases "\<not> hs_hasBody resp \<or> ex_closed (hp_exs ?s ! i)")
    case True
    then show ?thesis using s by (auto simp: WrapResponse_def Let_def)
  next
    case False
    then have "\<not> ex_closed (hp_exs ?s ! i)" by simp
    note ok = attach_buffer_ok [OF s(1) i this p(1)] attach_observer_ok [OF s(1) i this p(2)]
    have fr: "same_frame ?s (update_ex i (\<lambda>e. e\<lparr>ex_response := Some j\<rparr>) (?s\<lparr>hp_bufs := b\<rparr>))"
      "same_frame ?s (update_ex i (\<lambda>e. e\<lparr>ex_events := Some j\<rparr>) (?s\<lparr>hp_obs := b'\<rparr>))" for j b b'
      by (auto simp: same_frame_def update_ex_def nth_updated)
    show ?thesis
      using False ok same_frame_trans [OF s(2) fr(1)] same_frame_trans [OF s(2) fr(2)]
      by (simp add: WrapResponse_def Let_def)
  qed
qed

text \<open>A new exchange, with its buffer when it has one.\<close>

lemma new_exchange_ok:
  assumes "store_ok s" and "length (rd_Body request) \<le> maxBodyBytes"
    and "t = (if withSent then s\<lparr>hp_bufs := hp_bufs s @ [new_bodyBuffer]\<rparr> else s)
       \<lparr>hp_exs := hp_exs s @ [\<lparr>ex_request = request,
          ex_sent = (if withSent then Some (length (hp_bufs s)) else None), ex_response = None,
          ex_event = [], ex_events = None, ex_closed = False\<rparr>]\<rparr>"
  shows "store_ok t"
proof -
  have "\<forall>e \<in> set (hp_exs s). exchange_ok t e"
    using assms(1,3) exchange_ok_cong [of s t] by (auto simp: store_ok_def)
  then show ?thesis
    using assms
    by (auto simp: store_ok_def exchange_ok_def owns_buffer_def nth_append less_Suc_eq
        split: if_splits)
qed

lemma clip_request_fits: "length (rd_Body (clip_request r)) \<le> maxBodyBytes"
  by (simp add: clip_request_def)

lemma publish_ok:
  assumes "capture_ok s" and "length (rd_Body request) \<le> maxBodyBytes"
  shows "capture_ok (snd (publish request withSent s))"
proof -
  define t where "t = (if withSent then s\<lparr>hp_bufs := hp_bufs s @ [new_bodyBuffer]\<rparr> else s)
       \<lparr>hp_exs := hp_exs s @ [\<lparr>ex_request = request,
          ex_sent = (if withSent then Some (length (hp_bufs s)) else None), ex_response = None,
          ex_event = [], ex_events = None, ex_closed = False\<rparr>]\<rparr>"
  let ?i = "length (hp_exs s)" and ?xs = "cp_exchanges s"
  have t: "store_ok t" using new_exchange_ok [OF _ assms(2) t_def] assms(1)
    by (simp add: capture_ok_def)
  have fields: "cp_exchanges t = ?xs" "cp_closed t = cp_closed s" "length (hp_exs t) = Suc ?i"
    "\<And>k. k < ?i \<Longrightarrow> hp_exs t ! k = hp_exs s ! k"
    by (simp_all add: t_def nth_append)
  have s: "length ?xs \<le> maxRequests" "distinct ?xs" "\<forall>k \<in> set ?xs. k < ?i"
    "cp_closed s \<longrightarrow> ?xs = []" "\<forall>k < ?i. k \<notin> set ?xs \<longrightarrow> ex_closed (hp_exs s ! k)"
    using assms(1) by (simp_all add: capture_ok_def)
  have pub: "snd (publish request withSent s) =
      (if cp_closed t then release_exchange ?i t
       else if length ?xs < maxRequests then t\<lparr>cp_exchanges := ?xs @ [?i]\<rparr>
       else release_exchange (?xs ! 1) (t\<lparr>cp_exchanges := take 1 ?xs @ drop 2 ?xs @ [?i]\<rparr>))"
    by (simp add: publish_def Let_def t_def)
  have cp: "store_ok (t\<lparr>cp_exchanges := ys\<rparr>)" for ys
    using t by (simp add: store_ok_def exchange_ok_def)
  consider (closed) "cp_closed t" | (room) "\<not> cp_closed t" "length ?xs < maxRequests"
    | (full) "\<not> cp_closed t" "length ?xs = maxRequests" using s(1) by linarith
  then show ?thesis
  proof cases
    case closed
    then show ?thesis
      using release_exchange_ok [OF t, of ?i] s fields
      by (auto simp: pub capture_ok_def nth_list_update less_Suc_eq)
  next
    case room
    then show ?thesis
      using cp s fields by (auto simp: pub capture_ok_def less_Suc_eq)
  next
    case full
    have len: "1 < length ?xs" using full(2) by (simp add: maxRequests_def)
    let ?v = "?xs ! 1" and ?ys = "take 1 ?xs @ drop 2 ?xs @ [?i]"
    have split: "?xs = take 1 ?xs @ ?v # drop 2 ?xs"
      using len by (metis Suc_1 One_nat_def id_take_nth_drop)
    have v: "?v < Suc ?i" using s(3) len by (meson less_SucI nth_mem)
    have dist: "distinct (take 1 ?xs @ ?v # drop 2 ?xs)" using s(2) split by simp
    have set: "set ?xs = insert ?v (set (take 1 ?xs @ drop 2 ?xs))"
      by (subst split) auto
    have "set (take 1 ?xs @ drop 2 ?xs) \<subseteq> set ?xs" using set by blast
    then have "distinct ?ys" and "\<forall>k \<in> set ?ys. k < Suc ?i"
      using dist s(3) by (auto simp: subset_iff less_SucI simp del: take_Suc)
    moreover have "ex_closed ((hp_exs t)[?v := blank] ! k)"
      if "k < Suc ?i" and "k \<notin> set ?ys" for k
      using that s(5) fields set v by (auto simp: nth_list_update less_Suc_eq)
    moreover have "length ?ys = length ?xs" using len by simp
    ultimately show ?thesis
      using release_exchange_ok [OF cp, of ?v ?ys] full v fields
      by (simp add: pub capture_ok_def)
  qed
qed

lemma release_capture_ok:
  assumes "capture_ok s"
  shows "capture_ok (release_capture s)" and "cp_closed (release_capture s)"
proof -
  let ?s = "s\<lparr>cp_exchanges := [], cp_closed := True\<rparr>"
  have "store_ok ?s" using assms by (simp add: capture_ok_def store_ok_def exchange_ok_def)
  moreover have "\<forall>i \<in> set (cp_exchanges s). i < length (hp_exs ?s)"
    using assms by (simp add: capture_ok_def)
  ultimately have r: "store_ok (release_capture s)" "cp_exchanges (release_capture s) = []"
    "cp_closed (release_capture s)" "length (hp_exs (release_capture s)) = length (hp_exs s)"
    "\<forall>k < length (hp_exs s). ex_closed (hp_exs s ! k) \<or> k \<in> set (cp_exchanges s) \<longrightarrow>
       ex_closed (hp_exs (release_capture s) ! k)"
    using release_all_ok [of ?s "cp_exchanges s"] by (simp_all add: release_capture_def)
  then show "cp_closed (release_capture s)" by simp
  show "capture_ok (release_capture s)"
    using r assms by (auto simp: capture_ok_def maxRequests_def)
qed

lemma trace_step_ok: "trace_step s t \<Longrightarrow> capture_ok s \<Longrightarrow> capture_ok t"
proof (induction rule: trace_step.induct)
  case (Publish s request withSent)
  then show ?case using publish_ok clip_request_fits by blast
next
  case (Status i s status)
  then show ?case
    by (blast intro: capture_ok_frame dest: capture_ok_store SetStatus_ok [where status = status])
next
  case (Observe i s data)
  then show ?case
    by (blast intro: capture_ok_frame dest: capture_ok_store ObserveEvent_ok [where data = data])
next
  case (Wrap i s media resp)
  then show ?case
    by (blast intro: capture_ok_frame
        dest: capture_ok_store WrapResponse_ok [where media = media and resp = resp])
next
  case (Read b s data err)
  then show ?case
    by (blast intro: capture_ok_frame
        dest: capture_ok_store body_Read_ok [where data = data and err = err])
next
  case (Release s)
  then show ?case using release_capture_ok by blast
qed

lemma new_Capture_ok: "capture_ok new_Capture"
  by (simp add: capture_ok_def store_ok_def new_Capture_def)

lemma trace_reaches_ok: "trace_reaches s t \<Longrightarrow> capture_ok s \<Longrightarrow> capture_ok t"
  by (induction rule: trace_reaches.induct) (auto intro: trace_step_ok)

section \<open>What the trace promises\<close>

lemma publish_closed: "cp_closed (snd (publish r b s)) = cp_closed s"
  by (simp add: publish_def Let_def)

lemma trace_step_closed:
  "trace_step s t \<Longrightarrow> capture_ok s \<Longrightarrow> cp_closed s \<Longrightarrow> cp_closed t"
proof (induction rule: trace_step.induct)
  case (Publish s request withSent)
  then show ?case by (simp add: publish_closed)
next
  case (Status i s status)
  then show ?case
    using SetStatus_ok(2) [of s i status] by (simp add: capture_ok_store same_frame_def)
next
  case (Observe i s data)
  then show ?case
    using ObserveEvent_ok(2) [of s i data] by (simp add: capture_ok_store same_frame_def)
next
  case (Wrap i s media resp)
  then show ?case
    using WrapResponse_ok [of s i media resp] by (simp add: capture_ok_store same_frame_def)
next
  case (Read b s data err)
  then show ?case
    using body_Read_ok [of s b data err] by (simp add: capture_ok_store same_frame_def)
next
  case (Release s)
  then show ?case using release_capture_ok by blast
qed

lemma trace_reaches_closed:
  "trace_reaches s t \<Longrightarrow> capture_ok s \<Longrightarrow> cp_closed s \<Longrightarrow> cp_closed t"
  by (induction rule: trace_reaches.induct) (auto intro: trace_step_closed trace_reaches_ok)

lemma blank_when_closed:
  assumes "capture_ok s" and "cp_closed s"
  shows "list_all blank_exchange (hp_exs s) \<and> list_all blank_buffer (hp_bufs s) \<and>
    list_all (\<lambda>(b, _). blank_observer b) (hp_obs s)"
proof -
  have "\<forall>i < length (hp_exs s). ex_closed (hp_exs s ! i)"
    using assms by (simp add: capture_ok_def)
  then have all: "\<forall>e \<in> set (hp_exs s). e = blank"
    using assms(1) blank_eq by (metis capture_ok_store in_set_conv_nth store_ok_def)
  then have none: "\<not> (\<exists>e \<in> set (hp_exs s). owns_buffer j e)"
    "\<not> (\<exists>e \<in> set (hp_exs s). ex_events e = Some j)" for j
    by auto
  have "list_all blank_buffer (hp_bufs s)" and "list_all (\<lambda>(b, _). blank_observer b) (hp_obs s)"
    using capture_ok_store [OF assms(1)] none
    unfolding store_ok_def list_all_length case_prod_beta by blast+
  moreover have "list_all blank_exchange (hp_exs s)"
    using all by (auto simp: list_all_iff)
  ultimately show ?thesis by blast
qed

definition held_bytes :: "Exchange \<Rightarrow> nat" where
  "held_bytes e = length (rd_Body (ex_request e)) + length (ex_event e)"


text \<open>A request recorded before the release, and one after it.\<close>

definition example_trace :: Capture where
  "example_trace =
     snd (body_Read (ToBuffer 0) ''body'' None
       (snd (publish (clip_request (zero_request\<lparr>rd_Method := ''POST''\<rparr>)) True new_Capture)))"

lemma example_trace_reached: "trace_reaches new_Capture example_trace"
proof -
  have "trace_reaches new_Capture
      (snd (publish (clip_request (zero_request\<lparr>rd_Method := ''POST''\<rparr>)) True new_Capture))"
    by (rule trace_reaches.One_more [OF trace_reaches.None_yet trace_step.Publish])
  then show ?thesis
    unfolding example_trace_def
    by (rule trace_reaches.One_more)
      (rule trace_step.Read, simp add: body_valid_def publish_def new_Capture_def Let_def
        maxRequests_def)
qed


section \<open>Which exchanges are kept\<close>

definition record_all :: "(OutboundRequestDiagnostic \<times> bool) list \<Rightarrow> Capture \<Rightarrow> Capture" where
  "record_all rs s = fold (\<lambda>(r, b) s. snd (record_exchange r b s)) rs s"

text \<open>The pointers kept after \<open>n\<close> requests: the first and the last seven.\<close>

definition kept :: "nat \<Rightarrow> nat list" where
  "kept n = (if n \<le> maxRequests then [0..<n] else 0 # [n - (maxRequests - 1)..<n])"

lemma kept_Suc:
  "kept (Suc n) = (if length (kept n) < maxRequests then kept n @ [n]
                   else take 1 (kept n) @ drop 2 (kept n) @ [n])"
proof -
  consider "n < 8" | "n = 8" | "8 < n" by linarith
  then show ?thesis
  proof cases
    case 2
    then show ?thesis by (simp add: kept_def maxRequests_def upt_rec)
  next
    case 3
    then have "[n - 7..<n] = (n - 7) # [Suc n - 7..<n]"
      by (simp add: upt_conv_Cons Suc_diff_le)
    then show ?thesis using 3 by (simp add: kept_def maxRequests_def)
  qed (simp add: kept_def maxRequests_def)
qed

lemma record_exchange_kept:
  assumes "\<not> cp_closed s" and "cp_exchanges s = kept (length (hp_exs s))"
  shows "cp_exchanges (snd (record_exchange r b s)) = kept (Suc (length (hp_exs s))) \<and>
    length (hp_exs (snd (record_exchange r b s))) = Suc (length (hp_exs s)) \<and>
    \<not> cp_closed (snd (record_exchange r b s)) \<and>
    ex_request (hp_exs (snd (record_exchange r b s)) ! length (hp_exs s)) = clip_request r \<and>
    (\<forall>i < length (hp_exs s). i \<in> set (kept (Suc (length (hp_exs s)))) \<longrightarrow>
       ex_request (hp_exs (snd (record_exchange r b s)) ! i) = ex_request (hp_exs s ! i))"
proof -
  have "kept (length (hp_exs s)) ! Suc 0 \<notin> set (kept (Suc (length (hp_exs s))))"
    if "length (kept (length (hp_exs s))) \<ge> maxRequests"
    using that by (auto simp: kept_def maxRequests_def nth_Cons split: if_splits)
  moreover have "kept (length (hp_exs s)) ! Suc 0 < length (hp_exs s)"
    if "length (kept (length (hp_exs s))) \<ge> maxRequests"
    using that by (auto simp: kept_def maxRequests_def split: if_splits)
  ultimately show ?thesis
    using assms kept_Suc [of "length (hp_exs s)"]
    by (auto simp: record_exchange_def publish_def Let_def nth_append nth_updated)
qed

lemma record_all_kept:
  assumes "s = record_all rs new_Capture"
  shows "cp_exchanges s = kept (length rs) \<and> length (hp_exs s) = length rs \<and> \<not> cp_closed s \<and>
    (\<forall>i \<in> set (kept (length rs)). ex_request (hp_exs s ! i) = clip_request (fst (rs ! i)))"
  using assms
proof (induction rs arbitrary: s rule: rev_induct)
  case Nil
  then show ?case by (simp add: record_all_def new_Capture_def kept_def)
next
  case (snoc x rs)
  obtain r b where x: "x = (r, b)" by fastforce
  define t where "t = record_all rs new_Capture"
  have s: "s = snd (record_exchange r b t)"
    using snoc.prems by (simp add: record_all_def t_def x)
  note IH = snoc.IH [OF t_def]
  have len: "length (hp_exs t) = length rs" using IH by simp
  note R = record_exchange_kept [of t r b, unfolded len]
  have "\<not> cp_closed t" "cp_exchanges t = kept (length rs)" using IH by auto
  note R = R [OF this]
  have "ex_request (hp_exs s ! i) = clip_request (fst ((rs @ [x]) ! i))"
    if i: "i \<in> set (kept (Suc (length rs)))" for i
  proof (cases "i = length rs")
    case True
    then show ?thesis using R by (simp add: s x)
  next
    case False
    then have "i < length rs" and "i \<in> set (kept (length rs))"
      using i by (auto simp: kept_def maxRequests_def split: if_splits)
    then show ?thesis using R IH i by (simp add: s nth_append)
  qed
  then show ?case using R by (simp add: s)
qed

section \<open>What is published\<close>

definition body_bytes :: "OutboundRequestDiagnostic list \<Rightarrow> nat" where
  "body_bytes rs = sum_list (map (length \<circ> rd_Body) rs)"

text \<open>A published request: the body is whole or left out.\<close>

definition whole_body :: "OutboundRequestDiagnostic \<Rightarrow> bool" where
  "whole_body r \<longleftrightarrow> rd_Body r = [] \<or> sint (rd_BodyOriginalSize r) \<le> int (length (rd_Body r))"

lemma snapshot_request_budget:
  assumes "snapshot_request s remaining e = (r, remaining')"
  shows "length (rd_Body r) + remaining' = remaining \<and> whole_body r"
  using assms
  by (auto simp: snapshot_request_def Let_def whole_body_def split: option.splits prod.splits if_splits)

lemma snapshot_loop_budget:
  "body_bytes (snapshot_loop s remaining is) \<le> remaining \<and>
   list_all whole_body (snapshot_loop s remaining is) \<and>
   length (snapshot_loop s remaining is) = length is"
proof (induction "is" arbitrary: remaining)
  case Nil
  then show ?case by (simp add: body_bytes_def)
next
  case (Cons i "is")
  obtain r rest where r: "snapshot_request s remaining (hp_exs s ! i) = (r, rest)" by fastforce
  show ?case
    using Cons [of rest] snapshot_request_budget [OF r] by (simp add: r body_bytes_def)
qed

lemma Snapshot_budget:
  assumes "Snapshot s = Some d"
  shows "body_bytes (OutboundRequests d) + length (UpstreamErrorBody d) \<le> maxBodyBytes \<and>
    length (OutboundRequests d) = length (cp_exchanges s) \<and>
    list_all whole_body (OutboundRequests d)"
proof -
  obtain i "is" where rev: "rev (cp_exchanges s) = i # is"
    using assms by (cases "rev (cp_exchanges s)") (auto simp: Snapshot_def)
  obtain r rest where r: "snapshot_request s maxBodyBytes (hp_exs s ! i) = (r, rest)" by fastforce
  obtain raw rest' where raw: "snapshot_error s rest (hp_exs s ! i) = (raw, rest')" by fastforce
  have d: "d = \<lparr>OutboundRequests = snapshot_loop s rest' is @ [r], UpstreamErrorBody = raw\<rparr>"
    using assms by (simp add: Snapshot_def rev r raw)
  have "length raw + rest' = rest"
    using raw by (auto simp: snapshot_error_def Let_def split: option.splits prod.splits if_splits)
  moreover have "length (cp_exchanges s) = Suc (length is)"
    using rev by (metis length_Cons length_rev)
  ultimately show ?thesis
    using snapshot_loop_budget [of s rest' "is"] snapshot_request_budget [OF r]
    by (simp add: d body_bytes_def)
qed

lemma Snapshot_None: "Snapshot s = None \<longleftrightarrow> cp_exchanges s = []"
  by (cases "rev (cp_exchanges s)") (auto simp: Snapshot_def case_prod_beta)

text \<open>
  What a failed attempt publishes. After any number of recorded requests the capture keeps
  the first and the last seven; \<open>Finish\<close> leaves the verdict of a successful attempt as it is, and
  gives a failed one a diagnostic with one entry per kept request, in order, whose bodies
  together with the error body stay within the budget, and each of which is whole or left out.
\<close>
lemma Finish_publishes_failures:
  assumes "s = record_all rs new_Capture" and "Finish (Some oc) err s = (Some oc', t)"
  shows "cp_exchanges s = kept (length rs)
    \<and> (if err = None \<and> Kind oc = OutcomeSuccess then oc' = oc
       else oc' = oc\<lparr>FinalErrorDiagnostic := Snapshot s\<rparr>)
    \<and> (case Snapshot s of
         None \<Rightarrow> rs = []
       | Some d \<Rightarrow>
           length (OutboundRequests d) = length (kept (length rs)) \<and>
           body_bytes (OutboundRequests d) + length (UpstreamErrorBody d) \<le> maxBodyBytes \<and>
           list_all whole_body (OutboundRequests d))
    \<and> cp_closed t"
proof -
  note k = record_all_kept [OF assms(1)]
  have "rs = []" if "cp_exchanges s = []"
    using k that by (cases rs) (auto simp: kept_def maxRequests_def split: if_splits)
  moreover have "capture_ok s"
  proof -
    have "capture_ok (record_all rs new_Capture)"
    proof (induction rs rule: rev_induct)
      case (snoc x rs)
      then show ?case
        using publish_ok [OF _ clip_request_fits]
        by (simp add: record_all_def record_exchange_def case_prod_beta)
    qed (simp add: record_all_def new_Capture_ok)
    then show ?thesis by (simp add: assms(1))
  qed
  ultimately show ?thesis
    using assms(2) k Snapshot_budget Snapshot_None release_capture_ok
    by (auto simp: Finish_def split: if_splits option.splits)
qed

end
