(* ===== verification/TraceCalls.thy ===== *)
theory TraceCalls
  imports Trace
begin

text \<open>
  A traced attempt from \<^verbatim>\<open>Start\<close> to \<^verbatim>\<open>Finish\<close>: which requests are traced, the whole of
  \<^verbatim>\<open>Transport.RoundTrip\<close> with the base transport and the caller reading the bodies, and what a
  sequence of such calls publishes.

  A context either carries the capture or not; of the captures only one is followed here.
\<close>

section \<open>Tracing\<close>

text \<open>\<open>outer\<close> says whether the context already carries a capture.\<close>

definition Start :: "bool \<Rightarrow> bool \<Rightarrow> bool \<times> Capture option" where
  "Start outer enabled = (if \<not> enabled then (outer, None) else (True, Some new_Capture))"

text \<open>
  The capture of a context is that of the innermost enabled \<^verbatim>\<open>Start\<close>; without one nothing is
  recorded. \<open>None\<close> is a nil context.
\<close>

definition trace_fromContext :: "'c option option \<Rightarrow> 'c option" where
  "trace_fromContext ctx = (case ctx of None \<Rightarrow> None | Some c \<Rightarrow> c)"

definition Record ::
  "Capture option option \<Rightarrow> OutboundRequestDiagnostic \<Rightarrow> nat option \<times> Capture option" where
  "Record ctx request =
     (case trace_fromContext ctx of
        None \<Rightarrow> (None, None)
      | Some c \<Rightarrow> (let (e, c) = record_exchange request False c in (e, Some c)))"

text \<open>\<^verbatim>\<open>Finish\<close> on the capture of \<^verbatim>\<open>Start\<close>, which may be nil.\<close>

definition Finish_ptr ::
  "ForwardOutcome option \<Rightarrow> go_error option \<Rightarrow> Capture option
     \<Rightarrow> ForwardOutcome option \<times> Capture option" where
  "Finish_ptr outcome err c =
     (case c of
        None \<Rightarrow> (outcome, None)
      | Some s \<Rightarrow> (case Finish outcome err s of (outcome, s) \<Rightarrow> (outcome, Some s)))"

section \<open>The transport\<close>

text \<open>The base transport, \<open>fallback\<close> being \<^verbatim>\<open>http.DefaultTransport\<close>.\<close>

definition transport_base :: "'b \<Rightarrow> 'b option \<Rightarrow> 'b" where
  "transport_base fallback base = (case base of None \<Rightarrow> fallback | Some b \<Rightarrow> b)"

text \<open>The transport whose idle connections are closed, if it can close them.\<close>

definition CloseIdleConnections :: "('b \<Rightarrow> bool) \<Rightarrow> 'b \<Rightarrow> 'b option \<Rightarrow> 'b option" where
  "CloseIdleConnections is_closer fallback base =
     (let base = transport_base fallback base in if is_closer base then Some base else None)"

text \<open>A traced WebSocket connection, before its first message.\<close>

definition WrapWebSocket :: "bool \<Rightarrow> string \<Rightarrow> header \<Rightarrow> trace_ws" where
  "WrapWebSocket traced url headers =
     \<lparr>tw_traced = traced, tw_url = url, tw_headers = headers, tw_exchange = None\<rparr>"

text \<open>A body read piece by piece: what each \<^verbatim>\<open>Read\<close> of the wrapped body returns.\<close>

fun read_all :: "observedBody \<Rightarrow> (bytes \<times> go_error option) list \<Rightarrow> Capture \<Rightarrow> Capture" where
  "read_all b [] s = s"
| "read_all b ((data, err) # rs) s =
     (let (b, s) = body_Read b data err s in read_all b rs s)"

text \<open>
  A call: the request, what the base transport reads of its body and returns, and what the caller
  reads of the response's body.
\<close>

record traced_call =
  tc_request :: http_request
  tc_sent :: "(bytes \<times> go_error option) list"
  tc_response :: "http_response option"
  tc_error :: "go_error option"
  tc_read :: "(bytes \<times> go_error option) list"

text \<open>\<open>traced\<close> says whether the request's context carries the capture.\<close>

definition RoundTrip ::
  "(string \<Rightarrow> string) \<Rightarrow> bool \<Rightarrow> traced_call \<Rightarrow> Capture
     \<Rightarrow> (http_response option \<times> go_error option) \<times> observedBody \<times> Capture" where
  "RoundTrip media_type traced c s =
     (if \<not> traced then ((tc_response c, tc_error c), Plain, s)
      else
        (let (e, sent, s) = RoundTrip_start (tc_request c) s;
             s = read_all sent (tc_sent c) s;
             (body, s) = RoundTrip_end media_type e (tc_response c) s
         in ((tc_response c, tc_error c), body, s)))"

definition run_call :: "(string \<Rightarrow> string) \<Rightarrow> bool \<Rightarrow> traced_call \<Rightarrow> Capture \<Rightarrow> Capture" where
  "run_call media_type traced c s =
     (let (_, body, s) = RoundTrip media_type traced c s in read_all body (tc_read c) s)"

definition run_calls :: "(string \<Rightarrow> string) \<Rightarrow> bool \<Rightarrow> traced_call list \<Rightarrow> Capture \<Rightarrow> Capture" where
  "run_calls media_type traced cs s = fold (run_call media_type traced) cs s"

section \<open>Lemmas: reading\<close>

definition pieces :: "(bytes \<times> go_error option) list \<Rightarrow> bytes" where
  "pieces rs = concat (map fst rs)"

lemma pieces_simps [simp]: "pieces [] = []" "pieces ((d, e) # rs) = d @ pieces rs"
  by (simp_all add: pieces_def)

lemma read_all_Plain [simp]: "read_all Plain rs s = s"
  by (induction rs) (auto simp: body_Read_def)

lemma bb_write_Nil [simp]: "bb_write b [] = b"
  by (rule bb_eqI) (simp_all add: bb_write_data)

lemma update_buf_id: "update_buf j (\<lambda>b. b) s = s"
  by (simp add: update_buf_def)

lemma update_buf_twice:
  "j < length (hp_bufs s) \<Longrightarrow> update_buf j g (update_buf j f s) = update_buf j (\<lambda>b. g (f b)) s"
  by (simp add: update_buf_def)

lemma read_all_buffer:
  "j < length (hp_bufs s) \<Longrightarrow> read_all (ToBuffer j) rs s = update_buf j (\<lambda>b. bb_write b (pieces rs)) s"
proof (induction rs arbitrary: s)
  case Nil
  then show ?case by (simp add: update_buf_id)
next
  case (Cons r rs)
  obtain d e where r: "r = (d, e)" by fastforce
  have "body_Read (ToBuffer j) d e s = (ToBuffer j, update_buf j (\<lambda>b. bb_write b d) s)"
    by (cases d) (simp_all add: body_Read_def update_buf_id)
  moreover have "j < length (hp_bufs (update_buf j (\<lambda>b. bb_write b d) s))"
    using Cons.prems by (simp add: update_buf_def)
  ultimately show ?case
    using Cons.IH update_buf_twice [OF Cons.prems] by (simp add: r bb_write_append)
qed

text \<open>A buffer that was written no more than it holds.\<close>

lemma bb_write_whole:
  "length d \<le> maxBodyBytes \<Longrightarrow>
   bb_snapshot (bb_write new_bodyBuffer d) = (d, word_of_nat (length d))"
  by (simp add: bb_snapshot_def bb_write_data new_bodyBuffer_def)

lemma small_length: "n \<le> maxBodyBytes \<Longrightarrow> sint (word_of_nat n :: go_int) = int n"
proof -
  assume "n \<le> maxBodyBytes"
  then have "int n < 2 ^ 63" by (simp add: maxBodyBytes_def)
  then have "sint (word_of_int (int n) :: go_int) = int n"
    by (intro sint_word_of_int_64) simp_all
  then show ?thesis by simp
qed

section \<open>Lemmas: one call\<close>

text \<open>What the caller hands over, and what is kept of it.\<close>

definition call_head :: "traced_call \<Rightarrow> string \<times> string \<times> string \<times> header \<times> go_int" where
  "call_head c =
     (''http'', rq_Method (tc_request c), rq_URL (tc_request c), rq_Header (tc_request c),
      case tc_response c of None \<Rightarrow> 0 | Some r \<Rightarrow> hs_StatusCode r)"

definition request_head ::
  "OutboundRequestDiagnostic \<Rightarrow> string \<times> string \<times> string \<times> header \<times> go_int" where
  "request_head r = (rd_Transport r, rd_Method r, rd_URL r, rd_Headers r, rd_StatusCode r)"

text \<open>The body that was sent: the replay reader's, where it can be read, or what was read of it.\<close>

definition sent_body :: "traced_call \<Rightarrow> bytes" where
  "sent_body c =
     (if \<not> rq_hasBody (tc_request c) then []
      else
        (case rq_GetBody (tc_request c) of
           None \<Rightarrow> pieces (tc_sent c)
         | Some (b, e) \<Rightarrow> if e = EOF then b else pieces (tc_sent c)))"

text \<open>A request that fits and whose declared length is not more than what it sends.\<close>

definition request_small :: "traced_call \<Rightarrow> bool" where
  "request_small c \<longleftrightarrow>
     length (sent_body c) \<le> maxBodyBytes \<and>
     (rq_hasBody (tc_request c) \<longrightarrow>
        sint (rq_ContentLength (tc_request c)) \<le> int (length (sent_body c)) \<and>
        (case rq_GetBody (tc_request c) of
           None \<Rightarrow> True | Some (b, e) \<Rightarrow> length b \<le> length (sent_body c)))"

lemma sint_eqI: "sint a = sint b \<Longrightarrow> a = (b :: go_int)"
  by (rule signed_word_eqI)

lemma go_max_small:
  "n \<le> maxBodyBytes \<Longrightarrow> sint a \<le> int n \<Longrightarrow> go_max a (word_of_nat n) = word_of_nat n"
  "n \<le> maxBodyBytes \<Longrightarrow> sint a \<le> int n \<Longrightarrow> go_max (word_of_nat n) a = word_of_nat n"
  using small_length [of n] sint_eqI [of a "word_of_nat n"] by (auto simp: go_max_def)

lemma snapshot_reader:
  assumes "length b \<le> maxBodyBytes" and "sint n \<le> int (length b)"
  shows "readRequestSnapshot (b, EOF) n = (b, None)"
  using assms by (auto simp: readRequestSnapshot_def read_limited_def Let_def)

lemma trace_request_head:
  "request_head (fst (trace_request req)) = (''http'', rq_Method req, rq_URL req, rq_Header req, 0)"
  by (simp add: trace_request_def request_head_def Let_def split: option.splits prod.splits)

text \<open>What \<^verbatim>\<open>RoundTrip\<close> records of a small request.\<close>

lemma trace_request_small:
  assumes "request_small c"
  shows "\<exists>d withSent. trace_request (tc_request c) = (d, withSent) \<and>
    length (rd_Body d) \<le> maxBodyBytes \<and>
    (if withSent then rd_Body d = [] \<and> sent_body c = pieces (tc_sent c) else rd_Body d = sent_body c) \<and>
    sint (rd_BodyOriginalSize d) \<le> int (length (sent_body c))"
proof (cases "rq_hasBody (tc_request c)")
  case False
  then show ?thesis by (auto simp: trace_request_def sent_body_def)
next
  case body: True
  show ?thesis
  proof (cases "rq_GetBody (tc_request c)")
    case None
    then show ?thesis
      using body assms
      by (auto simp: trace_request_def sent_body_def request_small_def go_max_def)
  next
    case (Some r)
    obtain b e where r: "r = (b, e)" by fastforce
    have small: "length b \<le> length (sent_body c)" "length (sent_body c) \<le> maxBodyBytes"
      "sint (rq_ContentLength (tc_request c)) \<le> int (length (sent_body c))"
      using assms body Some by (simp_all add: request_small_def r)
    obtain b' err where snap: "readRequestSnapshot (b, e) (rq_ContentLength (tc_request c)) = (b', err)"
      by fastforce
    show ?thesis
    proof (cases "e = EOF")
      case True
      then have "sent_body c = b" using body Some by (simp add: sent_body_def r)
      moreover from this have "b' = b \<and> err = None"
        using snapshot_reader [of b "rq_ContentLength (tc_request c)"] small snap True by simp
      ultimately show ?thesis
        using body Some snap small True small_length [of "length b"]
        by (auto simp: trace_request_def r go_max_def)
    next
      case False
      then have sent: "sent_body c = pieces (tc_sent c)" using body Some by (simp add: sent_body_def r)
      have len: "length (fst (readRequestSnapshot (b, e) (rq_ContentLength (tc_request c)))) \<le> length b"
        by (auto simp: readRequestSnapshot_def read_limited_def Let_def)
      have "err = None \<Longrightarrow> length b > maxBodyBytes"
        using snap False
        by (auto simp: readRequestSnapshot_def read_limited_def Let_def split: if_splits)
      then obtain e' where "err = Some e'" using small by (cases err) auto
      then show ?thesis
        using body Some snap small sent len small_length [of "length b'"]
        by (auto simp: trace_request_def r go_max_def)
    qed
  qed
qed

text \<open>Publishing into an open capture.\<close>

lemma publish_open:
  assumes "capture_ok s" and "\<not> cp_closed s" and "cp_exchanges s = kept (length (hp_exs s))"
  defines "n \<equiv> length (hp_exs s)" and "m \<equiv> length (hp_bufs s)"
  obtains s1 where "publish d withSent s = (Some n, s1)"
    "hp_exs s1 ! n = \<lparr>ex_request = d, ex_sent = (if withSent then Some m else None),
       ex_response = None, ex_event = [], ex_events = None, ex_closed = False\<rparr>"
    "length (hp_exs s1) = Suc n" "cp_exchanges s1 = kept (Suc n)" "\<not> cp_closed s1"
    "\<forall>i < n. i \<in> set (kept (Suc n)) \<longrightarrow> hp_exs s1 ! i = hp_exs s ! i"
    "withSent \<longrightarrow> m < length (hp_bufs s1) \<and> hp_bufs s1 ! m = new_bodyBuffer"
    "length (hp_obs s1) = length (hp_obs s)"
proof -
  define t where "t = (if withSent then s\<lparr>hp_bufs := hp_bufs s @ [new_bodyBuffer]\<rparr> else s)
       \<lparr>hp_exs := hp_exs s @ [\<lparr>ex_request = d,
          ex_sent = (if withSent then Some m else None), ex_response = None,
          ex_event = [], ex_events = None, ex_closed = False\<rparr>]\<rparr>"
  have t: "hp_exs t ! n = \<lparr>ex_request = d, ex_sent = (if withSent then Some m else None),
       ex_response = None, ex_event = [], ex_events = None, ex_closed = False\<rparr>"
    "length (hp_exs t) = Suc n" "\<forall>i < n. hp_exs t ! i = hp_exs s ! i"
    "withSent \<longrightarrow> m < length (hp_bufs t) \<and> hp_bufs t ! m = new_bodyBuffer"
    "hp_obs t = hp_obs s" "cp_exchanges t = kept n" "cp_closed t = cp_closed s"
    using assms(3) by (simp_all add: t_def n_def m_def nth_append)
  show ?thesis
  proof (cases "length (kept n) < maxRequests")
    case True
    then have "publish d withSent s = (Some n, t\<lparr>cp_exchanges := kept n @ [n]\<rparr>)"
      using assms(2,3) by (simp add: publish_def Let_def t_def n_def m_def)
    then show ?thesis
      using that t assms(2) True by (simp add: kept_Suc)
  next
    case False
    define x where "x = kept n ! 1"
    define u where "u = t\<lparr>cp_exchanges := take 1 (kept n) @ drop 2 (kept n) @ [n]\<rparr>"
    have pub: "publish d withSent s = (Some n, release_exchange x u)"
      using assms(2,3) False by (simp add: publish_def Let_def t_def u_def x_def n_def m_def)
    have x: "x < n" "x \<notin> set (kept (Suc n))"
      using False by (auto simp: x_def kept_def maxRequests_def nth_Cons split: if_splits)
    have "exchange_ok s (hp_exs s ! x)"
      using store_ok_exchange [OF capture_ok_store [OF assms(1)]] x(1) by (simp add: n_def)
    then have foreign: "\<not> owns_buffer m (hp_exs u ! x)"
      using t(3) x(1) by (auto simp: u_def exchange_ok_def owns_buffer_def m_def)
    have "withSent \<longrightarrow> hp_bufs (release_exchange x u) ! m = new_bodyBuffer"
      using t(4) foreign release_exchange_bufs [of m u x] by (simp add: u_def)
    then show ?thesis
      using that [OF pub] t x assms(2) False
      by (auto simp: u_def kept_Suc nth_list_update)
  qed
qed

section \<open>Lemmas: an observed stream\<close>

text \<open>The payload an exchange holds after its observer reported some.\<close>

definition last_event :: "bytes list \<Rightarrow> bytes \<Rightarrow> bytes" where
  "last_event es v = fold (\<lambda>d v. if d = [] \<or> length d > maxEventBytes then v else d) es v"

lemma last_event_append: "last_event (es @ es') v = last_event es' (last_event es v)"
  by (simp add: last_event_def)

lemma last_event_last:
  "list_all (\<lambda>d. length d \<le> maxEventBytes) es \<Longrightarrow>
   last_event es v = (if filter (\<lambda>d. d \<noteq> []) es = [] then v else last (filter (\<lambda>d. d \<noteq> []) es))"
  by (induction es arbitrary: v) (auto simp: last_event_def)

lemma observe_all:
  "n < length (hp_exs s) \<Longrightarrow> \<not> ex_closed (hp_exs s ! n) \<Longrightarrow>
   fold (ObserveEvent n) es s = update_ex n (\<lambda>e. e\<lparr>ex_event := last_event es (ex_event e)\<rparr>) s"
proof (induction es arbitrary: s)
  case Nil
  then show ?case by (simp add: last_event_def update_ex_def)
next
  case (Cons d es)
  have one: "ObserveEvent n d s = update_ex n (\<lambda>e. e\<lparr>ex_event := last_event [d] (ex_event e)\<rparr>) s"
    using Cons.prems by (simp add: ObserveEvent_def last_event_def update_ex_def)
  have "fold (ObserveEvent n) es (ObserveEvent n d s) =
      update_ex n (\<lambda>e. e\<lparr>ex_event := last_event es (ex_event e)\<rparr>) (ObserveEvent n d s)"
    using Cons.prems by (intro Cons.IH) (simp_all add: one update_ex_def)
  then show ?case
    using Cons.prems(1) last_event_append [of "[d]" es] by (simp add: one update_ex_def)
qed

text \<open>One observer, fed by the pieces of a body.\<close>

fun observer_reads ::
  "bool \<Rightarrow> eventObserver \<Rightarrow> (bytes \<times> go_error option) list \<Rightarrow> eventObserver \<times> bytes list" where
  "observer_reads fin ob [] = (ob, [])"
| "observer_reads fin ob ((d, e) # rs) =
     (let (ob, es) = eo_write ob d;
          (ob, es') = (if e \<noteq> None \<and> \<not> fin then eo_finish ob else (ob, []));
          (ob, es'') = observer_reads (fin \<or> e \<noteq> None) ob rs
      in (ob, es @ es' @ es''))"

definition observed :: "nat \<Rightarrow> nat \<Rightarrow> eventObserver \<times> bytes list \<Rightarrow> Capture \<Rightarrow> Capture" where
  "observed j n r s =
     update_ex n (\<lambda>e. e\<lparr>ex_event := last_event (snd r) (ex_event e)\<rparr>)
       (s\<lparr>hp_obs := (hp_obs s)[j := (fst r, n)]\<rparr>)"

lemma run_observer_observed:
  assumes "n < length (hp_exs s)" and "\<not> ex_closed (hp_exs s ! n)" and "hp_obs s ! j = (ob, n)"
  shows "run_observer j f s = observed j n (f ob) s"
  using assms observe_all [of n "update_obs j (\<lambda>_. fst (f ob)) s" "snd (f ob)"]
  by (simp add: run_observer_def case_prod_beta observed_def update_obs_def)

lemma observed_twice:
  "n < length (hp_exs s) \<Longrightarrow> j < length (hp_obs s) \<Longrightarrow>
   observed j n (ob2, es2) (observed j n (ob1, es1) s) = observed j n (ob2, es1 @ es2) s"
  by (simp add: observed_def update_ex_def last_event_append)

lemma observed_simps:
  "j < length (hp_obs s) \<Longrightarrow> hp_obs (observed j n (ob, es) s) ! j = (ob, n)"
  "length (hp_obs (observed j n r s)) = length (hp_obs s)"
  "length (hp_exs (observed j n r s)) = length (hp_exs s)"
  "n < length (hp_exs s) \<Longrightarrow> ex_closed (hp_exs (observed j n r s) ! n) = ex_closed (hp_exs s ! n)"
  by (simp_all add: observed_def update_ex_def)

lemma observed_same:
  "j < length (hp_obs s) \<Longrightarrow> hp_obs s ! j = (ob, n) \<Longrightarrow> observed j n (ob, []) s = s"
  by (simp add: observed_def update_ex_def last_event_def list_update_same_conv)

lemma eo_write_Nil [simp]: "eo_write ob [] = (ob, [])"
  by (simp add: eo_write_def eo_write_loop.simps)

lemma read_all_observer:
  "n < length (hp_exs s) \<Longrightarrow> \<not> ex_closed (hp_exs s ! n) \<Longrightarrow> j < length (hp_obs s) \<Longrightarrow>
   hp_obs s ! j = (ob, n) \<Longrightarrow>
   read_all (ToObserver j fin) rs s = observed j n (observer_reads fin ob rs) s"
proof (induction rs arbitrary: s ob fin)
  case Nil
  then show ?case by (simp add: observed_same)
next
  case (Cons r rs)
  obtain d e where r: "r = (d, e)" by fastforce
  obtain ob1 es1 where w: "eo_write ob d = (ob1, es1)" by fastforce
  obtain ob2 es2 where f: "(if e \<noteq> None \<and> \<not> fin then eo_finish ob1 else (ob1, [])) = (ob2, es2)"
    by fastforce
  let ?s1 = "observed j n (ob1, es1) s" and ?s2 = "observed j n (ob2, es1 @ es2) s"
  have s1: "(if length d > 0 then run_observer j (\<lambda>o'. eo_write o' d) s else s) = ?s1"
    using run_observer_observed [OF Cons.prems(1,2,4), of "\<lambda>o'. eo_write o' d"] w
      observed_same [OF Cons.prems(3,4)] by (cases d) auto
  have "body_Read (ToObserver j fin) d e s = (ToObserver j (fin \<or> e \<noteq> None), ?s2)"
  proof (cases "e \<noteq> None \<and> \<not> fin")
    case True
    then have fin: "eo_finish ob1 = (ob2, es2)" using f by simp
    have "run_observer j eo_finish ?s1 = observed j n (ob2, es2) ?s1"
      using run_observer_observed [of n ?s1 j ob1 eo_finish] Cons.prems fin
      by (simp add: observed_simps)
    then show ?thesis
      unfolding body_Read_def observedBody.case s1 Let_def
      using True observed_twice [OF Cons.prems(1,3)] by simp
  next
    case False
    then have "ob2 = ob1" "es2 = []" using f by auto
    then show ?thesis
      unfolding body_Read_def observedBody.case s1 Let_def using False by auto
  qed
  moreover have "read_all (ToObserver j (fin \<or> e \<noteq> None)) rs ?s2 =
      observed j n (observer_reads (fin \<or> e \<noteq> None) ob2 rs) ?s2"
    using Cons.prems by (intro Cons.IH) (simp_all add: observed_simps)
  moreover obtain ob3 es3 where "observer_reads (fin \<or> e \<noteq> None) ob2 rs = (ob3, es3)"
    by fastforce
  ultimately show ?case
    using w f observed_twice [OF Cons.prems(1,3), of ob3 es3 ob2 "es1 @ es2"] by (simp add: r)
qed

text \<open>A body read to its end.\<close>

definition read_to_end :: "(bytes \<times> go_error option) list \<Rightarrow> bool" where
  "read_to_end rs \<longleftrightarrow>
     rs \<noteq> [] \<and> snd (last rs) \<noteq> None \<and> list_all (\<lambda>r. snd r = None) (butlast rs)"

lemma observer_reads_feed:
  "list_all (\<lambda>r. snd r = None) rs \<Longrightarrow>
   observer_reads False ob (rs @ [(d, Some e)]) =
     (let (ob, es) = eo_feed ob (map fst rs @ [d]); (ob, es') = eo_finish ob in (ob, es @ es'))"
  by (induction rs arbitrary: ob) (auto simp: case_prod_beta)

lemma finish_fits:
  assumes "eo_ok ob"
  shows "list_all (\<lambda>d. length d \<le> maxEventBytes) (snd (eo_finish ob))"
proof -
  have short: "length (TrimSuffix x y) \<le> length x" for x y by (simp add: TrimSuffix_def)
  have trim: "length x \<le> maxEventBytes \<Longrightarrow> length (TrimSuffix x y) \<le> maxEventBytes" for x y
    using short le_trans by blast
  have line: "list_all (\<lambda>d. length d \<le> maxEventBytes) (snd (consumeLine ob l)) \<and>
      length (eo_data (fst (consumeLine ob l))) \<le> maxEventBytes" for l
    using assms trim by (auto simp: consumeLine_def eo_flush_def eo_ok_def Let_def)
  have flush: "list_all (\<lambda>d. length d \<le> maxEventBytes) (snd (eo_flush b))"
    if "length (eo_data b) \<le> maxEventBytes" for b
    using trim [OF that] by (simp add: eo_flush_def Let_def)
  show ?thesis
    using assms line flush by (auto simp: eo_finish_def eo_ok_def Let_def case_prod_beta)
qed

text \<open>The event that is kept is the last one a reader of the whole text finds.\<close>

lemma observer_keeps_last:
  assumes "read_to_end rs" and "length (pieces rs) \<le> maxEventBytes"
  shows "last_event (snd (observer_reads False new_eventObserver rs)) [] =
    (if sse_payloads (pieces rs) = [] then [] else last (sse_payloads (pieces rs)))"
proof -
  obtain qs d e where rs: "rs = qs @ [(d, Some e)]" "list_all (\<lambda>r. snd r = None) qs"
    using assms(1) by (cases rs rule: rev_cases) (auto simp: read_to_end_def)
  let ?ps = "map fst qs @ [d]"
  let ?es = "snd (eo_feed new_eventObserver ?ps) @ snd (eo_finish (fst (eo_feed new_eventObserver ?ps)))"
  have whole: "concat ?ps = pieces rs" by (simp add: rs pieces_def)
  have es: "snd (observer_reads False new_eventObserver rs) = ?es"
    unfolding rs(1) observer_reads_feed [OF rs(2)] by (simp add: case_prod_beta)
  have open_new: "\<not> eo_closed new_eventObserver" by (simp add: new_eventObserver_def)
  have feed: "eo_feed new_eventObserver ?ps = eo_bytes new_eventObserver (concat ?ps)"
    using sse.feed_all_concat [of new_eventObserver ?ps] open_new
    by (simp add: eo_feed_sse eo_write_bytes)
  have bound: "list_all (\<lambda>d. length d \<le> maxEventBytes) ?es"
    using eo_payload_fits [of new_eventObserver] finish_fits eo_bytes_ok [of new_eventObserver]
    by (simp add: feed)
  have "filter (\<lambda>d. d \<noteq> []) ?es = sse_payloads (pieces rs)"
    unfolding whole [symmetric] by (rule observer_payloads) (use assms(2) whole in simp)
  then show ?thesis
    unfolding es last_event_last [OF bound] by (simp only:)
qed

section \<open>Lemmas: the effect of a call\<close>

text \<open>Only the newest exchange changes, its request only in its status.\<close>

definition only_newest :: "nat \<Rightarrow> Capture \<Rightarrow> Capture \<Rightarrow> bool" where
  "only_newest n s t \<longleftrightarrow>
     cp_exchanges t = cp_exchanges s \<and> cp_closed t = cp_closed s \<and>
     length (hp_exs t) = length (hp_exs s) \<and> (\<forall>i. i \<noteq> n \<longrightarrow> hp_exs t ! i = hp_exs s ! i)"

lemma only_newest_trans: "only_newest n s t \<Longrightarrow> only_newest n t u \<Longrightarrow> only_newest n s u"
  by (simp add: only_newest_def)

lemma update_buf_newest [simp]: "only_newest n s (update_buf j f s)"
  by (simp add: only_newest_def update_buf_def)

lemma observed_newest: "only_newest n s (observed j n r s)"
  by (simp add: only_newest_def observed_def update_ex_def)

text \<open>The body of a response, as it is published for the last call.\<close>

definition is_sse :: "(string \<Rightarrow> string) \<Rightarrow> http_response \<Rightarrow> bool" where
  "is_sse media_type r \<longleftrightarrow>
     EqualFold (media_type (HeaderGet (hs_Header r) ''Content-Type'')) ''text/event-stream''"

definition error_body :: "(string \<Rightarrow> string) \<Rightarrow> traced_call \<Rightarrow> bytes" where
  "error_body media_type c =
     (case tc_response c of
        None \<Rightarrow> []
      | Some r \<Rightarrow>
          if \<not> hs_hasBody r then []
          else if is_sse media_type r
          then (if sse_payloads (pieces (tc_read c)) = [] then []
                else last (sse_payloads (pieces (tc_read c))))
          else pieces (tc_read c))"

definition response_small :: "(string \<Rightarrow> string) \<Rightarrow> traced_call \<Rightarrow> bool" where
  "response_small media_type c \<longleftrightarrow>
     (case tc_response c of
        None \<Rightarrow> True
      | Some r \<Rightarrow>
          hs_hasBody r \<longrightarrow>
            length (sent_body c) + length (error_body media_type c) \<le> maxBodyBytes \<and>
            (is_sse media_type r \<longrightarrow>
               read_to_end (tc_read c) \<and> length (pieces (tc_read c)) \<le> maxEventBytes))"

text \<open>
  From the wrapped response on: the exchange as it was published, and its state when the caller
  has read the body.
\<close>

lemma response_read:
  assumes "n < length (hp_exs s)" and "\<not> ex_closed (hp_exs s ! n)"
    and "ex_response (hp_exs s ! n) = None" and "ex_event (hp_exs s ! n) = []"
    and "RootEnd = RoundTrip_end media_type (Some n) (tc_response c) s"
    and "t = read_all (fst RootEnd) (tc_read c) (snd RootEnd)"
  shows "only_newest n s t \<and>
    ex_request (hp_exs t ! n) =
      (ex_request (hp_exs s ! n))\<lparr>rd_StatusCode :=
         (case tc_response c of None \<Rightarrow> rd_StatusCode (ex_request (hp_exs s ! n))
          | Some r \<Rightarrow> hs_StatusCode r)\<rparr> \<and>
    ex_sent (hp_exs t ! n) = ex_sent (hp_exs s ! n) \<and>
    (\<forall>j < length (hp_bufs s). hp_bufs t ! j = hp_bufs s ! j) \<and>
    (response_small media_type c \<longrightarrow>
       (case ex_response (hp_exs t ! n) of
          None \<Rightarrow> ex_event (hp_exs t ! n) = error_body media_type c
        | Some k \<Rightarrow> bb_snapshot (hp_bufs t ! k) =
            (error_body media_type c, word_of_nat (length (error_body media_type c)))))"
proof (cases "tc_response c")
  case None
  then show ?thesis using assms by (simp add: RoundTrip_end_def only_newest_def error_body_def)
next
  case (Some r)
  let ?s = "SetStatus n (hs_StatusCode r) s"
  have set: "?s = update_ex n (\<lambda>e. e\<lparr>ex_request := ex_request e\<lparr>rd_StatusCode := hs_StatusCode r\<rparr>\<rparr>) s"
    using assms(2) by (simp add: SetStatus_def)
  have status: "only_newest n s ?s" "n < length (hp_exs ?s)" "hp_bufs ?s = hp_bufs s"
    "hp_obs ?s = hp_obs s"
    "hp_exs ?s ! n = (hp_exs s ! n)\<lparr>ex_request := ex_request (hp_exs s ! n)\<lparr>rd_StatusCode := hs_StatusCode r\<rparr>\<rparr>"
    using assms(1) by (simp_all add: set update_ex_def only_newest_def)
  consider "\<not> hs_hasBody r" | "hs_hasBody r" "is_sse media_type r" | "hs_hasBody r" "\<not> is_sse media_type r"
    by blast
  then show ?thesis
  proof cases
    case 1
    then have "t = ?s"
      using assms(5,6) Some by (simp add: RoundTrip_end_def WrapResponse_def Let_def)
    then show ?thesis
      using 1 status assms(3,4) Some by (simp add: error_body_def)
  next
    case 2
    let ?j = "length (hp_obs s)"
    define u where "u = update_ex n (\<lambda>e. e\<lparr>ex_events := Some ?j\<rparr>)
        (?s\<lparr>hp_obs := hp_obs ?s @ [(new_eventObserver, n)]\<rparr>)"
    have "RootEnd = (ToObserver ?j False, u)"
      using assms(2,5) Some 2 status
      by (simp add: RoundTrip_end_def WrapResponse_def Let_def is_sse_def u_def)
    moreover have u: "n < length (hp_exs u)" "\<not> ex_closed (hp_exs u ! n)" "?j < length (hp_obs u)"
      "hp_obs u ! ?j = (new_eventObserver, n)" "only_newest n s u" "hp_bufs u = hp_bufs s"
      "hp_exs u ! n = (hp_exs ?s ! n)\<lparr>ex_events := Some ?j\<rparr>"
      using status assms(1,2) by (simp_all add: u_def update_ex_def only_newest_def nth_append)
    ultimately have t: "t = observed ?j n (observer_reads False new_eventObserver (tc_read c)) u"
      using assms(6) read_all_observer [OF u(1-4), of False "tc_read c"] by simp
    have "only_newest n s t" using only_newest_trans [OF u(5) observed_newest] t by blast
    then show ?thesis
      using u status assms(3,4) Some 2 observer_keeps_last [of "tc_read c"]
      by (simp add: t observed_def update_ex_def error_body_def response_small_def)
  next
    case 3
    let ?j = "length (hp_bufs s)"
    define u where "u = update_ex n (\<lambda>e. e\<lparr>ex_response := Some ?j\<rparr>)
        (?s\<lparr>hp_bufs := hp_bufs ?s @ [new_bodyBuffer]\<rparr>)"
    have "RootEnd = (ToBuffer ?j, u)"
      using assms(2,5) Some 3 status
      by (simp add: RoundTrip_end_def WrapResponse_def Let_def is_sse_def u_def)
    moreover have u: "n < length (hp_exs u)" "?j < length (hp_bufs u)" "only_newest n s u"
      "hp_bufs u = hp_bufs s @ [new_bodyBuffer]" "hp_exs u ! n = (hp_exs ?s ! n)\<lparr>ex_response := Some ?j\<rparr>"
      using status assms(1) by (simp_all add: u_def update_ex_def only_newest_def)
    ultimately have t: "t = update_buf ?j (\<lambda>b. bb_write b (pieces (tc_read c))) u"
      using assms(6) read_all_buffer [OF u(2)] by simp
    have "only_newest n s t" using only_newest_trans [OF u(3) update_buf_newest] t by blast
    then show ?thesis
      using u status Some 3 bb_write_whole [of "pieces (tc_read c)"]
      by (simp add: t update_buf_def error_body_def response_small_def nth_append)
  qed
qed

text \<open>What is published of the last call, the whole budget being left for it.\<close>

definition published :: "traced_call \<Rightarrow> OutboundRequestDiagnostic" where
  "published c =
     (case call_head c of
        (transport, httpMethod, url, headers, status) \<Rightarrow>
          \<lparr>rd_Transport = transport, rd_Method = httpMethod, rd_URL = url, rd_Headers = headers,
           rd_Body = sent_body c, rd_StatusCode = status,
           rd_BodyOriginalSize = word_of_nat (length (sent_body c))\<rparr>)"

definition traced_ok :: "traced_call list \<Rightarrow> Capture \<Rightarrow> bool" where
  "traced_ok cs s \<longleftrightarrow>
     capture_ok s \<and> \<not> cp_closed s \<and> cp_exchanges s = kept (length cs) \<and>
     length (hp_exs s) = length cs \<and>
     (\<forall>i \<in> set (kept (length cs)). request_head (ex_request (hp_exs s ! i)) = call_head (cs ! i))"

lemma clip_request_head: "request_head (clip_request d) = request_head d"
  by (simp add: clip_request_def request_head_def)

text \<open>The state before the response is wrapped.\<close>

lemma call_sent:
  assumes "traced_ok cs s" and "RoundTrip_start (tc_request c) s = (e, b, s1)"
  shows "e = Some (length cs) \<and> \<not> cp_closed s1 \<and> cp_exchanges s1 = kept (Suc (length cs)) \<and>
    length (hp_exs s1) = Suc (length cs) \<and>
    (\<forall>i < length cs. i \<in> set (kept (Suc (length cs))) \<longrightarrow> hp_exs s1 ! i = hp_exs s ! i) \<and>
    (\<exists>d withSent. trace_request (tc_request c) = (d, withSent) \<and>
       hp_exs s1 ! length cs = \<lparr>ex_request = clip_request d,
         ex_sent = (if withSent then Some (length (hp_bufs s)) else None), ex_response = None,
         ex_event = [], ex_events = None, ex_closed = False\<rparr> \<and>
       (if withSent then b = ToBuffer (length (hp_bufs s)) \<and> length (hp_bufs s) < length (hp_bufs s1) \<and>
          hp_bufs s1 ! length (hp_bufs s) = new_bodyBuffer else b = Plain))"
proof -
  have s: "capture_ok s" "\<not> cp_closed s" "cp_exchanges s = kept (length (hp_exs s))"
    "length (hp_exs s) = length cs"
    using assms(1) by (simp_all add: traced_ok_def)
  obtain d withSent where d: "trace_request (tc_request c) = (d, withSent)" by fastforce
  obtain s1' where pub: "publish (clip_request d) withSent s = (Some (length (hp_exs s)), s1')"
    "hp_exs s1' ! length (hp_exs s) = \<lparr>ex_request = clip_request d,
       ex_sent = (if withSent then Some (length (hp_bufs s)) else None),
       ex_response = None, ex_event = [], ex_events = None, ex_closed = False\<rparr>"
    "length (hp_exs s1') = Suc (length (hp_exs s))" "cp_exchanges s1' = kept (Suc (length (hp_exs s)))"
    "\<not> cp_closed s1'"
    "\<forall>i < length (hp_exs s). i \<in> set (kept (Suc (length (hp_exs s)))) \<longrightarrow> hp_exs s1' ! i = hp_exs s ! i"
    "withSent \<longrightarrow> length (hp_bufs s) < length (hp_bufs s1') \<and> hp_bufs s1' ! length (hp_bufs s) = new_bodyBuffer"
    by (rule publish_open [OF s(1-3), of "clip_request d" withSent])
  have "(e, b, s1) = (Some (length (hp_exs s)),
      case ex_sent (hp_exs s1' ! length (hp_exs s)) of None \<Rightarrow> Plain | Some j \<Rightarrow> ToBuffer j, s1')"
    using assms(2) s(2) pub(1) d by (auto simp: RoundTrip_start_def record_exchange_def)
  then show ?thesis
    using pub s(4) d by auto
qed

lemma run_call_parts:
  assumes "RoundTrip_start (tc_request c) s = (e, b, s1)"
  shows "run_call media_type True c s =
    (let s = read_all b (tc_sent c) s1; r = RoundTrip_end media_type e (tc_response c) s
     in read_all (fst r) (tc_read c) (snd r))"
  using assms by (simp add: run_call_def RoundTrip_def Let_def case_prod_beta)

lemma snapshot_published:
  assumes "request_small c" and "trace_request (tc_request c) = (d, withSent)"
    and "ex_request x = (clip_request d)\<lparr>rd_StatusCode :=
      (case tc_response c of None \<Rightarrow> rd_StatusCode (clip_request d) | Some r \<Rightarrow> hs_StatusCode r)\<rparr>"
    and "ex_sent x = (if withSent then Some m else None)"
    and "withSent \<longrightarrow> hp_bufs t ! m = bb_write new_bodyBuffer (pieces (tc_sent c))"
  shows "snapshot_request t maxBodyBytes x = (published c, maxBodyBytes - length (sent_body c))"
proof -
  have d: "length (rd_Body d) \<le> maxBodyBytes"
    "if withSent then rd_Body d = [] \<and> sent_body c = pieces (tc_sent c) else rd_Body d = sent_body c"
    "sint (rd_BodyOriginalSize d) \<le> int (length (sent_body c))"
    using trace_request_small [OF assms(1)] assms(2) by auto
  have len: "length (sent_body c) \<le> maxBodyBytes" using assms(1) by (simp add: request_small_def)
  have clip: "clip_request d = d" using d(1) by (simp add: clip_request_def)
  have head: "request_head d = (''http'', rq_Method (tc_request c), rq_URL (tc_request c),
      rq_Header (tc_request c), 0)"
    using trace_request_head [of "tc_request c"] by (simp add: assms(2))
  have req: "(ex_request x)\<lparr>rd_BodyOriginalSize := word_of_nat (length (sent_body c)),
      rd_Body := sent_body c\<rparr> = published c"
    using head unfolding assms(3) clip
    by (cases d) (simp add: published_def call_head_def request_head_def split: option.splits)
  have nonneg: "sint (go_max (rd_BodyOriginalSize d) 0) \<le> int (length (sent_body c))"
    using d(3) by (simp add: go_max_def)
  show ?thesis
  proof (cases withSent)
    case True
    then have "bb_snapshot (hp_bufs t ! m) = (sent_body c, word_of_nat (length (sent_body c)))"
      using assms(5) d(2) bb_write_whole len by simp
    then show ?thesis
      using True d(2) assms(3,4) clip go_max_small(1) [OF len nonneg] small_length [OF len] len req
      by (simp add: snapshot_request_def Let_def)
  next
    case False
    then show ?thesis
      using d(2) assms(3,4) clip go_max_small(1) [OF len d(3)] small_length [OF len] len req
      by (simp add: snapshot_request_def Let_def)
  qed
qed

lemma call_effect:
  assumes "traced_ok cs s" and "t = run_call media_type True c s"
  shows "\<not> cp_closed t \<and> cp_exchanges t = kept (Suc (length cs)) \<and>
    length (hp_exs t) = Suc (length cs) \<and>
    (\<forall>i < length cs. i \<in> set (kept (Suc (length cs))) \<longrightarrow> hp_exs t ! i = hp_exs s ! i) \<and>
    request_head (ex_request (hp_exs t ! length cs)) = call_head c \<and>
    (request_small c \<and> response_small media_type c \<longrightarrow>
       snapshot_request t maxBodyBytes (hp_exs t ! length cs) =
         (published c, maxBodyBytes - length (sent_body c)) \<and>
       fst (snapshot_error t (maxBodyBytes - length (sent_body c)) (hp_exs t ! length cs)) =
         error_body media_type c)"
proof -
  let ?n = "length cs" and ?m = "length (hp_bufs s)"
  obtain e b s1 where start: "RoundTrip_start (tc_request c) s = (e, b, s1)" by (rule prod_cases3)
  note sent = call_sent [OF assms(1) start]
  obtain d withSent where d: "trace_request (tc_request c) = (d, withSent)"
    "hp_exs s1 ! ?n = \<lparr>ex_request = clip_request d, ex_sent = (if withSent then Some ?m else None),
       ex_response = None, ex_event = [], ex_events = None, ex_closed = False\<rparr>"
    "if withSent then b = ToBuffer ?m \<and> ?m < length (hp_bufs s1) \<and> hp_bufs s1 ! ?m = new_bodyBuffer
     else b = Plain"
    using sent by blast
  define u where "u = read_all b (tc_sent c) s1"
  have u: "only_newest ?n s1 u" "hp_exs u = hp_exs s1"
    "withSent \<longrightarrow> ?m < length (hp_bufs u) \<and> hp_bufs u ! ?m = bb_write new_bodyBuffer (pieces (tc_sent c))"
    using d(3) read_all_buffer [of ?m s1 "tc_sent c"]
    by (cases withSent; simp add: u_def update_buf_def only_newest_def)+
  have t: "t = read_all (fst (RoundTrip_end media_type (Some ?n) (tc_response c) u)) (tc_read c)
      (snd (RoundTrip_end media_type (Some ?n) (tc_response c) u))"
    using assms(2) sent by (simp add: run_call_parts [OF start] Let_def u_def)
  have R: "only_newest ?n u t"
    "ex_request (hp_exs t ! ?n) = (clip_request d)\<lparr>rd_StatusCode :=
       (case tc_response c of None \<Rightarrow> rd_StatusCode (clip_request d) | Some r \<Rightarrow> hs_StatusCode r)\<rparr>"
    "ex_sent (hp_exs t ! ?n) = (if withSent then Some ?m else None)"
    "\<forall>j < length (hp_bufs u). hp_bufs t ! j = hp_bufs u ! j"
    "response_small media_type c \<longrightarrow>
       (case ex_response (hp_exs t ! ?n) of
          None \<Rightarrow> ex_event (hp_exs t ! ?n) = error_body media_type c
        | Some k \<Rightarrow> bb_snapshot (hp_bufs t ! k) =
            (error_body media_type c, word_of_nat (length (error_body media_type c))))"
    using response_read [OF _ _ _ _ refl t] u(2) d(2) sent by (simp_all cong: option.case_cong)
  have head: "request_head (ex_request (hp_exs t ! ?n)) = call_head c"
    using trace_request_head [of "tc_request c"] clip_request_head [of d] d(1)
    by (simp add: R(2) request_head_def call_head_def split: option.splits)
  have published: "snapshot_request t maxBodyBytes (hp_exs t ! ?n) =
      (published c, maxBodyBytes - length (sent_body c))" if "request_small c"
    using snapshot_published [OF that d(1) R(2,3)] R(4) u(3) by simp
  have error: "fst (snapshot_error t (maxBodyBytes - length (sent_body c)) (hp_exs t ! ?n)) =
      error_body media_type c" if small: "request_small c" "response_small media_type c"
  proof -
    have "length (error_body media_type c) \<le> maxBodyBytes - length (sent_body c)"
      using small(2) by (auto simp: response_small_def error_body_def split: option.splits)
    then show ?thesis
      using R(5) small(2) small_length [of "length (error_body media_type c)"]
      by (auto simp: snapshot_error_def Let_def split: option.splits)
  qed
  have "hp_exs t ! i = hp_exs s ! i" if "i < ?n" "i \<in> set (kept (Suc ?n))" for i
    using sent R(1) u(2) that by (simp add: only_newest_def)
  then show ?thesis
    using sent R(1) u(1) head published error by (simp add: only_newest_def)
qed

section \<open>Lemmas: an attempt\<close>

lemma body_Read_valid:
  "body_valid b s \<Longrightarrow> body_valid (fst (body_Read b d e s)) (snd (body_Read b d e s))"
  by (cases b) (auto simp: body_Read_def body_valid_def Let_def update_buf_def split: if_splits)

lemma read_all_ok: "capture_ok s \<Longrightarrow> body_valid b s \<Longrightarrow> capture_ok (read_all b rs s)"
proof (induction rs arbitrary: b s)
  case (Cons r rs)
  obtain d e where r: "r = (d, e)" by fastforce
  have "capture_ok (snd (body_Read b d e s))"
    using body_Read_ok [OF capture_ok_store [OF Cons.prems(1)] Cons.prems(2)]
      capture_ok_frame [OF Cons.prems(1)] by blast
  then show ?case
    using Cons.IH [OF _ body_Read_valid [OF Cons.prems(2)]] by (simp add: r case_prod_beta)
qed simp

lemma WrapResponse_valid: "body_valid (fst (WrapResponse media i r s)) (snd (WrapResponse media i r s))"
  by (auto simp: WrapResponse_def body_valid_def Let_def update_ex_def SetStatus_def)

lemma run_call_ok:
  assumes "traced_ok cs s"
  shows "capture_ok (run_call media_type True c s)"
proof -
  obtain e b s1 where start: "RoundTrip_start (tc_request c) s = (e, b, s1)" by (rule prod_cases3)
  note sent = call_sent [OF assms start]
  have "capture_ok s1"
    using assms publish_ok [OF _ clip_request_fits] start
    by (auto simp: traced_ok_def RoundTrip_start_def record_exchange_def case_prod_beta
        split: prod.splits option.splits if_splits)
  moreover have b: "body_valid b s1" using sent by (auto simp: body_valid_def split: if_splits)
  ultimately have u: "capture_ok (read_all b (tc_sent c) s1)" (is "capture_ok ?u") by (rule read_all_ok)
  have same: "hp_exs ?u = hp_exs s1"
    using sent read_all_buffer [of "length (hp_bufs s)" s1 "tc_sent c"]
    by (auto simp: update_buf_def split: if_splits)
  show ?thesis
  proof (cases "tc_response c")
    case None
    then show ?thesis
      using u by (simp add: run_call_parts [OF start] RoundTrip_end_def Let_def split: option.split)
  next
    case (Some r)
    let ?w = "WrapResponse media_type (length cs) r ?u"
    have "store_ok (snd ?w) \<and> same_frame ?u (snd ?w)"
      by (rule WrapResponse_ok [OF capture_ok_store [OF u]]) (use same sent in auto)
    then have "capture_ok (snd ?w)" using capture_ok_frame [OF u] by blast
    then show ?thesis
      using read_all_ok [OF _ WrapResponse_valid] Some sent
      by (simp add: run_call_parts [OF start] RoundTrip_end_def Let_def)
  qed
qed

lemma traced_ok_Nil: "traced_ok [] new_Capture"
  by (simp add: traced_ok_def new_Capture_ok) (simp add: new_Capture_def kept_def)

lemma traced_ok_snoc:
  assumes "traced_ok cs s"
  shows "traced_ok (cs @ [c]) (run_call media_type True c s)"
proof -
  note E = call_effect [OF assms refl, of media_type c]
  have "request_head (ex_request (hp_exs (run_call media_type True c s) ! i)) = call_head ((cs @ [c]) ! i)"
    if i: "i \<in> set (kept (Suc (length cs)))" for i
  proof (cases "i = length cs")
    case False
    then have "i < length cs" "i \<in> set (kept (length cs))"
      using i by (auto simp: kept_def maxRequests_def split: if_splits)
    then show ?thesis using E assms i by (simp add: traced_ok_def nth_append)
  qed (use E in simp)
  then show ?thesis
    using E run_call_ok [OF assms] by (simp add: traced_ok_def)
qed

lemma traced_ok_calls: "traced_ok cs (run_calls media_type True cs new_Capture)"
proof (induction cs rule: rev_induct)
  case Nil
  then show ?case by (simp add: run_calls_def traced_ok_Nil)
next
  case (snoc c cs)
  then show ?case using traced_ok_snoc by (simp add: run_calls_def)
qed

text \<open>The heads of the published requests.\<close>

lemma snapshot_request_head:
  "request_head (fst (snapshot_request s remaining e)) = request_head (ex_request e)"
  by (simp add: snapshot_request_def request_head_def Let_def case_prod_beta split: option.split)

lemma snapshot_loop_heads:
  "map request_head (snapshot_loop s remaining is) =
   rev (map (\<lambda>i. request_head (ex_request (hp_exs s ! i))) is)"
  by (induction "is" arbitrary: remaining)
    (auto simp: case_prod_beta snapshot_request_head simp flip: snapshot_request_head [of s])

lemma Snapshot_heads:
  assumes "Snapshot s = Some d"
  shows "map request_head (OutboundRequests d) =
    map (\<lambda>i. request_head (ex_request (hp_exs s ! i))) (cp_exchanges s)"
proof -
  obtain i "is" where rev: "rev (cp_exchanges s) = i # is"
    using assms by (cases "rev (cp_exchanges s)") (auto simp: Snapshot_def)
  then have "cp_exchanges s = rev is @ [i]" by (metis rev.simps(2) rev_rev_ident)
  then show ?thesis
    using assms rev snapshot_request_head [of s maxBodyBytes "hp_exs s ! i"]
    by (auto simp: Snapshot_def case_prod_beta snapshot_loop_heads rev_map)
qed

lemma last_kept: "last (kept (Suc n)) = n"
  by (auto simp: kept_def maxRequests_def)

lemma kept_Nil: "kept n = [] \<longleftrightarrow> n = 0"
  by (auto simp: kept_def maxRequests_def)

lemma Snapshot_last:
  assumes "Snapshot s = Some d" and "last (cp_exchanges s) = i"
    and "snapshot_request s maxBodyBytes (hp_exs s ! i) = (r, remaining)"
  shows "last (OutboundRequests d) = r \<and>
    UpstreamErrorBody d = fst (snapshot_error s remaining (hp_exs s ! i))"
proof -
  obtain k "is" where rev: "rev (cp_exchanges s) = k # is"
    using assms by (cases "rev (cp_exchanges s)") (auto simp: Snapshot_def)
  then have "cp_exchanges s = rev is @ [k]" by (metis rev.simps(2) rev_rev_ident)
  then have "k = i" using assms(2) by simp
  then show ?thesis using assms(1,3) rev by (auto simp: Snapshot_def case_prod_beta)
qed

text \<open>What a traced attempt publishes, if it does.\<close>

definition attempt_published ::
  "(string \<Rightarrow> string) \<Rightarrow> traced_call list \<Rightarrow> FinalErrorDiagnostic option \<Rightarrow> bool" where
  "attempt_published media_type calls diag \<longleftrightarrow>
     (case diag of
        None \<Rightarrow> calls = []
      | Some d \<Rightarrow>
          map request_head (OutboundRequests d) =
            map (\<lambda>i. call_head (calls ! i)) (kept (length calls)) \<and>
          body_bytes (OutboundRequests d) + length (UpstreamErrorBody d) \<le> maxBodyBytes \<and>
          list_all whole_body (OutboundRequests d) \<and>
          (if request_small (last calls) \<and> response_small media_type (last calls)
           then last (OutboundRequests d) = published (last calls) \<and>
                UpstreamErrorBody d = error_body media_type (last calls)
           else True))"

lemma attempt_snapshot:
  "attempt_published media_type calls (Snapshot (run_calls media_type True calls new_Capture))"
proof -
  let ?s = "run_calls media_type True calls new_Capture"
  have ok: "traced_ok calls ?s" by (rule traced_ok_calls)
  show ?thesis
  proof (cases "Snapshot ?s")
    case None
    then have "cp_exchanges ?s = []" by (simp add: Snapshot_None)
    then have "kept (length calls) = []" using ok by (simp add: traced_ok_def)
    then show ?thesis unfolding attempt_published_def None by (simp add: kept_Nil)
  next
    case (Some d)
    then have "cp_exchanges ?s \<noteq> []" using Snapshot_None by force
    then have "calls \<noteq> []" using ok by (auto simp: traced_ok_def kept_def)
    then obtain cs c where calls: "calls = cs @ [c]" by (metis append_butlast_last_id)
    let ?t = "run_calls media_type True cs new_Capture"
    have s: "?s = run_call media_type True c ?t" by (simp add: run_calls_def calls)
    note E = call_effect [OF traced_ok_calls s]
    have last: "last (cp_exchanges ?s) = length cs" using E last_kept by simp
    have heads: "map request_head (OutboundRequests d) =
        map (\<lambda>i. call_head (calls ! i)) (kept (length calls))"
      using Snapshot_heads [OF Some] ok by (simp add: traced_ok_def)
    have "last (OutboundRequests d) = published c \<and> UpstreamErrorBody d = error_body media_type c"
      if "request_small c" "response_small media_type c"
      using Snapshot_last [OF Some last] E that by simp
    then show ?thesis
      using heads Snapshot_budget [OF Some] unfolding attempt_published_def Some by (simp add: calls)
  qed
qed

section \<open>Properties\<close>

text \<open>
  C24: a traced attempt from start to finish. Tracing never changes what a call returns. Without
  it nothing is recorded and Finish leaves the verdict alone. With it a failed attempt publishes
  the first and the last seven of its calls in order, each with its method, address, headers and
  the status it got, in bodies within one budget that are whole or left out; and if the last call
  fits, its request body (the replay reader's, or what the transport read) is published whole
  with the error body the caller read: of an event stream its last payload, of any other response
  all of it. A success publishes nothing, and the capture is closed.
\<close>

theorem traced_attempt_end_to_end:
  assumes "Start False enabled = (traced, cap)"
  shows "list_all (\<lambda>c. fst (RoundTrip media_type traced c s) = (tc_response c, tc_error c)) calls \<and>
    (case cap of
       None \<Rightarrow> \<not> enabled \<and> run_calls media_type traced calls s = s \<and>
         Finish_ptr (Some oc) err cap = (Some oc, None)
     | Some s0 \<Rightarrow> enabled \<and>
         (case Finish_ptr (Some oc) err (Some (run_calls media_type traced calls s0)) of
            (Some oc', Some t) \<Rightarrow>
              cp_closed t \<and> cp_exchanges t = [] \<and>
              (if err = None \<and> Kind oc = OutcomeSuccess then oc' = oc
               else oc' = oc\<lparr>FinalErrorDiagnostic := FinalErrorDiagnostic oc'\<rparr> \<and>
                    attempt_published media_type calls (FinalErrorDiagnostic oc'))
          | _ \<Rightarrow> False))"
proof (cases enabled)
  case False
  then have "cap = None" "\<not> traced" using assms by (auto simp: Start_def)
  moreover have "run_calls media_type False calls s = s"
    by (induction calls arbitrary: s)
      (simp_all add: run_calls_def run_call_def RoundTrip_def)
  ultimately show ?thesis
    using False by (simp add: list_all_iff RoundTrip_def Finish_ptr_def)
next
  case True
  then have cap: "cap = Some new_Capture" "traced" using assms by (auto simp: Start_def)
  let ?s = "run_calls media_type True calls new_Capture"
  have "capture_ok ?s" using traced_ok_calls by (simp add: traced_ok_def)
  then have "cp_closed (release_capture ?s)" "cp_exchanges (release_capture ?s) = []"
    using release_capture_ok by (auto simp: capture_ok_def)
  then show ?thesis
    using True attempt_snapshot [of media_type calls]
    by (simp add: cap list_all_iff RoundTrip_def Finish_ptr_def Finish_def case_prod_beta)
qed

text \<open>One call that posts a body and is refused.\<close>

definition refused_call :: traced_call where
  "refused_call =
     \<lparr>tc_request = \<lparr>rq_Method = ''POST'', rq_URL = ''u'', rq_Header = [], rq_hasBody = True,
        rq_ContentLength = 2, rq_GetBody = None\<rparr>,
      tc_sent = [(''a'', None), (''b'', Some EOF)],
      tc_response = Some \<lparr>hs_StatusCode = 429, hs_Header = [], hs_hasBody = True\<rparr>,
      tc_error = None, tc_read = [(''slow '', None), (''down'', Some EOF)]\<rparr>"

theorem traced_attempt_end_to_end_witness:
  "(case Finish_ptr (Some zero_outcome) None
      (Some (run_calls (\<lambda>_. ''text/plain'') True [refused_call] new_Capture)) of
     (Some oc, _) \<Rightarrow>
       (case FinalErrorDiagnostic oc of
          Some d \<Rightarrow> UpstreamErrorBody d = ''slow down'' \<and> last (OutboundRequests d) =
            \<lparr>rd_Transport = ''http'', rd_Method = ''POST'', rd_URL = ''u'', rd_Headers = [],
             rd_Body = ''ab'', rd_StatusCode = 429, rd_BodyOriginalSize = 2\<rparr>
        | None \<Rightarrow> False)
   | _ \<Rightarrow> False)"
proof -
  have start: "Start False True = (True, Some new_Capture)" by (simp add: Start_def)
  have sse: "\<not> is_sse (\<lambda>_. ''text/plain'') \<lparr>hs_StatusCode = 429, hs_Header = [], hs_hasBody = True\<rparr>"
    by code_simp
  have small: "request_small refused_call" "response_small (\<lambda>_. ''text/plain'') refused_call"
    "error_body (\<lambda>_. ''text/plain'') refused_call = ''slow down''"
    "published refused_call =
       \<lparr>rd_Transport = ''http'', rd_Method = ''POST'', rd_URL = ''u'', rd_Headers = [],
        rd_Body = ''ab'', rd_StatusCode = 429, rd_BodyOriginalSize = 2\<rparr>"
    using sse
    by (simp_all add: request_small_def response_small_def error_body_def refused_call_def
        sent_body_def published_def call_head_def maxBodyBytes_def)
  have "Kind zero_outcome \<noteq> OutcomeSuccess" by (simp add: zero_outcome_def)
  then show ?thesis
    using traced_attempt_end_to_end [OF start, of "\<lambda>_. ''text/plain''" new_Capture "[refused_call]"
        zero_outcome None] small
    by (auto simp: attempt_published_def split: prod.splits option.splits)
qed

end
