(* ===== verification/ExtRouter.thy ===== *)
theory ExtRouter
  imports Prelude "HOL-Library.Multiset"
begin

text \<open>
  The router of extension plugins (\<^verbatim>\<open>runtimego/grpc/extension_router.go\<close>). The handlers are a Go
  map from method and path to a handler, \<open>None\<close> for a nil one; a group shares the map of its
  router and carries a prefix. Looking a route up walks the map, whose order Go leaves open: the
  association list is that order.
\<close>

section \<open>Routes\<close>

type_synonym 'h route_map = "(string, 'h option) gomap"

definition route_key :: "string \<Rightarrow> string \<Rightarrow> string" where
  "route_key m path = ToUpper m @ '' '' @ path"

definition router_Handle ::
  "string \<Rightarrow> string \<Rightarrow> string \<Rightarrow> 'h option \<Rightarrow> 'h route_map \<Rightarrow> 'h route_map" where
  "router_Handle pre m path handler r =
     (let fullPath = pre @ path; key = ToUpper m @ '' '' @ fullPath in AList.update key handler r)"

definition router_Group :: "string \<Rightarrow> string \<Rightarrow> string" where
  "router_Group pre p = pre @ p"

text \<open>The loop over the prefix routes.\<close>

fun match_loop ::
  "string \<Rightarrow> string \<Rightarrow> 'h route_map \<Rightarrow> 'h option \<Rightarrow> nat \<Rightarrow> 'h option" where
  "match_loop methodPrefix path [] bestHandler bestLen = bestHandler"
| "match_loop methodPrefix path ((routeKey, handler) # r) bestHandler bestLen =
     (if \<not> HasPrefix routeKey methodPrefix then match_loop methodPrefix path r bestHandler bestLen
      else
        (let routePath = TrimPrefix routeKey methodPrefix in
         if \<not> HasSuffix routePath ''/'' then match_loop methodPrefix path r bestHandler bestLen
         else if \<not> HasPrefix path routePath
         then match_loop methodPrefix path r bestHandler bestLen
         else if length routePath > bestLen
         then match_loop methodPrefix path r handler (length routePath)
         else match_loop methodPrefix path r bestHandler bestLen))"

definition route_match :: "string \<Rightarrow> string \<Rightarrow> 'h route_map \<Rightarrow> 'h option" where
  "route_match m path r =
     (let key = ToUpper m @ '' '' @ path in
      case map_of r key of
        Some (Some handler) \<Rightarrow> Some handler
      | _ \<Rightarrow> match_loop (ToUpper m @ '' '') path r None 0)"

text \<open>What a plugin does in \<^verbatim>\<open>RegisterRoutes\<close>: routes and groups, in order.\<close>

datatype 'h registration =
    Route string string "'h option"
  | Grouped string "'h registration list"

fun register :: "string \<Rightarrow> 'h registration \<Rightarrow> 'h route_map \<Rightarrow> 'h route_map" where
  "register pre (Route m path h) r = router_Handle pre m path h r"
| "register pre (Grouped p rs) r = fold (register (router_Group pre p)) rs r"

lemma register_ok: "gomap_ok r \<Longrightarrow> gomap_ok (register pre x r)"
proof (induction pre x r rule: register.induct)
  case (2 pre p rs r)
  have "gomap_ok (fold (register (router_Group pre p)) xs r')"
    if "set xs \<subseteq> set rs" "gomap_ok r'" for xs r'
    using that 2 by (induction xs arbitrary: r') auto
  then show ?case using 2 by simp
qed (simp add: router_Handle_def Let_def)

section \<open>Longest prefix\<close>

text \<open>
  The reference: the routes of the method that end in a slash and are a prefix of the path, from
  the longest prefix down. \<open>slash_route r mp path n\<close> is the one of length \<open>n\<close>.
\<close>

definition slash_route :: "'h route_map \<Rightarrow> string \<Rightarrow> string \<Rightarrow> nat \<Rightarrow> 'h option option" where
  "slash_route r mp path n =
     (if HasSuffix (take n path) ''/'' then map_of r (mp @ take n path) else None)"

fun longest_route ::
  "'h route_map \<Rightarrow> string \<Rightarrow> string \<Rightarrow> nat \<Rightarrow> nat \<Rightarrow> 'h option option" where
  "longest_route r mp path least 0 = None"
| "longest_route r mp path least (Suc n) =
     (if Suc n \<le> least then None
      else
        (case slash_route r mp path (Suc n) of
           Some h \<Rightarrow> Some h
         | None \<Rightarrow> longest_route r mp path least n))"

lemma longest_route_cong:
  "(\<And>n. least < n \<Longrightarrow> n \<le> N \<Longrightarrow> slash_route r mp path n = slash_route r' mp path n) \<Longrightarrow>
   longest_route r mp path least N = longest_route r' mp path least N"
  by (induction N) (auto split: option.split)

lemma longest_route_below: "N \<le> least \<Longrightarrow> longest_route r mp path least N = None"
  by (cases N) auto

lemma slash_route_Cons:
  assumes "n \<le> length path" and "\<not> (k = mp @ take n path \<and> HasSuffix (take n path) ''/'')"
  shows "slash_route ((k, h) # r) mp path n = slash_route r mp path n"
  using assms by (auto simp: slash_route_def)

lemma longest_route_Cons_above:
  assumes "least < n" "n \<le> length path" "HasSuffix (take n path) ''/''" "n \<le> N" "N \<le> length path"
  shows "longest_route ((mp @ take n path, h) # r) mp path least N =
    (case longest_route r mp path n N of None \<Rightarrow> Some h | Some h' \<Rightarrow> Some h')"
  using assms(4,5)
proof (induction N rule: nat_induct_at_least)
  case base
  then show ?case
    using assms by (cases n) (auto simp: longest_route_below slash_route_def)
next
  case (Suc N)
  have "mp @ take n path \<noteq> mp @ take (Suc N) path"
  proof -
    have "length (take n path) \<noteq> length (take (Suc N) path)" using Suc by simp
    then have "take n path \<noteq> take (Suc N) path" by metis
    then show ?thesis by simp
  qed
  then have "slash_route ((mp @ take n path, h) # r) mp path (Suc N) = slash_route r mp path (Suc N)"
    by (simp add: slash_route_def)
  then show ?case using Suc assms(1) by (auto split: option.split)
qed

lemma longest_route_Nil: "longest_route [] mp path least N = None"
  by (induction N) (auto simp: slash_route_def)

lemma match_loop_longest:
  "gomap_ok r \<Longrightarrow>
   match_loop mp path r best least =
     (case longest_route r mp path least (length path) of None \<Rightarrow> best | Some h \<Rightarrow> h)"
proof (induction r arbitrary: best least)
  case Nil
  then show ?case by (simp add: longest_route_Nil)
next
  case (Cons x r)
  obtain k h where x: "x = (k, h)" by (cases x)
  have ok: "gomap_ok r" and fresh: "map_of r k = None"
    using Cons.prems by (auto simp: gomap_ok_def x map_of_eq_None_iff)
  let ?n = "length (TrimPrefix k mp)"
  show ?case
  proof (cases "HasPrefix k mp \<and> HasSuffix (TrimPrefix k mp) ''/'' \<and>
      HasPrefix path (TrimPrefix k mp) \<and> ?n > least")
    case True
    then have route: "take ?n path = TrimPrefix k mp" "?n \<le> length path"
      by (auto simp: HasPrefix_def prefix_def)
    then have k: "k = mp @ take ?n path"
      using True HasPrefix_TrimPrefix by force
    have "longest_route ((k, h) # r) mp path least (length path) =
      (case longest_route r mp path ?n (length path) of None \<Rightarrow> Some h | Some h' \<Rightarrow> Some h')"
      using longest_route_Cons_above [of least ?n path "length path" mp h r] True route k by simp
    then show ?thesis
      using True Cons.IH [OF ok] by (simp add: x split: option.split)
  next
    case False
    have "slash_route ((k, h) # r) mp path n = slash_route r mp path n"
      if "least < n" "n \<le> length path" for n
    proof (rule slash_route_Cons [OF that(2)], rule notI, elim conjE)
      assume "k = mp @ take n path" "HasSuffix (take n path) ''/''"
      then show False using False that by (auto simp: HasPrefix_def take_is_prefix)
    qed
    then have "longest_route ((k, h) # r) mp path least (length path) =
        longest_route r mp path least (length path)"
      by (rule longest_route_cong)
    then show ?thesis
      using False Cons.IH [OF ok] by (auto simp: x Let_def)
  qed
qed

lemma map_of_mset:
  assumes "gomap_ok r" and "mset r = mset r'"
  shows "map_of r = map_of r'"
proof -
  have "mset (map fst r) = mset (map fst r')" by (simp add: assms(2))
  then have "distinct (map fst r')"
    using assms(1) mset_eq_imp_distinct_iff unfolding gomap_ok_def by blast
  then show ?thesis
    using assms map_of_inject_set mset_eq_setD unfolding gomap_ok_def by blast
qed

text \<open>
  C30: routes are matched by the longest prefix. On the map any registrations built, in any order
  Go may walk it, a request is answered by the handler of its exact path, or else by that of the
  longest registered path of the same method that ends in a slash and is a prefix of it, or else
  by none; a route registered with a nil handler hides the shorter ones.
\<close>
theorem route_match_longest:
  assumes "r = fold (register []) regs []" and "mset r = mset r'"
  shows "route_match m path r' =
    (case map_of r (route_key m path) of
       Some (Some h) \<Rightarrow> Some h
     | _ \<Rightarrow>
         (case longest_route r (route_key m []) path 0 (length path) of
            None \<Rightarrow> None
          | Some h \<Rightarrow> h))"
proof -
  have "gomap_ok (fold (register []) regs r)" if "gomap_ok r" for r :: "'a route_map"
    using that by (induction regs arbitrary: r) (simp_all add: register_ok)
  then have ok: "gomap_ok r" by (simp add: assms(1))
  note m = map_of_mset [OF ok assms(2)]
  have "gomap_ok r'"
    using ok assms(2) unfolding gomap_ok_def by (metis mset_eq_imp_distinct_iff mset_map)
  moreover have "longest_route r mp path 0 N = longest_route r' mp path 0 N" for mp N
    by (rule longest_route_cong) (simp add: slash_route_def m)
  ultimately show ?thesis
    unfolding route_match_def Let_def route_key_def m
    by (simp add: match_loop_longest split: option.split)
qed

definition example_routes :: "nat registration list" where
  "example_routes =
     [Grouped ''/a'' [Route ''GET'' ''/'' (Some 1), Route ''GET'' ''/b/'' (Some 2)],
      Route ''GET'' ''/a/b/c/d'' (Some 3)]"

lemma route_match_longest_witness:
  "route_match ''get'' ''/a/b/c'' (rev (fold (register []) example_routes [])) = Some 2"
proof -
  have "(case map_of (fold (register []) example_routes []) (route_key ''get'' ''/a/b/c'') of
       Some (Some h) \<Rightarrow> Some h
     | _ \<Rightarrow>
         (case longest_route (fold (register []) example_routes []) (route_key ''get'' []) ''/a/b/c'' 0
             (length ''/a/b/c'') of
            None \<Rightarrow> None
          | Some h \<Rightarrow> h)) = Some 2"
    by code_simp
  then show ?thesis
    by (subst route_match_longest [OF refl]) simp_all
qed

end
