(* ===== verification/Extension.thy ===== *)
theory Extension
  imports GatewayServer ExtRouter
begin

text \<open>
  Extension plugins: the server of \<^verbatim>\<open>runtimego/grpc/extension_server.go\<close>, the client of
  \<^verbatim>\<open>runtimego/grpc/extension_client.go\<close> and the task types of \<^verbatim>\<open>sdkgo/extension.go\<close> and
  \<^verbatim>\<open>sdkgo/task.go\<close>.

  A handler is a function from the request to a program over its response writer. What
  \<^verbatim>\<open>http.NewRequestWithContext\<close> answers, \<^verbatim>\<open>proto.Size\<close>, the fate of each \<^verbatim>\<open>Send\<close>, \<^verbatim>\<open>encoding/json\<close>
  and \<^verbatim>\<open>%q\<close> are parameters; log lines are left out.
\<close>

section \<open>Messages\<close>

record PbHttpRequest =
  pq_Method :: string
  pq_Path :: string
  pq_Query :: string
  pq_Headers :: pb_headers
  pq_Body :: bytes
  pq_RemoteAddr :: string

record PbHttpResponse =
  ps_StatusCode :: go_int32
  ps_Headers :: pb_headers
  ps_Body :: bytes

record HttpResponseChunk =
  hc_Data :: bytes
  hc_Done :: bool
  hc_StatusCode :: go_int32
  hc_Headers :: pb_headers

record http_request =
  hq_Method :: string
  hq_URL :: string
  hq_Header :: header
  hq_Body :: bytes
  hq_RemoteAddr :: string

type_synonym new_request = "string \<Rightarrow> string \<Rightarrow> bytes \<Rightarrow> go_error + http_request"
type_synonym http_handler = "http_request \<Rightarrow> unit writer_prog"

text \<open>
  The headers are read as \<^verbatim>\<open>vals.Values\<close>, which would panic for a nil entry; protobuf decodes none
  (a missing value is an empty message), so \<open>None\<close> stands for no values here.
\<close>

definition header_values :: "pb_headers \<Rightarrow> header" where
  "header_values ph = map (\<lambda>(k, v). (k, case v of None \<Rightarrow> [] | Some vs \<Rightarrow> vs)) ph"

definition pbRequestToHTTP :: "new_request \<Rightarrow> PbHttpRequest \<Rightarrow> go_error + http_request" where
  "pbRequestToHTTP newRequest req =
     (let url = (if pq_Query req \<noteq> [] then pq_Path req @ ''?'' @ pq_Query req else pq_Path req) in
      case newRequest (pq_Method req) url (pq_Body req) of
        Inl e \<Rightarrow> Inl e
      | Inr h \<Rightarrow>
          Inr (h\<lparr>hq_Header := add_all (header_values (pq_Headers req)) (hq_Header h),
                 hq_RemoteAddr := pq_RemoteAddr req\<rparr>))"

text \<open>Header keys travel in lower case; of two keys that differ in case one stays.\<close>

definition lower_headers :: "header \<Rightarrow> pb_headers" where
  "lower_headers h = fold (\<lambda>(k, vs). AList.update (ToLower k) (Some vs)) h []"

section \<open>The streaming writer\<close>

record ext_transport =
  et_fate :: "nat \<Rightarrow> go_error option"
  et_size :: "HttpResponseChunk \<Rightarrow> nat"
  et_response_size :: "PbHttpResponse \<Rightarrow> nat"

type_synonym chunk_log = "(HttpResponseChunk \<times> go_error option) list"

text \<open>\<open>srw_cancelled\<close>: \<^verbatim>\<open>onError\<close>, the cancellation of the handler's context, has been called.\<close>

record streamResponseWriter =
  srw_log :: chunk_log
  srw_header :: header
  srw_statusCode :: go_int
  srw_headerSent :: bool
  srw_err :: "go_error option"
  srw_cancelled :: bool

definition new_streamResponseWriter :: streamResponseWriter where
  "new_streamResponseWriter =
     \<lparr>srw_log = [], srw_header = [], srw_statusCode = 0, srw_headerSent = False, srw_err = None,
      srw_cancelled = False\<rparr>"

definition srw_Header :: "(header \<Rightarrow> header) \<Rightarrow> streamResponseWriter \<Rightarrow> streamResponseWriter" where
  "srw_Header f w = w\<lparr>srw_header := f (srw_header w)\<rparr>"

definition srw_WriteHeader :: "go_int \<Rightarrow> streamResponseWriter \<Rightarrow> streamResponseWriter" where
  "srw_WriteHeader c w = (if \<not> srw_headerSent w then w\<lparr>srw_statusCode := c\<rparr> else w)"

definition body_chunk :: "bytes \<Rightarrow> HttpResponseChunk" where
  "body_chunk d = \<lparr>hc_Data = d, hc_Done = False, hc_StatusCode = 0, hc_Headers = []\<rparr>"

definition default_status :: "go_int \<Rightarrow> go_int" where
  "default_status c = (if c = 0 then 200 else c)"

definition first_chunk :: "go_int \<Rightarrow> header \<Rightarrow> bytes \<Rightarrow> HttpResponseChunk" where
  "first_chunk c h d =
     (body_chunk d)\<lparr>hc_StatusCode := int32_of (default_status c), hc_Headers := lower_headers h\<rparr>"

text \<open>The next message for a slice: the first one carries status and headers.\<close>

definition srw_chunk ::
  "bytes \<Rightarrow> streamResponseWriter \<Rightarrow> HttpResponseChunk \<times> streamResponseWriter" where
  "srw_chunk d w =
     (if \<not> srw_headerSent w
      then
        (first_chunk (srw_statusCode w) (srw_header w) d,
         w\<lparr>srw_headerSent := True, srw_statusCode := default_status (srw_statusCode w)\<rparr>)
      else (body_chunk d, w))"

definition srw_send ::
  "ext_transport \<Rightarrow> HttpResponseChunk \<Rightarrow> streamResponseWriter \<Rightarrow>
   go_error option \<times> streamResponseWriter" where
  "srw_send t chunk w =
     (case checkResponseMessage (et_size t chunk) of
        Some e \<Rightarrow> (Some e, w)
      | None \<Rightarrow>
          (let e = et_fate t (length (srw_log w)) in (e, w\<lparr>srw_log := srw_log w @ [(chunk, e)]\<rparr>)))"

function srw_loop ::
  "ext_transport \<Rightarrow> bool \<Rightarrow> bytes \<Rightarrow> nat \<Rightarrow> streamResponseWriter \<Rightarrow>
   write_result \<times> streamResponseWriter" where
  "srw_loop t first data sent w =
     (if first \<or> length data > 0
      then
        (let n = min (length data) streamChunkSize;
             (chunk, w) = srw_chunk (take n data) w
         in case srw_send t chunk w of
              (Some e, w) \<Rightarrow> ((sent, Some e), w\<lparr>srw_err := Some e, srw_cancelled := True\<rparr>)
            | (None, w) \<Rightarrow> srw_loop t False (drop n data) (sent + n) w)
      else ((sent, None), w))"
  by pat_completeness auto
termination
  by (relation "measure (\<lambda>(t, first, data, sent, w). length data + (if first then 1 else 0))")
    auto

declare srw_loop.simps [simp del]

definition srw_Write ::
  "ext_transport \<Rightarrow> bytes \<Rightarrow> streamResponseWriter \<Rightarrow> write_result \<times> streamResponseWriter" where
  "srw_Write t data w =
     (case srw_err w of
        Some e \<Rightarrow> ((0, Some e), w)
      | None \<Rightarrow> srw_loop t True data 0 w)"

text \<open>\<^verbatim>\<open>Flush\<close> does nothing, and there is no \<^verbatim>\<open>BeginStreamCompletion\<close>.\<close>

definition response_ops :: "ext_transport \<Rightarrow> streamResponseWriter writer_ops" where
  "response_ops t =
     \<lparr>wr_header = srw_Header, wr_status = srw_WriteHeader, wr_write = srw_Write t,
      wr_begin = (\<lambda>w. w)\<rparr>"

section \<open>The server\<close>

text \<open>The router is \<open>None\<close> before \<^verbatim>\<open>initRouter\<close>, which runs the plugin's \<^verbatim>\<open>RegisterRoutes\<close>.\<close>

definition initRouter :: "'h registration list \<Rightarrow> 'h route_map option" where
  "initRouter routes = Some (fold (register []) routes [])"

definition error_response :: "go_int32 \<Rightarrow> bytes \<Rightarrow> PbHttpResponse" where
  "error_response code body = \<lparr>ps_StatusCode = code, ps_Headers = [], ps_Body = body\<rparr>"

definition recorded_response :: "bufferWriter \<Rightarrow> PbHttpResponse" where
  "recorded_response bw =
     \<lparr>ps_StatusCode = int32_of (default_status (bw_code bw)), ps_Headers = lower_headers (bw_headers bw),
      ps_Body = bw_body bw\<rparr>"

text \<open>A gRPC handler that returns an error sends no response.\<close>

definition HandleRequest ::
  "ext_transport \<Rightarrow> (bytes \<Rightarrow> string) \<Rightarrow> new_request \<Rightarrow> http_handler route_map option \<Rightarrow>
   PbHttpRequest \<Rightarrow> go_error + PbHttpResponse" where
  "HandleRequest t detect newRequest router req =
     (case router of
        None \<Rightarrow> Inr (error_response 501 ''{\"error\":\"extension router not initialized\"}'')
      | Some routes \<Rightarrow>
          (case route_match (pq_Method req) (pq_Path req) routes of
             None \<Rightarrow> Inr (error_response 404 ''{\"error\":\"route not found\"}'')
           | Some handler \<Rightarrow>
               (case pbRequestToHTTP newRequest req of
                  Inl _ \<Rightarrow> Inr (error_response 500 ''{\"error\":\"failed to convert request\"}'')
                | Inr httpReq \<Rightarrow>
                    (let (_, recorder, _) =
                           run_prog (buffer_ops detect) (handler httpReq) new_bufferWriter in
                     case bw_err recorder of
                       Some e \<Rightarrow> Inl e
                     | None \<Rightarrow>
                         (let response = recorded_response recorder in
                          case checkResponseMessage (et_response_size t response) of
                            Some e \<Rightarrow> Inl e
                          | None \<Rightarrow> Inr response)))))"

definition error_chunk :: "go_int32 \<Rightarrow> bytes \<Rightarrow> HttpResponseChunk" where
  "error_chunk code body = \<lparr>hc_Data = body, hc_Done = True, hc_StatusCode = code, hc_Headers = []\<rparr>"

definition done_chunk :: HttpResponseChunk where
  "done_chunk = \<lparr>hc_Data = [], hc_Done = True, hc_StatusCode = 0, hc_Headers = []\<rparr>"

text \<open>\<^verbatim>\<open>return stream.Send(chunk)\<close> after what the stream already has.\<close>

definition send_last ::
  "ext_transport \<Rightarrow> HttpResponseChunk \<Rightarrow> chunk_log \<Rightarrow> go_error option \<times> chunk_log" where
  "send_last t chunk log = (let e = et_fate t (length log) in (e, log @ [(chunk, e)]))"

definition HandleStreamRequest ::
  "ext_transport \<Rightarrow> new_request \<Rightarrow> http_handler route_map option \<Rightarrow> PbHttpRequest \<Rightarrow>
   go_error option \<times> chunk_log" where
  "HandleStreamRequest t newRequest router req =
     (case router of
        None \<Rightarrow>
          send_last t (error_chunk 501 ''{\"error\":\"extension router not initialized\"}'') []
      | Some routes \<Rightarrow>
          (case route_match (pq_Method req) (pq_Path req) routes of
             None \<Rightarrow> send_last t (error_chunk 404 ''{\"error\":\"route not found\"}'') []
           | Some handler \<Rightarrow>
               (case pbRequestToHTTP newRequest req of
                  Inl _ \<Rightarrow>
                    send_last t (error_chunk 500 ''{\"error\":\"failed to convert request\"}'') []
                | Inr httpReq \<Rightarrow>
                    (let (_, w, _) =
                           run_prog (response_ops t) (handler httpReq) new_streamResponseWriter in
                     case srw_err w of
                       Some e \<Rightarrow> (Some e, srw_log w)
                     | None \<Rightarrow> send_last t done_chunk (srw_log w)))))"

section \<open>Lemmas: the streaming writer\<close>

definition chunks_sent :: "chunk_log \<Rightarrow> HttpResponseChunk list" where
  "chunks_sent log = map fst (filter (\<lambda>x. snd x = None) log)"

definition srw_body :: "streamResponseWriter \<Rightarrow> bytes" where
  "srw_body w = concat (map hc_Data (chunks_sent (srw_log w)))"

lemma chunks_sent_simps [simp]:
  "chunks_sent [] = []" "chunks_sent (xs @ ys) = chunks_sent xs @ chunks_sent ys"
  "chunks_sent ((c, None) # xs) = c # chunks_sent xs" "chunks_sent ((c, Some e) # xs) = chunks_sent xs"
  by (simp_all add: chunks_sent_def)

definition is_body :: "HttpResponseChunk \<Rightarrow> bool" where
  "is_body c \<longleftrightarrow> c = body_chunk (hc_Data c)"

lemma ext_chunk_fields [simp]:
  "hc_Data (body_chunk d) = d" "hc_Data (first_chunk c h d) = d" "is_body (body_chunk d)"
  "\<not> hc_Done (body_chunk d)" "\<not> hc_Done (first_chunk c h d)"
  by (simp_all add: body_chunk_def first_chunk_def is_body_def)

definition srw_inv :: "streamResponseWriter \<Rightarrow> bool" where
  "srw_inv w \<longleftrightarrow>
     (\<not> srw_headerSent w \<longrightarrow> srw_log w = [] \<and> srw_err w = None)
     \<and> (srw_headerSent w \<and> srw_err w = None \<longrightarrow> srw_log w \<noteq> [])
     \<and> (\<forall>x \<in> set (tl (srw_log w)). is_body (fst x))
     \<and> (\<forall>x \<in> set (srw_log w). \<not> hc_Done (fst x) \<and> length (hc_Data (fst x)) \<le> streamChunkSize)
     \<and> (srw_err w = None \<longrightarrow> (\<forall>x \<in> set (srw_log w). snd x = None))
     \<and> (srw_err w \<noteq> None \<longleftrightarrow> srw_cancelled w)"

lemma new_srw_inv [simp]: "srw_inv new_streamResponseWriter"
  by (simp add: srw_inv_def new_streamResponseWriter_def)

definition next_chunk :: "bytes \<Rightarrow> streamResponseWriter \<Rightarrow> HttpResponseChunk" where
  "next_chunk d w = fst (srw_chunk d w)"

lemma next_chunk_fields [simp]:
  "hc_Data (next_chunk d w) = d" "\<not> hc_Done (next_chunk d w)"
  "srw_headerSent w \<Longrightarrow> next_chunk d w = body_chunk d"
  "\<not> srw_headerSent w \<Longrightarrow> next_chunk d w = first_chunk (srw_statusCode w) (srw_header w) d"
  by (simp_all add: next_chunk_def srw_chunk_def)

text \<open>One message.\<close>

lemma srw_step:
  assumes "srw_inv w" "srw_err w = None" "length d \<le> streamChunkSize"
    and "srw_chunk d w = (c, w1)" "srw_send t c w1 = (e, w2)"
  shows "case e of
      None \<Rightarrow> srw_inv w2 \<and> srw_err w2 = None \<and> srw_headerSent w2 \<and> srw_body w2 = srw_body w @ d
        \<and> srw_log w2 = srw_log w @ [(next_chunk d w, None)]
    | Some er \<Rightarrow>
        (let w3 = w2\<lparr>srw_err := Some er, srw_cancelled := True\<rparr> in
         srw_inv w3 \<and> srw_body w3 = srw_body w
         \<and> (srw_log w3 = srw_log w \<or> srw_log w3 = srw_log w @ [(next_chunk d w, Some er)]))"
proof -
  have c: "c = next_chunk d w" "srw_log w1 = srw_log w" "srw_headerSent w1" "srw_err w1 = srw_err w"
    "srw_cancelled w1 = srw_cancelled w"
    using assms(4) by (auto simp: next_chunk_def srw_chunk_def split: if_splits)
  have tail: "is_body (next_chunk d w) \<or> srw_log w = []"
    using assms(1,2) by (cases "srw_headerSent w") (auto simp: srw_inv_def)
  show ?thesis
  proof (cases "checkResponseMessage (et_size t c)")
    case (Some er)
    then have "e = Some er" "w2 = w1" using assms(5) by (simp_all add: srw_send_def)
    then show ?thesis
      using assms(1-3) c by (simp add: srw_inv_def srw_body_def Let_def)
  next
    case None
    then have w2: "e = et_fate t (length (srw_log w))" "w2 = w1\<lparr>srw_log := srw_log w @ [(c, e)]\<rparr>"
      using assms(5) c by (auto simp: srw_send_def Let_def)
    have "\<forall>x \<in> set (tl (srw_log w @ [(c, e)])). is_body (fst x)"
      using assms(1) tail by (cases "srw_log w") (auto simp: srw_inv_def c)
    then show ?thesis
      using assms(1-3) c w2 by (auto simp: srw_inv_def srw_body_def split: option.split)
  qed
qed

text \<open>One Write.\<close>

definition wrote ::
  "bytes \<Rightarrow> nat \<Rightarrow> streamResponseWriter \<Rightarrow> write_result \<Rightarrow> streamResponseWriter \<Rightarrow> bool" where
  "wrote d sent w res w' \<longleftrightarrow>
     srw_inv w' \<and> srw_err w' = snd res \<and> prefix (srw_log w) (srw_log w')
     \<and> (case snd res of
          None \<Rightarrow> fst res = sent + length d \<and> srw_body w' = srw_body w @ d
        | Some _ \<Rightarrow> sent \<le> fst res \<and> fst res \<le> sent + length d
            \<and> srw_body w' = srw_body w @ take (fst res - sent) d)"

lemma srw_loop_end: "srw_loop t False [] sent w = ((sent, None), w)"
  by (simp add: srw_loop.simps [of t False])

lemma srw_loop_wrote:
  "srw_inv w \<Longrightarrow> srw_err w = None \<Longrightarrow> first \<or> srw_headerSent w \<Longrightarrow>
   srw_loop t first d sent w = (res, w') \<Longrightarrow> wrote d sent w res w'"
proof (induction "length d + (if first then 1 else 0)" arbitrary: first d sent w rule: less_induct)
  case less
  show ?case
  proof (cases "first \<or> length d > 0")
    case False
    then show ?thesis
      using less.prems by (auto simp: srw_loop_end wrote_def)
  next
    case True
    define n where "n = min (length d) streamChunkSize"
    obtain c w1 where c: "srw_chunk (take n d) w = (c, w1)" by force
    obtain e w2 where send: "srw_send t c w1 = (e, w2)" by force
    have n: "length (take n d) \<le> streamChunkSize" by (simp add: n_def)
    note step = srw_step [OF less.prems(1,2) n c send]
    have loop: "srw_loop t first d sent w =
        (case e of
           Some e \<Rightarrow> ((sent, Some e), w2\<lparr>srw_err := Some e, srw_cancelled := True\<rparr>)
         | None \<Rightarrow> srw_loop t False (drop n d) (sent + n) w2)"
      using True c send
      by (subst srw_loop.simps) (simp add: n_def Let_def split: option.split)
    show ?thesis
    proof (cases e)
      case (Some er)
      then show ?thesis
        using step loop less.prems(4) by (auto simp: wrote_def Let_def)
    next
      case None
      then have ok: "srw_inv w2" "srw_err w2 = None" "srw_headerSent w2"
        "srw_body w2 = srw_body w @ take n d" "prefix (srw_log w) (srw_log w2)"
        using step by auto
      have rest: "srw_loop t False (drop n d) (sent + n) w2 = (res, w')"
        using loop None less.prems(4) by simp
      have "length (drop n d) + 0 < length d + (if first then 1 else 0)"
        using True by (auto simp: n_def)
      then have "wrote (drop n d) (sent + n) w2 res w'"
        using less.hyps [of "drop n d" False w2 "sent + n"] ok rest by simp
      moreover have "take n d @ take (m - (sent + n)) (drop n d) = take (m - sent) d"
        if "sent + n \<le> m" for m
      proof -
        have "m - sent = n + (m - (sent + n))" using that by simp
        then show ?thesis by (simp only: take_add)
      qed
      moreover have "n \<le> length d" by (simp add: n_def)
      ultimately show ?thesis
        using ok prefix_order.trans [OF ok(5)]
        by (cases "snd res") (auto simp: wrote_def)
    qed
  qed
qed

lemma srw_Write_wrote:
  assumes "srw_inv w" and "srw_Write t d w = ((n, e), w')"
  shows "case srw_err w of None \<Rightarrow> wrote d 0 w (n, e) w' | Some er \<Rightarrow> n = 0 \<and> e = Some er \<and> w' = w"
  using assms srw_loop_wrote [OF assms(1), of True t d 0 "(n, e)" w']
  by (auto simp: srw_Write_def split: option.splits)

lemma response_ops_simps [simp]:
  "wr_header (response_ops t) = srw_Header" "wr_status (response_ops t) = srw_WriteHeader"
  "wr_write (response_ops t) = srw_Write t" "wr_begin (response_ops t) w = w"
  by (simp_all add: response_ops_def)

lemma srw_op_keeps [simp]:
  "srw_body (srw_Header f w) = srw_body w" "srw_err (srw_Header f w) = srw_err w"
  "srw_inv (srw_Header f w) = srw_inv w" "srw_headerSent (srw_Header f w) = srw_headerSent w"
  "srw_log (srw_Header f w) = srw_log w" "srw_header (srw_Header f w) = f (srw_header w)"
  "srw_statusCode (srw_Header f w) = srw_statusCode w"
  "srw_body (srw_WriteHeader c w) = srw_body w" "srw_err (srw_WriteHeader c w) = srw_err w"
  "srw_inv (srw_WriteHeader c w) = srw_inv w"
  "srw_headerSent (srw_WriteHeader c w) = srw_headerSent w"
  "srw_log (srw_WriteHeader c w) = srw_log w" "srw_header (srw_WriteHeader c w) = srw_header w"
  "\<not> srw_headerSent w \<Longrightarrow> srw_statusCode (srw_WriteHeader c w) = c"
  by (simp_all add: srw_Header_def srw_WriteHeader_def srw_inv_def srw_body_def)

interpretation ext_writer: response_writer "response_ops t" srw_body srw_err srw_inv for t
proof unfold_locales
  show "n = length d \<and> srw_body w' = srw_body w @ d \<and> srw_err w' = None \<and> srw_err w = None \<and>
      srw_inv w'"
    if "srw_inv w" "wr_write (response_ops t) d w = ((n, None), w')" for w d n w'
    using that srw_Write_wrote [of w t d n None w'] by (auto simp: wrote_def split: option.splits)
  show "n \<le> length d \<and> prefix (srw_body w') (srw_body w @ d) \<and> srw_err w' = Some e \<and> srw_inv w'"
    if "srw_inv w" "wr_write (response_ops t) d w = ((n, Some e), w')" for w d n e w'
    using that srw_Write_wrote [of w t d n "Some e" w']
    by (auto simp: wrote_def take_is_prefix split: option.splits)
qed (auto simp: srw_Write_def)

text \<open>The head of a response: headers and status at the handler's first Write.\<close>

primrec ext_head :: "'r writer_prog \<Rightarrow> header \<Rightarrow> go_int \<Rightarrow> header \<times> go_int" where
  "ext_head (Return r) h c = (h, c)"
| "ext_head (OnHeader f p) h c = ext_head p (f h) c"
| "ext_head (CallWriteHeader s p) h c = ext_head p h s"
| "ext_head (CallBeginCompletion p) h c = ext_head p h c"
| "ext_head (CallWrite d k) h c = (h, c)"

lemma srw_Write_first:
  assumes "srw_inv w" "\<not> srw_headerSent w" "srw_Write t d w = (res, w')"
  shows "srw_headerSent w' \<and>
    (srw_log w' = [] \<and> srw_err w' \<noteq> None \<or>
     (\<exists>d' r xs. srw_log w' = (first_chunk (srw_statusCode w) (srw_header w) d', r) # xs))"
proof -
  have err: "srw_err w = None" and log: "srw_log w = []"
    using assms(1,2) by (auto simp: srw_inv_def)
  define n where "n = min (length d) streamChunkSize"
  obtain c w1 where c: "srw_chunk (take n d) w = (c, w1)" by force
  obtain e w2 where send: "srw_send t c w1 = (e, w2)" by force
  have "length (take n d) \<le> streamChunkSize" by (simp add: n_def)
  note step = srw_step [OF assms(1) err this c send]
  have sent: "srw_headerSent w2"
    using c send by (auto simp: srw_chunk_def srw_send_def Let_def split: if_splits option.splits)
  have loop: "(res, w') = (case e of
      Some e \<Rightarrow> ((0, Some e), w2\<lparr>srw_err := Some e, srw_cancelled := True\<rparr>)
    | None \<Rightarrow> srw_loop t False (drop n d) n w2)"
    using assms(3) err c send
    by (cases e) (simp_all add: srw_Write_def srw_loop.simps [of t True] n_def Let_def)
  show ?thesis
  proof (cases e)
    case (Some er)
    then show ?thesis using step loop log sent assms(2) by (auto simp: Let_def)
  next
    case None
    then have "wrote (drop n d) n w2 res w'"
      using step loop sent srw_loop_wrote [of w2 False t "drop n d" n res w'] by simp
    then show ?thesis
      using step None log assms(2) by (auto simp: wrote_def prefix_def srw_inv_def)
  qed
qed

lemma srw_run_prefix:
  "srw_inv w \<Longrightarrow> run_prog (response_ops t) p w = (r, w', tr) \<Longrightarrow> prefix (srw_log w) (srw_log w')"
proof (induction p arbitrary: w r w' tr)
  case (CallWrite d k)
  from CallWrite.prems(2) show ?case
  proof (rule run_write_cases)
    fix n e w1 tr'
    assume 1: "wr_write (response_ops t) d w = ((n, e), w1)"
      "run_prog (response_ops t) (k (n, e)) w1 = (r, w', tr')"
    have "prefix (srw_log w) (srw_log w1)"
      using srw_Write_wrote [OF CallWrite.prems(1), of t d n e w1] 1(1)
      by (auto simp: wrote_def split: option.splits)
    moreover have "prefix (srw_log w1) (srw_log w')"
      using CallWrite.IH [OF _ ext_writer.write_inv [OF CallWrite.prems(1) 1(1)] 1(2)] by simp
    ultimately show ?thesis by (rule prefix_order.trans)
  qed
next
  case (OnHeader f p)
  show ?case using OnHeader.IH [of "srw_Header f w" r w' tr] OnHeader.prems by simp
next
  case (CallWriteHeader c p)
  show ?case using CallWriteHeader.IH [of "srw_WriteHeader c w" r w' tr] CallWriteHeader.prems by simp
qed auto

lemma srw_run_stopped:
  "srw_inv w \<Longrightarrow> srw_err w = Some e \<Longrightarrow> run_prog (response_ops t) p w = (r, w', tr) \<Longrightarrow>
   srw_log w' = srw_log w \<and> srw_err w' = Some e"
proof (induction p arbitrary: w r w' tr)
  case (CallWrite d k)
  from CallWrite.prems(3) show ?case
  proof (rule run_write_cases)
    fix n er w1 tr'
    assume 1: "wr_write (response_ops t) d w = ((n, er), w1)"
      "run_prog (response_ops t) (k (n, er)) w1 = (r, w', tr')"
    then have "w1 = w" using CallWrite.prems(2) by (simp add: srw_Write_def)
    then show ?thesis
      using CallWrite.IH [of "k (n, er)" w r w' tr'] CallWrite.prems(1,2) 1(2) by simp
  qed
next
  case (OnHeader f p)
  show ?case using OnHeader.IH [of "srw_Header f w" r w' tr] OnHeader.prems by simp
next
  case (CallWriteHeader c p)
  show ?case using CallWriteHeader.IH [of "srw_WriteHeader c w" r w' tr] CallWriteHeader.prems by simp
next
  case (CallBeginCompletion p)
  show ?case using CallBeginCompletion.IH [of w r w' tr] CallBeginCompletion.prems by simp
qed simp

lemma srw_run_head:
  "srw_inv w \<Longrightarrow> \<not> srw_headerSent w \<Longrightarrow> run_prog (response_ops t) p w = (r, w', tr) \<Longrightarrow>
   ext_head p (srw_header w) (srw_statusCode w) = (h, c) \<Longrightarrow>
   (if tr = [] then srw_log w' = [] \<and> srw_err w' = None
    else srw_log w' = [] \<and> srw_err w' \<noteq> None \<or> (\<exists>d r xs. srw_log w' = (first_chunk c h d, r) # xs))"
proof (induction p arbitrary: w r w' tr)
  case (CallWrite d k)
  from CallWrite.prems(3) show ?case
  proof (rule run_write_cases)
    fix n e w1 tr'
    assume 1: "wr_write (response_ops t) d w = ((n, e), w1)"
      "run_prog (response_ops t) (k (n, e)) w1 = (r, w', tr')" "tr = (d, n, e) # tr'"
    have inv1: "srw_inv w1" by (rule ext_writer.write_inv [OF CallWrite.prems(1) 1(1)])
    have first: "srw_log w1 = [] \<and> srw_err w1 \<noteq> None \<or>
        (\<exists>d' r xs. srw_log w1 = (first_chunk c h d', r) # xs)"
      using srw_Write_first [OF CallWrite.prems(1,2)] 1(1) CallWrite.prems(4) by simp
    have "srw_log w' = [] \<and> srw_err w' \<noteq> None" if "srw_err w1 = Some er" "srw_log w1 = []" for er
      using srw_run_stopped [OF inv1 that(1) 1(2)] that(2) by simp
    then show ?thesis
      using first srw_run_prefix [OF inv1 1(2)] 1(3) by (auto simp: prefix_def)
  qed
next
  case (OnHeader f p)
  show ?case using OnHeader.IH [of "srw_Header f w" r w' tr] OnHeader.prems by simp
next
  case (CallWriteHeader s p)
  show ?case using CallWriteHeader.IH [of "srw_WriteHeader s w" r w' tr] CallWriteHeader.prems by simp
next
  case (CallBeginCompletion p)
  show ?case using CallBeginCompletion.IH [of w r w' tr] CallBeginCompletion.prems by simp
next
  case (Return x)
  then show ?case by (simp add: srw_inv_def)
qed

section \<open>Requests\<close>

text \<open>The handler and its request, when the server gets that far.\<close>

definition routed ::
  "new_request \<Rightarrow> http_handler route_map \<Rightarrow> PbHttpRequest \<Rightarrow> unit writer_prog option" where
  "routed newRequest routes req =
     (case route_match (pq_Method req) (pq_Path req) routes of
        None \<Rightarrow> None
      | Some handler \<Rightarrow>
          (case pbRequestToHTTP newRequest req of Inl _ \<Rightarrow> None | Inr h \<Rightarrow> Some (handler h)))"

lemma HandleStreamRequest_routed:
  assumes "routed newRequest routes req = Some p"
    and "run_prog (response_ops t) p new_streamResponseWriter = (r, w, tr)"
  shows "HandleStreamRequest t newRequest (Some routes) req =
    (case srw_err w of Some e \<Rightarrow> (Some e, srw_log w) | None \<Rightarrow> send_last t done_chunk (srw_log w))"
  using assms
  by (auto simp: routed_def HandleStreamRequest_def split: option.splits sum.splits)

lemma HandleRequest_routed:
  assumes "routed newRequest routes req = Some p"
    and "run_prog (buffer_ops detect) p new_bufferWriter = (r, bw, tr)"
  shows "HandleRequest t detect newRequest (Some routes) req =
    (case bw_err bw of
       Some e \<Rightarrow> Inl e
     | None \<Rightarrow>
         (case checkResponseMessage (et_response_size t (recorded_response bw)) of
            Some e \<Rightarrow> Inl e
          | None \<Rightarrow> Inr (recorded_response bw)))"
  using assms
  by (auto simp: routed_def HandleRequest_def Let_def split: option.splits sum.splits)

lemma chunks_sent_all: "\<forall>x \<in> set log. snd x = None \<Longrightarrow> chunks_sent log = map fst log"
  by (simp add: chunks_sent_def)

lemma sent_in_full:
  assumes "run_prog (response_ops t) p new_streamResponseWriter = (r, w, tr)"
    and "ext_head p [] 0 = (h, c)" and "srw_err w = None"
  shows "srw_log w = map (\<lambda>m. (m, None)) (map fst (srw_log w)) \<and>
         concat (map hc_Data (map fst (srw_log w))) = written tr \<and>
         list_all (\<lambda>m. \<not> hc_Done m \<and> length (hc_Data m) \<le> streamChunkSize) (map fst (srw_log w)) \<and>
         (case map fst (srw_log w) of
            [] \<Rightarrow> tr = []
          | m # ms \<Rightarrow> m = first_chunk c h (hc_Data m) \<and> list_all is_body ms)"
proof -
  have inv: "srw_inv w" by (rule ext_writer.run_inv [OF new_srw_inv assms(1)])
  have new: "srw_err new_streamResponseWriter = None" "srw_body new_streamResponseWriter = []"
    "\<not> srw_headerSent new_streamResponseWriter"
    "srw_header new_streamResponseWriter = []" "srw_statusCode new_streamResponseWriter = 0"
    by (simp_all add: new_streamResponseWriter_def srw_body_def)
  have cons: "ext_writer.conserved new_streamResponseWriter w tr"
    by (rule ext_writer.run_conserves [OF new_srw_inv new(1) assms(1)])
  note head = srw_run_head [OF new_srw_inv new(3) assms(1), of h c, unfolded new, OF assms(2)]
  have ok: "\<forall>x \<in> set (srw_log w). snd x = None" using inv assms(3) by (simp add: srw_inv_def)
  have "srw_log w = map (\<lambda>m. (m, None)) (map fst (srw_log w))"
    using ok by (simp add: comp_def) (rule sym, simp add: map_idI prod_eq_iff)
  moreover have "concat (map hc_Data (map fst (srw_log w))) = written tr"
    using cons new assms(3) chunks_sent_all [OF ok]
    by (simp add: ext_writer.conserved_def srw_body_def)
  moreover have "list_all (\<lambda>m. \<not> hc_Done m \<and> length (hc_Data m) \<le> streamChunkSize)
      (map fst (srw_log w))"
    using inv by (auto simp: srw_inv_def list_all_iff)
  moreover have "case map fst (srw_log w) of [] \<Rightarrow> tr = []
      | m # ms \<Rightarrow> m = first_chunk c h (hc_Data m) \<and> list_all is_body ms"
    using head assms(3) inv
    by (cases "srw_log w") (auto simp: srw_inv_def list_all_iff split: if_splits)
  ultimately show ?thesis by blast
qed

text \<open>
  C28: a streamed response is complete or a marked prefix. When the call returns no error, every
  message was sent, the first carries the status (200 when unset) and the headers the handler had
  at its first Write, the others carry none, their data is all the handler wrote, in slices within
  the size limit, and the last message alone says done and carries nothing; when it returns an
  error, what was sent is a prefix of what the handler wrote and nothing sent says done.
\<close>
theorem stream_request_delivers:
  assumes "routed newRequest routes req = Some p"
    and "run_prog (response_ops t) p new_streamResponseWriter = (r, w, tr)"
    and "ext_head p [] 0 = (h, c)"
    and "HandleStreamRequest t newRequest (Some routes) req = (e, log)"
  shows "case e of
      None \<Rightarrow>
        \<exists>cs. log = map (\<lambda>m. (m, None)) (cs @ [done_chunk])
          \<and> concat (map hc_Data cs) = written tr
          \<and> list_all (\<lambda>m. \<not> hc_Done m \<and> length (hc_Data m) \<le> streamChunkSize) cs
          \<and> (case cs of
               [] \<Rightarrow> tr = []
             | m # ms \<Rightarrow> m = first_chunk c h (hc_Data m) \<and> list_all is_body ms)
    | Some er \<Rightarrow>
        prefix (concat (map hc_Data (chunks_sent log))) (written tr)
        \<and> list_all (\<lambda>m. \<not> hc_Done m) (chunks_sent log)"
proof -
  have inv: "srw_inv w" by (rule ext_writer.run_inv [OF new_srw_inv assms(2)])
  have new: "srw_err new_streamResponseWriter = None" "srw_body new_streamResponseWriter = []"
    by (simp_all add: new_streamResponseWriter_def srw_body_def)
  have nodone: "list_all (\<lambda>m. \<not> hc_Done m) (chunks_sent (srw_log w))"
    using inv by (auto simp: srw_inv_def chunks_sent_def list_all_iff)
  have pre: "prefix (srw_body w) (written tr)"
    using ext_writer.run_conserves [OF new_srw_inv new(1) assms(2)] new
    by (auto simp: ext_writer.conserved_def split: option.splits)
  note out = HandleStreamRequest_routed [OF assms(1,2)] assms(4)
  show ?thesis
  proof (cases "srw_err w")
    case (Some er)
    then show ?thesis
      using out nodone pre by (auto simp: srw_body_def)
  next
    case None
    have log: "log = srw_log w @ [(done_chunk, e)]"
      using out None by (auto simp: send_last_def Let_def)
    show ?thesis
    proof (cases e)
      case (Some er)
      then show ?thesis using log pre nodone by (simp add: srw_body_def)
    next
      case last: None
      note full = sent_in_full [OF assms(2,3) None]
      then have "log = map (\<lambda>m. (m, None)) (map fst (srw_log w) @ [done_chunk])"
        by (simp only: log last map_append list.map)
      then show ?thesis
        using full unfolding last option.case by blast
    qed
  qed
qed

definition example_transport :: ext_transport where
  "example_transport = \<lparr>et_fate = (\<lambda>_. None), et_size = (\<lambda>_. 0), et_response_size = (\<lambda>_. 0)\<rparr>"

definition example_request :: PbHttpRequest where
  "example_request =
     \<lparr>pq_Method = ''get'', pq_Path = ''/x/1'', pq_Query = ''q=1'', pq_Headers = [(''a'', Some [''b''])],
      pq_Body = [], pq_RemoteAddr = []\<rparr>"

definition accept_request :: new_request where
  "accept_request m url body =
     Inr \<lparr>hq_Method = m, hq_URL = url, hq_Header = [], hq_Body = body, hq_RemoteAddr = []\<rparr>"

definition routes_to :: "unit writer_prog \<Rightarrow> http_handler route_map" where
  "routes_to p = register [] (Route ''GET'' ''/x/'' (Some (\<lambda>_. p))) []"

lemma routed_example: "routed accept_request (routes_to p) example_request = Some p"
proof -
  have "ToUpper ''get'' = ''GET''" "ToUpper ''GET'' = ''GET''" by code_simp+
  moreover have "HasPrefix ''GET /x/'' ''GET ''" "TrimPrefix ''GET /x/'' ''GET '' = ''/x/''"
    "HasSuffix ''/x/'' ''/''" "HasPrefix ''/x/1'' ''/x/''" by code_simp+
  ultimately have "route_match ''get'' ''/x/1'' (routes_to p) = Some (\<lambda>_. p)"
    by (simp add: route_match_def routes_to_def router_Handle_def)
  then show ?thesis
    by (simp add: routed_def example_request_def pbRequestToHTTP_def accept_request_def)
qed

definition created :: "unit writer_prog" where
  "created = CallWriteHeader 201 (CallWrite ''hi'' (\<lambda>_. Return ()))"

lemma example_stream_run:
  "run_prog (response_ops example_transport) created new_streamResponseWriter =
     ((), \<lparr>srw_log = [(first_chunk 201 [] ''hi'', None)], srw_header = [], srw_statusCode = 201,
       srw_headerSent = True, srw_err = None, srw_cancelled = False\<rparr>, [(''hi'', 2, None)])"
  by (simp add: created_def srw_Write_def srw_loop.simps [of _ True] srw_loop_end srw_chunk_def
      srw_send_def srw_WriteHeader_def new_streamResponseWriter_def example_transport_def
      streamChunkSize_def checkResponseMessage_def default_status_def Let_def)

lemma stream_request_delivers_witness:
  "\<exists>cs. snd (HandleStreamRequest example_transport accept_request (Some (routes_to created))
       example_request) = map (\<lambda>m. (m, None)) (cs @ [done_chunk])
     \<and> concat (map hc_Data cs) = ''hi'' \<and> hc_StatusCode (hd cs) = 201"
proof -
  obtain e log where out: "HandleStreamRequest example_transport accept_request
      (Some (routes_to created)) example_request = (e, log)" by force
  have e: "e = None"
    using out HandleStreamRequest_routed [OF routed_example example_stream_run]
    by (simp add: send_last_def example_transport_def)
  have head: "ext_head created [] 0 = ([], 201)" by (simp add: created_def)
  obtain cs where cs: "log = map (\<lambda>m. (m, None)) (cs @ [done_chunk])"
    "concat (map hc_Data cs) = written [(''hi'', 2, None)]"
    "case cs of [] \<Rightarrow> [(''hi'', 2 :: nat, None :: go_error option)] = []
     | m # ms \<Rightarrow> m = first_chunk 201 [] (hc_Data m) \<and> list_all is_body ms"
    using stream_request_delivers [OF routed_example example_stream_run head out]
    unfolding e option.case by blast
  then have "hd cs = first_chunk 201 [] (hc_Data (hd cs))" by (cases cs) auto
  then have "hc_StatusCode (hd cs) = int32_of (default_status 201)"
    by (metis HttpResponseChunk.select_convs(3) HttpResponseChunk.update_convs(3,4) first_chunk_def
        body_chunk_def)
  then show ?thesis
    using out cs(1,2) by (auto simp: default_status_def int32_of_def)
qed

section \<open>Background tasks\<close>

text \<open>
  A task's handler acts on the plugin's state \<open>'p\<close>; a nil handler is \<open>None\<close>. The interval is a
  \<^verbatim>\<open>time.Duration\<close>.
\<close>

type_synonym 'p task_handler = "'p \<Rightarrow> go_error option \<times> 'p"

record 'p BackgroundTask =
  bt_Name :: string
  bt_Interval :: duration
  bt_Handler :: "'p task_handler option"

record BackgroundTaskProto =
  tp_Name :: string
  tp_IntervalMs :: go_int

type_synonym 'p task_map = "(string, 'p task_handler option) gomap"

text \<open>\<open>tasks\<close> is what \<^verbatim>\<open>Impl.BackgroundTasks()\<close> returns at the call.\<close>

definition GetBackgroundTasks ::
  "'p BackgroundTask list \<Rightarrow> 'p task_map \<Rightarrow> BackgroundTaskProto list \<times> 'p task_map" where
  "GetBackgroundTasks tasks taskMap =
     (map (\<lambda>t. \<lparr>tp_Name = bt_Name t, tp_IntervalMs = Milliseconds (bt_Interval t)\<rparr>) tasks,
      fold (\<lambda>t. AList.update (bt_Name t) (bt_Handler t)) tasks [])"

definition task_not_found :: "(string \<Rightarrow> string) \<Rightarrow> string \<Rightarrow> go_error" where
  "task_not_found quote name = ErrMsg (''background task '' @ quote name @ '' not found'')"

definition RunBackgroundTask ::
  "(string \<Rightarrow> string) \<Rightarrow> 'p BackgroundTask list \<Rightarrow> string \<Rightarrow> 'p task_map \<Rightarrow> 'p \<Rightarrow>
   go_error option \<times> 'p task_map \<times> 'p" where
  "RunBackgroundTask quote tasks name taskMap p =
     (let taskMap = (if map_of taskMap name = None then snd (GetBackgroundTasks tasks taskMap)
                     else taskMap) in
      case map_of taskMap name of
        Some (Some handler) \<Rightarrow> (let (e, p) = handler p in (e, taskMap, p))
      | _ \<Rightarrow> (Some (task_not_found quote name), taskMap, p))"

text \<open>The client's view: handlers do not cross the process border.\<close>

definition client_BackgroundTasks ::
  "go_error + BackgroundTaskProto list \<Rightarrow> 'p BackgroundTask list" where
  "client_BackgroundTasks resp =
     (case resp of
        Inl _ \<Rightarrow> []
      | Inr ts \<Rightarrow>
          map (\<lambda>t. \<lparr>bt_Name = tp_Name t, bt_Interval = duration_of_ms (tp_IntervalMs t),
                    bt_Handler = None\<rparr>) ts)"

section \<open>Asynchronous tasks\<close>

type_synonym TaskStatus = string

definition TaskStatusPending :: TaskStatus where "TaskStatusPending = ''pending''"
definition TaskStatusProcessing :: TaskStatus where "TaskStatusProcessing = ''processing''"
definition TaskStatusCompleted :: TaskStatus where "TaskStatusCompleted = ''completed''"
definition TaskStatusFailed :: TaskStatus where "TaskStatusFailed = ''failed''"
definition TaskStatusCancelled :: TaskStatus where "TaskStatusCancelled = ''cancelled''"

text \<open>
  A map of type \<open>'v\<close> is \<open>None\<close> when it is nil. A time is the number of nanoseconds since Go's zero
  time.
\<close>

record 'v HostTask =
  ht_ID :: go_int
  ht_PublicTaskID :: string
  ht_PluginID :: string
  ht_TaskType :: string
  ht_Status :: TaskStatus
  ht_UserID :: go_int
  ht_Input :: "'v option"
  ht_Output :: "'v option"
  ht_Execution :: "'v option"
  ht_ErrorMessage :: string
  ht_Progress :: go_int
  ht_Attempts :: go_int
  ht_MaxAttempts :: go_int
  ht_CreatedAt :: int
  ht_UpdatedAt :: int
  ht_StartedAt :: "int option"
  ht_CompletedAt :: "int option"

definition zero_task :: "'v HostTask" where
  "zero_task =
     \<lparr>ht_ID = 0, ht_PublicTaskID = [], ht_PluginID = [], ht_TaskType = [], ht_Status = [],
      ht_UserID = 0, ht_Input = None, ht_Output = None, ht_Execution = None,
      ht_ErrorMessage = [], ht_Progress = 0, ht_Attempts = 0, ht_MaxAttempts = 0,
      ht_CreatedAt = 0, ht_UpdatedAt = 0, ht_StartedAt = None, ht_CompletedAt = None\<rparr>"

record PbProcessTaskRequest =
  pt_TaskId :: go_int
  pt_TaskType :: string
  pt_UserId :: go_int
  pt_Input :: bytes

text \<open>
  \<open>decode\<close> is what \<^verbatim>\<open>json.Unmarshal\<close> leaves, whatever its error. The processor is \<open>None\<close> when the
  plugin does not implement \<^verbatim>\<open>TaskProcessor\<close>; the answer is success and error message.
\<close>

definition ProcessTask ::
  "(bytes \<Rightarrow> 'v option) \<Rightarrow> ('v HostTask \<Rightarrow> 'p task_handler) option \<Rightarrow> PbProcessTaskRequest \<Rightarrow> 'p \<Rightarrow>
   (bool \<times> string) \<times> 'p" where
  "ProcessTask decode tp req p =
     (case tp of
        None \<Rightarrow> ((False, ''plugin does not implement TaskProcessor''), p)
      | Some process \<Rightarrow>
          (let input = (if length (pt_Input req) > 0 then decode (pt_Input req) else None);
               task = zero_task\<lparr>ht_ID := pt_TaskId req, ht_TaskType := pt_TaskType req,
                                ht_UserID := pt_UserId req, ht_Input := input\<rparr>
           in case process task p of
                (Some e, p) \<Rightarrow> ((False, error_text e), p)
              | (None, p) \<Rightarrow> ((True, []), p)))"

definition GetTaskTypes :: "string list option \<Rightarrow> string list" where
  "GetTaskTypes tp = (case tp of None \<Rightarrow> [] | Some types \<Rightarrow> types)"

definition client_GetTaskTypes :: "go_error + string list \<Rightarrow> string list \<times> go_error option" where
  "client_GetTaskTypes resp = (case resp of Inl e \<Rightarrow> ([], Some e) | Inr types \<Rightarrow> (types, None))"

section \<open>Migration\<close>

text \<open>The handler on what the plugin's \<^verbatim>\<open>Migrate\<close> returns, and the two client methods.\<close>

definition ext_Migrate :: "go_error option \<Rightarrow> go_error + unit" where
  "ext_Migrate err = (case err of Some e \<Rightarrow> Inl e | None \<Rightarrow> Inr ())"

definition client_Migrate :: "go_error + unit \<Rightarrow> go_error option" where
  "client_Migrate resp = (case resp of Inl e \<Rightarrow> Some e | Inr u \<Rightarrow> None)"

definition client_MigrateContext :: "go_error + unit \<Rightarrow> go_error option" where
  "client_MigrateContext resp = (case resp of Inl e \<Rightarrow> Some e | Inr u \<Rightarrow> None)"

definition client_RunBackgroundTask :: "go_error option \<Rightarrow> go_error option" where
  "client_RunBackgroundTask rpc_err = rpc_err"

text \<open>The tasks for a core that wants the error too.\<close>

definition BackgroundTasksContext ::
  "go_error + BackgroundTaskProto list \<Rightarrow> go_error + 'p BackgroundTask list" where
  "BackgroundTasksContext resp =
     (case resp of
        Inl e \<Rightarrow> Inl e
      | Inr ts \<Rightarrow>
          Inr (map (\<lambda>t. \<lparr>bt_Name = tp_Name t, bt_Interval = duration_of_ms (tp_IntervalMs t),
                         bt_Handler = None\<rparr>) ts))"

text \<open>The handler a name stands for: the last task of that name.\<close>

definition declared_handler :: "'p BackgroundTask list \<Rightarrow> string \<Rightarrow> 'p task_handler option option" where
  "declared_handler tasks name =
     map_option bt_Handler (List.find (\<lambda>t. bt_Name t = name) (rev tasks))"

lemma task_map_of:
  "map_of (fold (\<lambda>t. AList.update (bt_Name t) (bt_Handler t)) tasks []) name =
   declared_handler tasks name"
  by (induction tasks rule: rev_induct) (auto simp: declared_handler_def update_conv')

text \<open>The task the plugin is handed.\<close>

definition handed_task :: "(bytes \<Rightarrow> 'v option) \<Rightarrow> PbProcessTaskRequest \<Rightarrow> 'v HostTask" where
  "handed_task decode req =
     zero_task\<lparr>ht_ID := pt_TaskId req, ht_TaskType := pt_TaskType req, ht_UserID := pt_UserId req,
               ht_Input := if pt_Input req = [] then None else decode (pt_Input req)\<rparr>"

text \<open>
  C29: background tasks across the process border. The core sees the plugin's tasks by name and
  order, with intervals cut to whole milliseconds and no handlers; running one by name, before or
  after the core asked for the list, calls the handler of the last task of that name once and
  returns its error, or reports that there is none. A task the core hands over is processed once,
  with the core's id, type, user and input and every other field zero, and the answer is success
  exactly if the plugin can process tasks and returned no error.
\<close>
theorem background_tasks_end_to_end:
  assumes "taskMap = [] \<or> taskMap = snd (GetBackgroundTasks tasks m)"
  shows "BackgroundTasksContext (Inr (fst (GetBackgroundTasks tasks taskMap))) =
      Inr (map (\<lambda>t. t\<lparr>bt_Interval := truncate_ms (bt_Interval t), bt_Handler := None\<rparr>) tasks)
    \<and> client_BackgroundTasks (Inr (fst (GetBackgroundTasks tasks taskMap))) =
      map (\<lambda>t. t\<lparr>bt_Interval := truncate_ms (bt_Interval t), bt_Handler := None\<rparr>) tasks
    \<and> (case RunBackgroundTask quote tasks name taskMap p of
         (e, _, p') \<Rightarrow>
           (case declared_handler tasks name of
              Some (Some handler) \<Rightarrow> (e, p') = handler p
            | _ \<Rightarrow> e = Some (task_not_found quote name) \<and> p' = p))
    \<and> (case tp of
         None \<Rightarrow> \<not> fst (fst (ProcessTask decode tp req p)) \<and> snd (ProcessTask decode tp req p) = p
       | Some process \<Rightarrow>
           snd (ProcessTask decode tp req p) = snd (process (handed_task decode req) p) \<and>
           fst (ProcessTask decode tp req p) =
             (case fst (process (handed_task decode req) p) of
                None \<Rightarrow> (True, []) | Some e \<Rightarrow> (False, error_text e)))"
proof -
  have "map_of (if map_of taskMap name = None then snd (GetBackgroundTasks tasks taskMap)
      else taskMap) name = declared_handler tasks name"
    using assms by (auto simp: GetBackgroundTasks_def task_map_of)
  then have run: "case RunBackgroundTask quote tasks name taskMap p of
         (e, _, p') \<Rightarrow>
           (case declared_handler tasks name of
              Some (Some handler) \<Rightarrow> (e, p') = handler p
            | _ \<Rightarrow> e = Some (task_not_found quote name) \<and> p' = p)"
    by (auto simp: RunBackgroundTask_def Let_def split: option.splits prod.splits)
  have seen: "\<lparr>bt_Name = bt_Name t, bt_Interval = d, bt_Handler = None\<rparr> =
      t\<lparr>bt_Interval := d, bt_Handler := None\<rparr>" for t :: "'a BackgroundTask" and d
    by (cases t) simp
  show ?thesis
    using run
    by (auto simp: client_BackgroundTasks_def BackgroundTasksContext_def GetBackgroundTasks_def
        Let_def duration_of_Milliseconds seen comp_def ProcessTask_def handed_task_def
        split: option.splits prod.splits)
qed

lemma background_tasks_end_to_end_witness:
  "fst (RunBackgroundTask (\<lambda>s. s) [\<lparr>bt_Name = ''gc'', bt_Interval = 1500000, bt_Handler = None\<rparr>,
      \<lparr>bt_Name = ''gc'', bt_Interval = 1500000, bt_Handler = Some (\<lambda>p. (Some EOF, Suc p))\<rparr>] ''gc'' []
      (0::nat)) = Some EOF"
  using background_tasks_end_to_end [where tasks = "[\<lparr>bt_Name = ''gc'', bt_Interval = 1500000, bt_Handler = None\<rparr>,
      \<lparr>bt_Name = ''gc'', bt_Interval = 1500000, bt_Handler = Some (\<lambda>p. (Some EOF, Suc p))\<rparr>]"
      and taskMap = "[]" and m = "[]" and quote = "\<lambda>s. s" and name = "''gc''" and p = "0::nat"
      and tp = None and decode = "\<lambda>_. None :: unit option"
      and req = "\<lparr>pt_TaskId = 0, pt_TaskType = [], pt_UserId = 0, pt_Input = []\<rparr>"]
  by (simp add: declared_handler_def split: prod.splits)

end
