(* ===== verification/ExtResponses.thy ===== *)
theory ExtResponses
  imports Extension
begin

text \<open>
  The two ways the core can ask an extension plugin for a response, \<^verbatim>\<open>HandleRequest\<close> and
  \<^verbatim>\<open>HandleStreamRequest\<close> of \<^verbatim>\<open>runtimego/grpc/extension_server.go\<close>, against each other: where they
  answer the same, and what a stream leaves out.
\<close>

section \<open>Settled handlers\<close>

text \<open>
  Where its Writes are accepted, the handler leaves status and headers alone once it has written.
\<close>

primrec settled :: "bool \<Rightarrow> 'r writer_prog \<Rightarrow> bool" where
  "settled begun (Return r) = True"
| "settled begun (OnHeader f p) = (\<not> begun \<and> settled begun p)"
| "settled begun (CallWriteHeader c p) = (\<not> begun \<and> settled begun p)"
| "settled begun (CallBeginCompletion p) = settled begun p"
| "settled begun (CallWrite d k) = settled True (k (length d, None))"

text \<open>The content type the buffer of a unary call adds for the first data.\<close>

definition sniffed :: "(bytes \<Rightarrow> string) \<Rightarrow> header \<Rightarrow> bytes list \<Rightarrow> header" where
  "sniffed detect h ds =
     (if concat ds = [] \<or> HeaderGet h ''Content-Type'' \<noteq> [] then h
      else HeaderSet ''Content-Type'' (detect (hd (filter (\<lambda>d. d \<noteq> []) ds))) h)"

lemma bw_Write_accepted:
  assumes "bw_Write detect d w = ((n, e), w1)" and "e = None"
  shows "n = length d \<and> bw_err w = None \<and> bw_code w1 = default_status (bw_code w) \<and>
    bw_body w1 = bw_body w @ d \<and>
    bw_headers w1 = (if bw_body w = [] then sniffed detect (bw_headers w) [d] else bw_headers w)"
  using assms
  by (auto simp: bw_Write_def Let_def default_status_def sniffed_def bw_Header_def
      split: option.splits if_splits)

lemma default_status_idem [simp]: "default_status (default_status c) = default_status c"
  by (simp add: default_status_def)

lemma sniffed_Nil [simp]: "sniffed detect h [] = h"
  by (simp add: sniffed_def)

text \<open>A settled handler that has written only adds the content type.\<close>

lemma settled_buffer:
  "settled True p \<Longrightarrow> bw_inv w \<Longrightarrow> run_prog (buffer_ops detect) p w = (r, bw, tr) \<Longrightarrow>
   bw_err bw = None \<Longrightarrow> bw_code w = default_status c \<Longrightarrow>
   bw_code bw = default_status c \<and>
   bw_headers bw = (if bw_body w = [] then sniffed detect (bw_headers w) (map fst tr) else bw_headers w)"
proof (induction p arbitrary: w r bw tr)
  case (CallWrite d k)
  from CallWrite.prems(3) show ?case
  proof (rule run_write_cases)
    fix n e w1 tr'
    assume 1: "wr_write (buffer_ops detect) d w = ((n, e), w1)"
      "run_prog (buffer_ops detect) (k (n, e)) w1 = (r, bw, tr')" "tr = (d, n, e) # tr'"
    have inv1: "bw_inv w1" by (rule buffer_writer.write_inv [OF CallWrite.prems(2) 1(1)])
    have e: "e = None"
      using buffer_writer.run_error [OF CallWrite.prems(2,3), of d n] 1(3) CallWrite.prems(4)
      by (cases e) auto
    have w1: "n = length d" "bw_code w1 = default_status c" "bw_body w1 = bw_body w @ d"
      "bw_headers w1 = (if bw_body w = [] then sniffed detect (bw_headers w) [d] else bw_headers w)"
      using bw_Write_accepted [of detect d w n e w1] 1(1) e CallWrite.prems(5) by simp_all
    have "settled True (k (n, e))" using CallWrite.prems(1) by (simp add: e w1(1))
    note ih = CallWrite.IH [OF _ this inv1 1(2) CallWrite.prems(4) w1(2)]
    show ?thesis
      using ih w1(3,4) by (cases "d = []") (simp_all add: 1(3) sniffed_def)
  qed
next
  case (CallBeginCompletion p)
  show ?case using CallBeginCompletion.IH [of w r bw tr] CallBeginCompletion.prems by simp
qed simp_all

lemma buffer_head:
  "settled False p \<Longrightarrow> bw_inv w \<Longrightarrow> run_prog (buffer_ops detect) p w = (r, bw, tr) \<Longrightarrow>
   bw_err bw = None \<Longrightarrow> bw_body w = [] \<Longrightarrow> ext_head p (bw_headers w) (bw_code w) = (h, c) \<Longrightarrow>
   bw_headers bw = sniffed detect h (map fst tr) \<and>
   default_status (bw_code bw) = default_status c"
proof (induction p arbitrary: w r bw tr)
  case (CallWrite d k)
  from CallWrite.prems(3) show ?case
  proof (rule run_write_cases)
    fix n e w1 tr'
    assume 1: "wr_write (buffer_ops detect) d w = ((n, e), w1)"
      "run_prog (buffer_ops detect) (k (n, e)) w1 = (r, bw, tr')" "tr = (d, n, e) # tr'"
    have inv1: "bw_inv w1" by (rule buffer_writer.write_inv [OF CallWrite.prems(2) 1(1)])
    have e: "e = None"
      using buffer_writer.run_error [OF CallWrite.prems(2,3), of d n] 1(3) CallWrite.prems(4)
      by (cases e) auto
    have head: "h = bw_headers w" "c = bw_code w" using CallWrite.prems(6) by simp_all
    have w1: "n = length d" "bw_code w1 = default_status c" "bw_body w1 = d"
      "bw_headers w1 = sniffed detect h [d]"
      using bw_Write_accepted [of detect d w n e w1] 1(1) e CallWrite.prems(5) by (simp_all add: head)
    have "settled True (k (n, e))" using CallWrite.prems(1) by (simp add: e w1(1))
    note rest = settled_buffer [OF this inv1 1(2) CallWrite.prems(4) w1(2)]
    show ?thesis
      using rest w1(3,4) by (cases "d = []") (simp_all add: 1(3) sniffed_def)
  qed
next
  case (OnHeader f p)
  show ?case
    using OnHeader.IH [of "bw_Header f w" r bw tr] OnHeader.prems
    by (simp add: bw_Header_def bw_inv_def)
next
  case (CallWriteHeader s p)
  show ?case
    using CallWriteHeader.IH [of "bw_WriteHeader s w" r bw tr] CallWriteHeader.prems
    by (simp add: bw_WriteHeader_def bw_inv_def)
next
  case (CallBeginCompletion p)
  show ?case using CallBeginCompletion.IH [of w r bw tr] CallBeginCompletion.prems by simp
qed simp

lemma first_chunk_fields:
  "hc_StatusCode (first_chunk c h d) = int32_of (default_status c)"
  "hc_Headers (first_chunk c h d) = lower_headers h"
  by (simp_all add: first_chunk_def)

section \<open>Property\<close>

text \<open>
  C31: A streamed response is the unary one, up to its head. If a handler leaves status and headers
  alone once it has written and both calls succeed, both carry the same body, all that the handler
  writes; the first message of the stream has the status of the unary response and its headers,
  except for a content type that only the unary call detects. A handler that writes nothing is
  answered in full by the unary call, while the stream is the single message that says done: its
  status and headers are lost.
\<close>

theorem streamed_response_is_unary:
  assumes "routed newRequest routes req = Some p" and "settled False p"
    and "ext_head p [] 0 = (h, c)"
    and "HandleRequest t detect newRequest (Some routes) req = Inr resp"
    and "HandleStreamRequest t newRequest (Some routes) req = (None, log)"
  shows "resp = \<lparr>ps_StatusCode = int32_of (default_status c),
                 ps_Headers = lower_headers (sniffed detect h (snd (accepted p))),
                 ps_Body = concat (snd (accepted p))\<rparr> \<and>
         concat (map (hc_Data \<circ> fst) log) = ps_Body resp \<and>
         (case snd (accepted p) of
            [] \<Rightarrow> log = [(done_chunk, None)]
          | _ # _ \<Rightarrow> hc_StatusCode (fst (hd log)) = ps_StatusCode resp \<and>
                     hc_Headers (fst (hd log)) = lower_headers h)"
proof -
  obtain r bw tr where run: "run_prog (buffer_ops detect) p new_bufferWriter = (r, bw, tr)"
    by (metis prod_cases3)
  obtain r' w tr' where run': "run_prog (response_ops t) p new_streamResponseWriter = (r', w, tr')"
    by (metis prod_cases3)
  have ok: "bw_err bw = None" and resp: "resp = recorded_response bw"
    using HandleRequest_routed [OF assms(1) run, of t] assms(4) by (auto split: option.splits)
  have ok': "srw_err w = None" and log: "log = srw_log w @ [(done_chunk, None)]"
    using HandleStreamRequest_routed [OF assms(1) run'] assms(5)
    by (auto simp: send_last_def Let_def split: option.splits)
  have ds: "map fst tr = snd (accepted p)" "map fst tr' = snd (accepted p)"
    using buffer_writer.run_accepted [OF bw_new_inv run ok]
      ext_writer.run_accepted [OF new_srw_inv run' ok'] by simp_all
  have head: "bw_headers bw = sniffed detect h (snd (accepted p))"
    "default_status (bw_code bw) = default_status c"
    using buffer_head [OF assms(2) bw_new_inv run ok] assms(3) by (simp_all add: new_bufferWriter_def ds)
  have body: "bw_body bw = concat (snd (accepted p))"
    using buffer_writer.run_conserves [OF bw_new_inv _ run] ok
    by (simp add: buffer_writer.conserved_def new_bufferWriter_def written_def ds)
  note full = sent_in_full [OF run' assms(3) ok']
  have data: "concat (map (hc_Data \<circ> fst) log) = concat (snd (accepted p))"
    using full by (simp add: log written_def ds(2) done_chunk_def comp_def)
  have empty: "tr' = [] \<longleftrightarrow> snd (accepted p) = []" using ds(2) by auto
  have "case snd (accepted p) of
      [] \<Rightarrow> log = [(done_chunk, None)]
    | _ # _ \<Rightarrow> hc_StatusCode (fst (hd log)) = int32_of (default_status c) \<and>
               hc_Headers (fst (hd log)) = lower_headers h"
  proof (cases "srw_log w")
    case Nil
    then show ?thesis using full empty by (simp add: log)
  next
    case (Cons m ms)
    then have "fst m = first_chunk c h (hc_Data (fst m))" using full by simp
    then have "hc_StatusCode (fst m) = int32_of (default_status c)"
      "hc_Headers (fst m) = lower_headers h"
      by (metis first_chunk_fields)+
    moreover have "tr' \<noteq> []"
    proof
      assume "tr' = []"
      then have "srw_log w = []"
        using srw_run_head [OF new_srw_inv _ run' ] assms(3) by (simp add: new_streamResponseWriter_def)
      then show False using Cons by simp
    qed
    ultimately show ?thesis using empty by (cases "snd (accepted p)") (simp_all add: log Cons)
  qed
  then show ?thesis
    unfolding resp recorded_response_def head body using data by (auto split: list.splits)
qed

text \<open>A redirect without a body: the unary answer has it, the stream does not.\<close>

definition redirect :: "unit writer_prog" where
  "redirect = OnHeader (HeaderSet ''Location'' ''/y'') (CallWriteHeader 302 (Return ()))"

lemma redirect_unary:
  "HandleRequest example_transport (\<lambda>_. []) accept_request (Some (routes_to redirect)) example_request =
    Inr \<lparr>ps_StatusCode = 302, ps_Headers = [(''location'', Some [''/y''])], ps_Body = []\<rparr>"
proof -
  have h: "lower_headers (HeaderSet ''Location'' ''/y'' []) = [(''location'', Some [''/y''])]"
    by code_simp
  have "run_prog (buffer_ops (\<lambda>_. [])) redirect new_bufferWriter =
      ((), bw_WriteHeader 302 (bw_Header (HeaderSet ''Location'' ''/y'') new_bufferWriter), [])"
    by (simp add: redirect_def)
  from HandleRequest_routed [OF routed_example this] show ?thesis
    by (simp add: bw_Header_def bw_WriteHeader_def new_bufferWriter_def recorded_response_def h
        example_transport_def checkResponseMessage_def default_status_def int32_of_def)
qed

lemma redirect_streamed:
  "HandleStreamRequest example_transport accept_request (Some (routes_to redirect)) example_request =
    (None, [(done_chunk, None)])"
proof -
  have "run_prog (response_ops example_transport) redirect new_streamResponseWriter =
      ((), srw_WriteHeader 302 (srw_Header (HeaderSet ''Location'' ''/y'') new_streamResponseWriter), [])"
    by (simp add: redirect_def)
  from HandleStreamRequest_routed [OF routed_example this] show ?thesis
    by (simp add: srw_Header_def srw_WriteHeader_def new_streamResponseWriter_def send_last_def
        example_transport_def)
qed

theorem streamed_response_is_unary_witness:
  "\<exists>resp log.
     HandleRequest example_transport (\<lambda>_. []) accept_request (Some (routes_to redirect))
       example_request = Inr resp \<and>
     HandleStreamRequest example_transport accept_request (Some (routes_to redirect))
       example_request = (None, log) \<and>
     ps_StatusCode resp = 302 \<and> concat (map (hc_Data \<circ> fst) log) = ps_Body resp"
proof -
  have "settled False redirect" by (simp add: redirect_def)
  moreover have "ext_head redirect [] 0 = (HeaderSet ''Location'' ''/y'' [], 302)"
    by (simp add: redirect_def)
  ultimately show ?thesis
    using streamed_response_is_unary [OF routed_example _ _ redirect_unary redirect_streamed]
      redirect_unary redirect_streamed by simp
qed

end
