(* ===== verification/PluginService.thy ===== *)
theory PluginService
  imports Declarations Extension Logging RuntimeState
begin

text \<open>
  The service every plugin offers: the lifecycle calls of \<^verbatim>\<open>pluginBase\<close> in
  \<^verbatim>\<open>runtimego/grpc/common.go\<close> (the core's side) and of \<^verbatim>\<open>PluginGRPCServer\<close> in
  \<^verbatim>\<open>plugin_server.go\<close> (the plugin's side), the context and configuration of \<^verbatim>\<open>context.go\<close>, and the
  runtime control calls of \<^verbatim>\<open>runtime.go\<close> on both sides.

  An RPC is a function from the request and the state of the other side to the answer and the new
  state. \<^verbatim>\<open>encoding/json\<close> is a record of functions. Deadlines and log lines are left out.
\<close>

section \<open>Configuration and context\<close>

definition ConfigKeyLogLevel :: string where "ConfigKeyLogLevel = ''_log_level''"
definition PluginDSNConfigKey :: string where "PluginDSNConfigKey = ''plugin_dsn''"

definition GetString :: "metadata \<Rightarrow> string \<Rightarrow> string" where
  "GetString c key = map_index c key"

definition GetInt :: "metadata \<Rightarrow> string \<Rightarrow> go_int" where
  "GetInt c key = fst (ParseInt (map_index c key))"

text \<open>\<^verbatim>\<open>strconv.ParseBool\<close>; what it does not know is false.\<close>

definition GetBool :: "metadata \<Rightarrow> string \<Rightarrow> bool" where
  "GetBool c key \<longleftrightarrow>
     map_index c key \<in> {''1'', ''t'', ''T'', ''true'', ''TRUE'', ''True''}"

text \<open>
  Floats and durations: \<open>parse\<close> is \<^verbatim>\<open>strconv.ParseFloat\<close> and \<^verbatim>\<open>time.ParseDuration\<close>, the value and the
  error, which the getters ignore.
\<close>

definition GetFloat64 ::
  "(string \<Rightarrow> float64 \<times> go_error option) \<Rightarrow> metadata \<Rightarrow> string \<Rightarrow> float64" where
  "GetFloat64 parse c key = fst (parse (map_index c key))"

definition GetDuration ::
  "(string \<Rightarrow> duration \<times> go_error option) \<Rightarrow> metadata \<Rightarrow> string \<Rightarrow> duration" where
  "GetDuration parse c key = fst (parse (map_index c key))"

definition GetAll :: "metadata \<Rightarrow> metadata" where "GetAll c = c"

text \<open>
  \<^verbatim>\<open>grpcPluginContext\<close>. \<open>gpc_host\<close> is what \<^verbatim>\<open>hostOnce\<close> has left: nothing yet, the error, or the
  connection, a number. \<open>dial\<close> is the broker, \<open>None\<close> where there is none.
\<close>

record grpcPluginContext =
  gpc_config :: "metadata option"
  gpc_coreInvokeBrokerID :: "32 word"
  gpc_host :: "(go_error + nat) option"

text \<open>The logger of the context, \<open>fallback\<close> being \<^verbatim>\<open>slog.Default()\<close>.\<close>

definition context_Logger :: "'l \<Rightarrow> 'l option \<Rightarrow> 'l" where
  "context_Logger fallback logger = (case logger of None \<Rightarrow> fallback | Some l \<Rightarrow> l)"

definition initHost :: "(32 word \<Rightarrow> go_error + nat) option \<Rightarrow> 32 word \<Rightarrow> go_error + nat" where
  "initHost broker brokerID =
     (case broker of
        None \<Rightarrow> Inl (ErrMsg ''host broker not available'')
      | Some dial \<Rightarrow>
          if brokerID = 0 then Inl (ErrMsg ''core invoke not enabled'') else dial brokerID)"

definition host_once ::
  "(32 word \<Rightarrow> go_error + nat) option \<Rightarrow> grpcPluginContext \<Rightarrow> grpcPluginContext" where
  "host_once broker c =
     (case gpc_host c of
        Some _ \<Rightarrow> c
      | None \<Rightarrow> c\<lparr>gpc_host := Some (initHost broker (gpc_coreInvokeBrokerID c))\<rparr>)"

definition context_Host ::
  "(32 word \<Rightarrow> go_error + nat) option \<Rightarrow> grpcPluginContext \<Rightarrow> nat option \<times> grpcPluginContext" where
  "context_Host broker c =
     (let c = host_once broker c in
      (case gpc_host c of Some (Inr conn) \<Rightarrow> Some conn | _ \<Rightarrow> None, c))"

definition HostError ::
  "(32 word \<Rightarrow> go_error + nat) option \<Rightarrow> grpcPluginContext \<Rightarrow> go_error option \<times> grpcPluginContext" where
  "HostError broker c =
     (let c = host_once broker c in
      (case gpc_host c of Some (Inl e) \<Rightarrow> Some e | _ \<Rightarrow> None, c))"

definition PluginDSN :: "grpcPluginContext \<Rightarrow> string" where
  "PluginDSN c = (case gpc_config c of None \<Rightarrow> [] | Some m \<Rightarrow> GetString m PluginDSNConfigKey)"

section \<open>Runtime control: data\<close>

definition RuntimeProtocolVersion :: go_int where "RuntimeProtocolVersion = 1"
definition RuntimeControlPrefix :: string where "RuntimeControlPrefix = ''_airgate/runtime/v1/''"

record CallbackSpec =
  cs_Name :: string
  cs_Listen :: string
  cs_Required :: bool

record RuntimeSpec =
  rs_Version :: go_int
  rs_Callbacks :: "CallbackSpec list"

record CallbackRequest =
  cbq_Name :: string
  cbq_Method :: string
  cbq_Path :: string
  cbq_Query :: string
  cbq_Headers :: header
  cbq_Body :: bytes

record CallbackResponse =
  cbr_Status :: go_int
  cbr_Headers :: header
  cbr_Body :: bytes

text \<open>What \<^verbatim>\<open>result any\<close> may be when it is marshalled.\<close>

datatype runtime_result = NoResult | SpecResult RuntimeSpec | CallbackResult CallbackResponse

record runtime_json =
  rj_result :: "runtime_result \<Rightarrow> go_error + bytes"
  rj_spec :: "bytes \<Rightarrow> go_error + RuntimeSpec"
  rj_response :: "bytes \<Rightarrow> go_error + CallbackResponse"
  rj_settings_enc :: "metadata \<Rightarrow> go_error + bytes"
  rj_settings_dec :: "bytes \<Rightarrow> go_error + metadata"
  rj_request_enc :: "CallbackRequest \<Rightarrow> go_error + bytes"
  rj_request_dec :: "bytes \<Rightarrow> go_error + CallbackRequest"
  rj_error_body :: "string \<Rightarrow> bytes"

section \<open>The plugin\<close>

text \<open>
  An implementation with state \<open>'p\<close>: the methods of \<^verbatim>\<open>sdk.Plugin\<close>, and each optional interface as
  \<open>None\<close> where the plugin does not implement it.
\<close>

type_synonym 'p step = "'p \<Rightarrow> go_error option \<times> 'p"

record 'p plugin_impl =
  im_Info :: "'p \<Rightarrow> PluginInfo"
  im_Init :: "grpcPluginContext \<Rightarrow> 'p step"
  im_Start :: "'p step"
  im_Stop :: "'p step"
  im_OnConfigUpdate :: "(metadata \<Rightarrow> 'p step) option"
  im_HealthCheck :: "'p step option"
  im_GetWebAssets :: "('p \<Rightarrow> (string, bytes) gomap) option"
  im_HandleRequest ::
    "(string \<Rightarrow> string \<Rightarrow> string \<Rightarrow> header \<Rightarrow> bytes \<Rightarrow> 'p \<Rightarrow> (go_error + go_int \<times> header \<times> bytes) \<times> 'p) option"
  im_DescribeRuntime :: "('p \<Rightarrow> RuntimeSpec) option"
  im_BeginDrain :: "'p step option"
  im_ApplyRuntimeSettings :: "(metadata \<Rightarrow> 'p step) option"
  im_HandleRuntimeCallback :: "(CallbackRequest \<Rightarrow> 'p \<Rightarrow> (go_error + CallbackResponse) \<times> 'p) option"

text \<open>
  The plugin process: the plugin, what \<^verbatim>\<open>InitLogger\<close> last left (the handler and the format), and
  whether its output takes colours.
\<close>

record 'p plugin_process =
  proc_plugin :: 'p
  proc_log :: "log_handler \<times> string"
  proc_colored :: bool

definition on_plugin :: "'p step \<Rightarrow> 'p plugin_process \<Rightarrow> go_error option \<times> 'p plugin_process" where
  "on_plugin f s = (let (e, p) = f (proc_plugin s) in (e, s\<lparr>proc_plugin := p\<rparr>))"

record PbInitRequest =
  ir_Config :: metadata
  ir_LogLevel :: string
  ir_CoreInvokeBrokerId :: "32 word"

section \<open>The plugin's side\<close>

definition srv_Init ::
  "'p plugin_impl \<Rightarrow> PbInitRequest \<Rightarrow> 'p plugin_process \<Rightarrow> go_error option \<times> 'p plugin_process" where
  "srv_Init impl req s =
     (let info = im_Info impl (proc_plugin s);
          s = (if ir_LogLevel req \<noteq> []
               then s\<lparr>proc_log := InitLogger (''plugin.'' @ pi_ID info) (ir_LogLevel req)
                                    (LogFormat (snd (proc_log s))) (proc_colored s)\<rparr>
               else s);
          pctx = \<lparr>gpc_config = Some (ir_Config req),
                  gpc_coreInvokeBrokerID = ir_CoreInvokeBrokerId req, gpc_host = None\<rparr>
      in on_plugin (im_Init impl pctx) s)"

definition srv_UpdateConfig ::
  "'p plugin_impl \<Rightarrow> PbInitRequest \<Rightarrow> 'p plugin_process \<Rightarrow> go_error option \<times> 'p plugin_process" where
  "srv_UpdateConfig impl req s =
     (case im_OnConfigUpdate impl of
        None \<Rightarrow> (Some (ErrStatus Unimplemented ''plugin does not support config hot reload''), s)
      | Some f \<Rightarrow> on_plugin (f (ir_Config req)) s)"

definition srv_Start ::
  "'p plugin_impl \<Rightarrow> 'p plugin_process \<Rightarrow> go_error option \<times> 'p plugin_process" where
  "srv_Start impl s = on_plugin (im_Start impl) s"

definition srv_Stop ::
  "'p plugin_impl \<Rightarrow> 'p plugin_process \<Rightarrow> go_error option \<times> 'p plugin_process" where
  "srv_Stop impl s = on_plugin (im_Stop impl) s"

definition srv_HealthCheck ::
  "'p plugin_impl \<Rightarrow> 'p plugin_process \<Rightarrow> go_error option \<times> 'p plugin_process" where
  "srv_HealthCheck impl s =
     (case im_HealthCheck impl of None \<Rightarrow> (None, s) | Some f \<Rightarrow> on_plugin f s)"

record WebAssetsResponse =
  wa_HasAssets :: bool
  wa_Files :: "(string \<times> bytes) list"

definition srv_GetWebAssets :: "'p plugin_impl \<Rightarrow> 'p plugin_process \<Rightarrow> WebAssetsResponse" where
  "srv_GetWebAssets impl s =
     (case im_GetWebAssets impl of
        None \<Rightarrow> \<lparr>wa_HasAssets = False, wa_Files = []\<rparr>
      | Some f \<Rightarrow>
          (let assets = f (proc_plugin s) in
           if length assets = 0 then \<lparr>wa_HasAssets = False, wa_Files = []\<rparr>
           else \<lparr>wa_HasAssets = True, wa_Files = assets\<rparr>))"

definition status_response :: "go_int32 \<Rightarrow> PbHttpResponse" where
  "status_response code = \<lparr>ps_StatusCode = code, ps_Headers = [], ps_Body = []\<rparr>"

text \<open>The \<^verbatim>\<open>switch\<close> over the operation: an early answer, or the result and error it leaves.\<close>

definition runtime_operation ::
  "runtime_json \<Rightarrow> 'p plugin_impl \<Rightarrow> string \<Rightarrow> bytes \<Rightarrow> 'p plugin_process \<Rightarrow>
   (PbHttpResponse + runtime_result \<times> go_error option) \<times> 'p plugin_process" where
  "runtime_operation js impl op body s =
     (if op = ''describe'' then
        (let spec = (case im_DescribeRuntime impl of
                       None \<Rightarrow> \<lparr>rs_Version = 0, rs_Callbacks = []\<rparr>
                     | Some f \<Rightarrow> f (proc_plugin s))
         in (Inr (SpecResult (spec\<lparr>rs_Version := RuntimeProtocolVersion\<rparr>), None), s))
      else if op = ''drain'' then
        (case im_BeginDrain impl of
           None \<Rightarrow> (Inr (NoResult, None), s)
         | Some f \<Rightarrow> (let (e, s) = on_plugin f s in (Inr (NoResult, e), s)))
      else if op = ''settings'' then
        (case rj_settings_dec js body of
           Inl e \<Rightarrow> (Inr (NoResult, Some e), s)
         | Inr settings \<Rightarrow>
             (case im_ApplyRuntimeSettings impl of
                None \<Rightarrow> (Inr (NoResult, None), s)
              | Some f \<Rightarrow> (let (e, s) = on_plugin (f settings) s in (Inr (NoResult, e), s))))
      else if op = ''callback'' then
        (case rj_request_dec js body of
           Inl e \<Rightarrow> (Inr (NoResult, Some e), s)
         | Inr request \<Rightarrow>
             (case im_HandleRuntimeCallback impl of
                None \<Rightarrow> (Inl (status_response 501), s)
              | Some f \<Rightarrow>
                  (case f request (proc_plugin s) of
                     (Inl e, p) \<Rightarrow> (Inr (NoResult, Some e), s\<lparr>proc_plugin := p\<rparr>)
                   | (Inr r, p) \<Rightarrow> (Inr (CallbackResult r, None), s\<lparr>proc_plugin := p\<rparr>))))
      else (Inl (status_response 404), s))"

definition handleRuntime ::
  "runtime_json \<Rightarrow> 'p plugin_impl \<Rightarrow> PbHttpRequest \<Rightarrow> 'p plugin_process \<Rightarrow>
   (go_error + PbHttpResponse) \<times> 'p plugin_process" where
  "handleRuntime js impl req s =
     (if pq_Method req \<noteq> ''POST'' \<or> length (pq_Body req) > 256 * 2 ^ 10
      then (Inr (status_response 400), s)
      else
        (case runtime_operation js impl (TrimPrefix (pq_Path req) RuntimeControlPrefix)
                (pq_Body req) s of
           (Inl resp, s) \<Rightarrow> (Inr resp, s)
         | (Inr (_, Some _), s) \<Rightarrow> (Inr (status_response 500), s)
         | (Inr (result, None), s) \<Rightarrow>
             (case rj_result js result of
                Inl e \<Rightarrow> (Inl e, s)
              | Inr data \<Rightarrow>
                  if length data > 2 ^ 20 then (Inr (status_response 500), s)
                  else
                    (Inr \<lparr>ps_StatusCode = 200, ps_Headers = [], ps_Body = data\<rparr>, s))))"

definition srv_HandleRequest ::
  "runtime_json \<Rightarrow> 'p plugin_impl \<Rightarrow> PbHttpRequest \<Rightarrow> 'p plugin_process \<Rightarrow>
   (go_error + PbHttpResponse) \<times> 'p plugin_process" where
  "srv_HandleRequest js impl req s =
     (if HasPrefix (pq_Path req) RuntimeControlPrefix then handleRuntime js impl req s
      else
        (case im_HandleRequest impl of
           None \<Rightarrow>
             (Inr \<lparr>ps_StatusCode = 501, ps_Headers = [],
                   ps_Body = rj_error_body js ''plugin does not implement RequestHandler''\<rparr>, s)
         | Some f \<Rightarrow>
             (case f (pq_Method req) (pq_Path req) (pq_Query req) (protoHeadersToHTTP (pq_Headers req))
                     (pq_Body req) (proc_plugin s) of
                (Inl e, p) \<Rightarrow>
                  (Inr \<lparr>ps_StatusCode = 500, ps_Headers = [],
                        ps_Body = rj_error_body js (error_text e)\<rparr>, s\<lparr>proc_plugin := p\<rparr>)
              | (Inr (status, respHeaders, body), p) \<Rightarrow>
                  (Inr \<lparr>ps_StatusCode = int32_of status,
                        ps_Headers = httpHeadersToProto respHeaders, ps_Body = body\<rparr>,
                   s\<lparr>proc_plugin := p\<rparr>))))"

section \<open>The core's side\<close>

text \<open>
  \<open>config\<close> is the map \<^verbatim>\<open>ctx.Config().GetAll()\<close> returns, \<open>None\<close> without a context or a
  configuration: the contract of \<^verbatim>\<open>GetAll\<close> is that this is the raw map, so deleting from it is
  deleting from the configuration, which is returned as it then is.
\<close>

definition InitContext ::
  "(PbInitRequest \<Rightarrow> 's \<Rightarrow> go_error option \<times> 's) \<Rightarrow> metadata option \<Rightarrow> pluginBase \<Rightarrow> 's \<Rightarrow>
   go_error option \<times> metadata option \<times> 's" where
  "InitContext rpc config b s =
     (let m = (case config of None \<Rightarrow> [] | Some m \<Rightarrow> m);
          logLevel = map_index m ConfigKeyLogLevel;
          m = AList.delete ConfigKeyLogLevel m;
          (err, s) = rpc \<lparr>ir_Config = m, ir_LogLevel = logLevel,
                          ir_CoreInvokeBrokerId = pbs_coreInvokeBrokerID b\<rparr> s
      in (err, map_option (\<lambda>_. m) config, s))"

definition base_UpdateConfig ::
  "(PbInitRequest \<Rightarrow> 's \<Rightarrow> go_error option \<times> 's) \<Rightarrow> metadata option \<Rightarrow> 's \<Rightarrow> go_error option \<times> 's"
where
  "base_UpdateConfig rpc config s =
     (let m = (case config of None \<Rightarrow> [] | Some m \<Rightarrow> m)
      in rpc \<lparr>ir_Config = m, ir_LogLevel = [], ir_CoreInvokeBrokerId = 0\<rparr> s)"

text \<open>The calls that only pass on what the plugin's process answers; \<open>rpc\<close> is the gRPC call.\<close>

definition base_Start :: "('s \<Rightarrow> go_error option \<times> 's) \<Rightarrow> 's \<Rightarrow> go_error option \<times> 's" where
  "base_Start rpc s = (case rpc s of (Some e, s) \<Rightarrow> (Some e, s) | (None, s) \<Rightarrow> (None, s))"

definition base_Stop :: "('s \<Rightarrow> go_error option \<times> 's) \<Rightarrow> 's \<Rightarrow> go_error option \<times> 's" where
  "base_Stop rpc s = (case rpc s of (Some e, s) \<Rightarrow> (Some e, s) | (None, s) \<Rightarrow> (None, s))"

definition base_HealthCheck :: "('s \<Rightarrow> go_error option \<times> 's) \<Rightarrow> 's \<Rightarrow> go_error option \<times> 's" where
  "base_HealthCheck rpc s = (case rpc s of (Some e, s) \<Rightarrow> (Some e, s) | (None, s) \<Rightarrow> (None, s))"

lemma lifecycle_reaches_plugin:
  "base_Start (srv_Start impl) s = on_plugin (im_Start impl) s"
  "base_Stop (srv_Stop impl) s = on_plugin (im_Stop impl) s"
  by (simp_all add: base_Start_def base_Stop_def srv_Start_def srv_Stop_def
      split: prod.split option.split)

text \<open>\<open>None\<close> is the nil map of a plugin without assets.\<close>

definition WebAssetsContext ::
  "go_error + WebAssetsResponse \<Rightarrow> go_error + (string, bytes) gomap option" where
  "WebAssetsContext resp =
     (case resp of
        Inl e \<Rightarrow> Inl e
      | Inr r \<Rightarrow>
          if \<not> wa_HasAssets r then Inr None
          else Inr (Some (fold (\<lambda>(path, content). AList.update path content) (wa_Files r) [])))"

definition base_GetWebAssets ::
  "go_error + WebAssetsResponse \<Rightarrow> go_error + (string, bytes) gomap option" where
  "base_GetWebAssets resp = WebAssetsContext resp"

text \<open>The extension client keeps nothing but the base.\<close>

definition ext_InvalidateCache :: "pluginBase \<Rightarrow> pluginBase" where
  "ext_InvalidateCache b = invalidateInfoCache b"

type_synonym 's http_rpc = "PbHttpRequest \<Rightarrow> 's \<Rightarrow> (go_error + PbHttpResponse) \<times> 's"

definition HandleHTTPRequest ::
  "'s http_rpc \<Rightarrow> string \<Rightarrow> string \<Rightarrow> string \<Rightarrow> header \<Rightarrow> bytes \<Rightarrow> 's \<Rightarrow>
   (go_int \<times> header \<times> bytes \<times> go_error option) \<times> 's" where
  "HandleHTTPRequest rpc m path query headers body s =
     (case rpc \<lparr>pq_Method = m, pq_Path = path, pq_Query = query, pq_Headers = httpHeadersToProto headers,
                pq_Body = body, pq_RemoteAddr = []\<rparr> s of
        (Inl e, s) \<Rightarrow> ((500, [], [], Some e), s)
      | (Inr r, s) \<Rightarrow>
          ((int_of_int32 (ps_StatusCode r), protoHeadersToHTTP (ps_Headers r), ps_Body r, None), s))"

definition runtime_failed :: "string \<Rightarrow> go_int32 \<Rightarrow> go_error" where
  "runtime_failed operation code =
     ErrMsg (''runtime '' @ operation @ '': HTTP '' @ FormatInt (int_of_int32 code))"

text \<open>\<open>request\<close> is the marshalled request, or the error; \<open>decode\<close> is for a result that is not nil.\<close>

definition runtimeCall ::
  "'s http_rpc \<Rightarrow> string \<Rightarrow> go_error + bytes \<Rightarrow> (bytes \<Rightarrow> go_error + 'r) \<Rightarrow> 's \<Rightarrow> (go_error + 'r) \<times> 's"
where
  "runtimeCall rpc operation request decode s =
     (case request of
        Inl e \<Rightarrow> (Inl e, s)
      | Inr data \<Rightarrow>
          (case rpc \<lparr>pq_Method = ''POST'', pq_Path = RuntimeControlPrefix @ operation, pq_Query = [],
                     pq_Headers = [], pq_Body = data, pq_RemoteAddr = []\<rparr> s of
             (Inl e, s) \<Rightarrow> (Inl e, s)
           | (Inr r, s) \<Rightarrow>
               if ps_StatusCode r \<noteq> 200 then (Inl (runtime_failed operation (ps_StatusCode r)), s)
               else (decode (ps_Body r), s)))"

definition no_result :: "bytes \<Rightarrow> go_error + unit" where "no_result _ = Inr ()"

definition base_DescribeRuntime :: "runtime_json \<Rightarrow> 's http_rpc \<Rightarrow> 's \<Rightarrow> (go_error + RuntimeSpec) \<times> 's"
where
  "base_DescribeRuntime js rpc s =
     (case runtimeCall rpc ''describe'' (Inr ''null'') (rj_spec js) s of
        (Inl e, s) \<Rightarrow> (Inl e, s)
      | (Inr spec, s) \<Rightarrow>
          if rs_Version spec \<noteq> RuntimeProtocolVersion
          then (Inl (ErrMsg (''unsupported runtime protocol '' @ FormatInt (rs_Version spec))), s)
          else (Inr spec, s))"

definition base_BeginDrain :: "'s http_rpc \<Rightarrow> 's \<Rightarrow> (go_error + unit) \<times> 's" where
  "base_BeginDrain rpc s = runtimeCall rpc ''drain'' (Inr ''null'') no_result s"

definition base_ApplyRuntimeSettings ::
  "runtime_json \<Rightarrow> 's http_rpc \<Rightarrow> metadata \<Rightarrow> 's \<Rightarrow> (go_error + unit) \<times> 's" where
  "base_ApplyRuntimeSettings js rpc settings s =
     runtimeCall rpc ''settings'' (rj_settings_enc js settings) no_result s"

definition base_HandleRuntimeCallback ::
  "runtime_json \<Rightarrow> 's http_rpc \<Rightarrow> CallbackRequest \<Rightarrow> 's \<Rightarrow> (go_error + CallbackResponse) \<times> 's" where
  "base_HandleRuntimeCallback js rpc request s =
     runtimeCall rpc ''callback'' (rj_request_enc js request) (rj_response js) s"

text \<open>The extension client passes the two kinds of requests of the core on as they are.\<close>

definition ext_HandleHTTPRequest :: "(PbHttpRequest \<Rightarrow> 'r) \<Rightarrow> PbHttpRequest \<Rightarrow> 'r" where
  "ext_HandleHTTPRequest rpc req = rpc req"

definition ext_HandleHTTPStreamRequest :: "(PbHttpRequest \<Rightarrow> 'r) \<Rightarrow> PbHttpRequest \<Rightarrow> 'r" where
  "ext_HandleHTTPStreamRequest rpc req = rpc req"

section \<open>Lemmas: runtime control\<close>

lemma control_path [simp]:
  "HasPrefix (RuntimeControlPrefix @ op) RuntimeControlPrefix"
  "TrimPrefix (RuntimeControlPrefix @ op) RuntimeControlPrefix = op"
  by simp_all

text \<open>A runtime call that reaches the plugin's own handler.\<close>

lemma runtimeCall_server:
  "runtimeCall (srv_HandleRequest js impl) op (Inr data) decode s =
    (if length data > 256 * 2 ^ 10 then (Inl (runtime_failed op 400), s)
     else
       (case runtime_operation js impl op data s of
          (Inl resp, s) \<Rightarrow>
            if ps_StatusCode resp \<noteq> 200 then (Inl (runtime_failed op (ps_StatusCode resp)), s)
            else (decode (ps_Body resp), s)
        | (Inr (_, Some _), s) \<Rightarrow> (Inl (runtime_failed op 500), s)
        | (Inr (result, None), s) \<Rightarrow>
            (case rj_result js result of
               Inl e \<Rightarrow> (Inl e, s)
             | Inr out \<Rightarrow>
                 if length out > 2 ^ 20 then (Inl (runtime_failed op 500), s) else (decode out, s))))"
  by (auto simp: runtimeCall_def srv_HandleRequest_def handleRuntime_def status_response_def
      split: sum.splits prod.splits option.splits)

lemma describe_end_to_end:
  assumes "rj_result js (SpecResult (f (proc_plugin s)\<lparr>rs_Version := 1\<rparr>)) = Inr data"
    and "rj_spec js data = Inr (f (proc_plugin s)\<lparr>rs_Version := 1\<rparr>)" and "length data \<le> 2 ^ 20"
    and "im_DescribeRuntime impl = Some f"
  shows "base_DescribeRuntime js (srv_HandleRequest js impl) s =
    (Inr (f (proc_plugin s)\<lparr>rs_Version := 1\<rparr>), s)"
  using assms
  by (simp add: base_DescribeRuntime_def runtimeCall_server runtime_operation_def
      RuntimeProtocolVersion_def)

lemma drain_end_to_end:
  assumes "rj_result js NoResult = Inr ''null''" and "im_BeginDrain impl = Some f"
    and "f (proc_plugin s) = (e, p)"
  shows "base_BeginDrain (srv_HandleRequest js impl) s =
    (case e of None \<Rightarrow> Inr () | Some _ \<Rightarrow> Inl (runtime_failed ''drain'' 500), s\<lparr>proc_plugin := p\<rparr>)"
  using assms
  by (simp add: base_BeginDrain_def runtimeCall_server runtime_operation_def on_plugin_def
      no_result_def split: option.split)

section \<open>Properties\<close>

text \<open>
  C33: a runtime callback end to end. With a codec that decodes what it encodes, a callback the core
  hands to a plugin runs the plugin's handler exactly once on that very request and returns its
  response; a request above 256 KiB never reaches the handler, and an error of the handler or a
  response above 1 MiB comes back as a status 500, after the handler has had its effect.
\<close>
theorem runtime_callback_end_to_end:
  assumes "rj_request_enc js request = Inr data" and "rj_request_dec js data = Inr request"
    and "im_HandleRuntimeCallback impl = Some f" and "f request (proc_plugin s) = (res, p)"
    and "\<And>r. res = Inr r \<Longrightarrow>
      rj_result js (CallbackResult r) = Inr (out r) \<and> rj_response js (out r) = Inr r"
  shows "base_HandleRuntimeCallback js (srv_HandleRequest js impl) request s =
    (if length data > 256 * 2 ^ 10 then (Inl (runtime_failed ''callback'' 400), s)
     else
       (case res of
          Inl e \<Rightarrow> Inl (runtime_failed ''callback'' 500)
        | Inr r \<Rightarrow> if length (out r) > 2 ^ 20 then Inl (runtime_failed ''callback'' 500) else Inr r,
        s\<lparr>proc_plugin := p\<rparr>))"
  using assms
  by (auto simp: base_HandleRuntimeCallback_def runtimeCall_server runtime_operation_def
      split: sum.split)

definition example_callback :: CallbackRequest where
  "example_callback =
     \<lparr>cbq_Name = ''oauth'', cbq_Method = ''GET'', cbq_Path = ''/cb'', cbq_Query = ''code=1'',
      cbq_Headers = [], cbq_Body = []\<rparr>"

definition example_reply :: CallbackResponse where
  "example_reply = \<lparr>cbr_Status = 302, cbr_Headers = [], cbr_Body = ''ok''\<rparr>"

definition example_json :: runtime_json where
  "example_json =
     \<lparr>rj_result = (\<lambda>_. Inr ''result''), rj_spec = (\<lambda>_. Inl EOF), rj_response = (\<lambda>_. Inr example_reply),
      rj_settings_enc = (\<lambda>_. Inl EOF), rj_settings_dec = (\<lambda>_. Inl EOF),
      rj_request_enc = (\<lambda>_. Inr ''request''), rj_request_dec = (\<lambda>_. Inr example_callback),
      rj_error_body = (\<lambda>e. e)\<rparr>"

text \<open>A plugin that counts its calls.\<close>

definition example_impl :: "nat plugin_impl" where
  "example_impl =
     \<lparr>im_Info = (\<lambda>_. zero_PluginInfo), im_Init = (\<lambda>_ n. (None, Suc n)), im_Start = (\<lambda>n. (None, n)),
      im_Stop = (\<lambda>n. (None, n)), im_OnConfigUpdate = None, im_HealthCheck = None,
      im_GetWebAssets = None, im_HandleRequest = None, im_DescribeRuntime = None,
      im_BeginDrain = None, im_ApplyRuntimeSettings = None,
      im_HandleRuntimeCallback = Some (\<lambda>_ n. (Inr example_reply, Suc n))\<rparr>"

lemma runtime_callback_end_to_end_witness:
  "base_HandleRuntimeCallback example_json (srv_HandleRequest example_json example_impl)
     example_callback
     \<lparr>proc_plugin = 0, proc_log = (JSONHandler 0 [], []), proc_colored = False\<rparr> =
   (Inr example_reply, \<lparr>proc_plugin = 1, proc_log = (JSONHandler 0 [], []), proc_colored = False\<rparr>)"
  by (subst runtime_callback_end_to_end [of example_json example_callback "''request''" example_impl
        "\<lambda>_ n. (Inr example_reply, Suc n)" _ "Inr example_reply" 1 "\<lambda>_. ''result''"])
    (simp_all add: example_json_def example_impl_def)

end
