(* ===== verification/Serving.thy ===== *)
theory Serving
  imports PluginService Catalog StreamWriter
begin

text \<open>
  How a plugin process and the core are put together (\<^verbatim>\<open>runtimego/grpc/go_plugin.go\<close>,
  \<^verbatim>\<open>handshake.go\<close>): which services a plugin registers, what \<^verbatim>\<open>Serve\<close> chooses, the broker stream
  for calls back to the core, and the message limits. Also the small contexts a plugin reads:
  \<^verbatim>\<open>GetRuntimeContext\<close> of \<^verbatim>\<open>sdkgo/runtime.go\<close>, \<^verbatim>\<open>GetPluginDSN\<close> of \<^verbatim>\<open>sdkgo/plugin.go\<close> and the
  development server's context (\<^verbatim>\<open>devkit/devserver/context.go\<close>).

  Package go-plugin is not modelled: a registration is the list of services, in order.
\<close>

section \<open>Kinds of plugins\<close>

datatype service =
    PluginSvc
  | GatewaySvc
  | ExtensionSvc
  | MiddlewareSvc
  | EventSvc
  | CoreInvokeSvc

text \<open>
  What \<^verbatim>\<open>Serve\<close> can ask a value: the id in its \<^verbatim>\<open>Info\<close>, when it is a \<^verbatim>\<open>Plugin\<close>, and which of the
  interfaces it has. A \<^verbatim>\<open>TaskProcessor\<close> declares its task types.
\<close>

record served =
  sv_Info_ID :: "string option"
  sv_Gateway :: bool
  sv_Extension :: bool
  sv_Middleware :: bool
  sv_TaskTypes :: "string list option"

text \<open>The options both processes give their gRPC servers.\<close>

datatype server_option =
    MaxRecvMsgSize nat
  | MaxSendMsgSize nat
  | LoggingUnaryInterceptor
  | LoggingStreamInterceptor

definition PluginGRPCMaxMessageBytes :: nat where
  "PluginGRPCMaxMessageBytes = 128 * 2 ^ 20"

definition GRPCServer_options :: "server_option list \<Rightarrow> server_option list" where
  "GRPCServer_options opts =
     opts @ [MaxRecvMsgSize PluginGRPCMaxMessageBytes, MaxSendMsgSize PluginGRPCMaxMessageBytes,
             LoggingUnaryInterceptor, LoggingStreamInterceptor]"

definition PluginKeyGateway :: string where "PluginKeyGateway = ''gateway''"
definition PluginKeyExtension :: string where "PluginKeyExtension = ''extension''"
definition PluginKeyMiddleware :: string where "PluginKeyMiddleware = ''middleware''"

text \<open>The \<^verbatim>\<open>GRPCServer\<close> hooks.\<close>

definition GatewayGRPCPlugin_GRPCServer :: "served \<Rightarrow> service list" where
  "GatewayGRPCPlugin_GRPCServer impl =
     [PluginSvc, GatewaySvc, EventSvc] @
     (case sv_TaskTypes impl of None \<Rightarrow> [] | Some _ \<Rightarrow> [ExtensionSvc])"

definition ExtensionGRPCPlugin_GRPCServer :: "served \<Rightarrow> service list" where
  "ExtensionGRPCPlugin_GRPCServer impl = [PluginSvc, ExtensionSvc, EventSvc]"

definition MiddlewareGRPCPlugin_GRPCServer :: "served \<Rightarrow> service list" where
  "MiddlewareGRPCPlugin_GRPCServer impl = [PluginSvc, MiddlewareSvc, EventSvc]"

record HandshakeConfig =
  hs_ProtocolVersion :: nat
  hs_MagicCookieKey :: string
  hs_MagicCookieValue :: string

definition Handshake :: HandshakeConfig where
  "Handshake =
     \<lparr>hs_ProtocolVersion = 2, hs_MagicCookieKey = ''AIRGATE_PLUGIN'',
      hs_MagicCookieValue = ''airgate-v1''\<rparr>"

text \<open>
  What \<^verbatim>\<open>goplugin.Serve\<close> is given: the one entry of the plugin set, with the services its hook
  registers, and the options of the server, \<open>opts\<close> being those go-plugin adds.
\<close>

record ServeConfig =
  sc_Handshake :: HandshakeConfig
  sc_Plugin :: "string \<times> service list"
  sc_GRPCServer :: "server_option list \<Rightarrow> server_option list"

definition plugin_entry :: "served \<Rightarrow> (string \<times> service list) option" where
  "plugin_entry impl =
     (if sv_Gateway impl then Some (PluginKeyGateway, GatewayGRPCPlugin_GRPCServer impl)
      else if sv_Extension impl
      then Some (PluginKeyExtension, ExtensionGRPCPlugin_GRPCServer impl)
      else if sv_Middleware impl
      then Some (PluginKeyMiddleware, MiddlewareGRPCPlugin_GRPCServer impl)
      else None)"

text \<open>
  \<^verbatim>\<open>Serve\<close>: the global logger it leaves, \<open>log\<close> being the one before, and the configuration it
  serves or the panic for a value of no plugin type (\<open>typ_text\<close> is how \<^verbatim>\<open>%T\<close> prints it).
\<close>

definition Serve ::
  "(string \<Rightarrow> string) \<Rightarrow> string \<Rightarrow> bool \<Rightarrow> log_handler \<times> string \<Rightarrow> served \<Rightarrow>
   (log_handler \<times> string) \<times> (string + ServeConfig)"
where
  "Serve unknown_plugin typ_text colored log impl =
     (case sv_Info_ID impl of
        None \<Rightarrow> log
      | Some i \<Rightarrow> InitLogger (''plugin.'' @ i) ''info'' ''text'' colored,
      case plugin_entry impl of
        None \<Rightarrow> Inl (unknown_plugin typ_text)
      | Some entry \<Rightarrow>
          Inr \<lparr>sc_Handshake = Handshake, sc_Plugin = entry, sc_GRPCServer = GRPCServer_options\<rparr>)"

text \<open>The extension a gateway with tasks is wrapped in: no routes, no background tasks.\<close>

definition adapter_Migrate :: "go_error option" where "adapter_Migrate = None"
definition adapter_BackgroundTasks :: "'p BackgroundTask list" where "adapter_BackgroundTasks = []"

definition adapter_ProcessTask ::
  "('v HostTask \<Rightarrow> 'p task_handler) \<Rightarrow> 'v HostTask \<Rightarrow> 'p task_handler" where
  "adapter_ProcessTask tp task = tp task"

definition adapter_TaskTypes :: "string list \<Rightarrow> string list" where
  "adapter_TaskTypes types = types"

section \<open>Calls back to the core\<close>

text \<open>
  \<^verbatim>\<open>startCoreInvokeStream\<close>: \<open>broker\<close> is the id its \<^verbatim>\<open>NextId\<close> gives, \<open>None\<close> for a nil broker. The
  result is the id handed to the plugin and the streams served: an id, the services registered
  there and the options of their server.
\<close>

record broker_stream =
  bs_id :: "32 word"
  bs_services :: "service list"
  bs_options :: "server_option list \<Rightarrow> server_option list"

definition startCoreInvokeStream ::
  "32 word option \<Rightarrow> bool \<Rightarrow> 32 word \<times> broker_stream list" where
  "startCoreInvokeStream broker coreInvokeImpl =
     (case broker of
        None \<Rightarrow> (0, [])
      | Some next_id \<Rightarrow>
          if \<not> coreInvokeImpl then (0, [])
          else
            (next_id, [\<lparr>bs_id = next_id, bs_services = [CoreInvokeSvc],
                        bs_options = GRPCServer_options\<rparr>]))"

text \<open>The \<^verbatim>\<open>GRPCClient\<close> hooks give the core a client with empty caches and that id.\<close>

definition base_GRPCClient :: "32 word option \<Rightarrow> bool \<Rightarrow> pluginBase" where
  "base_GRPCClient broker coreInvokeImpl =
     \<lparr>pbs_cachedInfo = None,
      pbs_coreInvokeBrokerID = fst (startCoreInvokeStream broker coreInvokeImpl)\<rparr>"

definition GatewayGRPCPlugin_GRPCClient :: "32 word option \<Rightarrow> bool \<Rightarrow> gateway_client" where
  "GatewayGRPCPlugin_GRPCClient broker coreInvokeImpl =
     \<lparr>gc_base = base_GRPCClient broker coreInvokeImpl, gc_cachedPlatform = [],
      gc_cachedModels = None, gc_cachedRoutes = None\<rparr>"

definition ExtensionGRPCPlugin_GRPCClient :: "32 word option \<Rightarrow> bool \<Rightarrow> pluginBase" where
  "ExtensionGRPCPlugin_GRPCClient broker coreInvokeImpl = base_GRPCClient broker coreInvokeImpl"

definition MiddlewareGRPCPlugin_GRPCClient :: "32 word option \<Rightarrow> bool \<Rightarrow> pluginBase" where
  "MiddlewareGRPCPlugin_GRPCClient broker coreInvokeImpl = base_GRPCClient broker coreInvokeImpl"

text \<open>The services the core's client of each kind calls.\<close>

definition client_services :: "string \<Rightarrow> service list" where
  "client_services key =
     (if key = PluginKeyGateway then [PluginSvc, EventSvc, GatewaySvc]
      else if key = PluginKeyExtension then [PluginSvc, EventSvc, ExtensionSvc]
      else [PluginSvc, EventSvc, MiddlewareSvc])"

lemma plugin_keys_distinct [simp]:
  "PluginKeyExtension \<noteq> PluginKeyGateway" "PluginKeyMiddleware \<noteq> PluginKeyGateway"
  "PluginKeyMiddleware \<noteq> PluginKeyExtension" "PluginKeyGateway \<noteq> PluginKeyExtension"
  by code_simp+

lemma client_services_registered:
  "plugin_entry impl = Some (key, services) \<Longrightarrow> set (client_services key) \<subseteq> set services"
  by (auto simp: plugin_entry_def client_services_def GatewayGRPCPlugin_GRPCServer_def
      ExtensionGRPCPlugin_GRPCServer_def MiddlewareGRPCPlugin_GRPCServer_def split: if_splits)

section \<open>Limits\<close>

text \<open>A message the servers let through fits the connection.\<close>

lemma checked_message_fits:
  "checkResponseMessage n = None \<Longrightarrow> n \<le> PluginGRPCMaxMessageBytes"
  by (auto simp: checkResponseMessage_def MaxResponseMessageBytes_def
      PluginGRPCMaxMessageBytes_def split: if_splits)

section \<open>Contexts\<close>

record CallbackBinding =
  cb_Available :: bool
  cb_Address :: string
  cb_Error :: string

record RuntimeContext =
  rc_Generation :: string
  rc_Callbacks :: "(string, CallbackBinding) gomap"

definition RuntimeContextConfigKey :: string where
  "RuntimeContextConfigKey = ''_airgate_runtime_context''"

text \<open>
  The configuration is \<open>None\<close> when the context or its configuration is nil; \<open>unmarshal\<close> gives what
  decoding leaves in the variable, whose error the code drops.
\<close>

definition GetRuntimeContext ::
  "(bytes \<Rightarrow> RuntimeContext \<Rightarrow> RuntimeContext) \<Rightarrow> metadata option \<Rightarrow> RuntimeContext" where
  "GetRuntimeContext unmarshal config =
     (let info = \<lparr>rc_Generation = [], rc_Callbacks = []\<rparr> in
      case config of
        None \<Rightarrow> info
      | Some c \<Rightarrow> unmarshal (GetString c RuntimeContextConfigKey) info)"

text \<open>A plugin context: \<open>None\<close> is nil, \<open>Some None\<close> one without \<^verbatim>\<open>PluginDSNAware\<close>.\<close>

definition GetPluginDSN :: "string option option \<Rightarrow> string" where
  "GetPluginDSN ctx = (case ctx of Some (Some dsn) \<Rightarrow> dsn | _ \<Rightarrow> [])"

text \<open>The development server's context: the variable's value, and an empty configuration.\<close>

definition dev_PluginDSN :: "(string \<Rightarrow> string) \<Rightarrow> string" where
  "dev_PluginDSN getenv = getenv ''AIRGATE_PLUGIN_DSN''"

definition dev_Config :: metadata where "dev_Config = []"

end
