(* ===== verification/Lifecycle.thy ===== *)
theory Lifecycle
  imports Serving
begin

text \<open>
  A plugin's life as the core drives it: any sequence of the calls of \<^verbatim>\<open>pluginBase\<close> in
  \<^verbatim>\<open>runtimego/grpc/common.go\<close> on one configuration, each through the handler of
  \<^verbatim>\<open>PluginGRPCServer\<close> in \<^verbatim>\<open>plugin_server.go\<close>, against the calls of the plugin's own methods that
  they come to, with the process put together as in \<^verbatim>\<open>go_plugin.go\<close>.
\<close>

section \<open>What the core does\<close>

text \<open>
  \<open>SetConfig\<close> is the core making a configuration; the other calls are made with the configuration
  there is, the map that \<^verbatim>\<open>GetAll\<close> shares.
\<close>

datatype core_call =
    SetConfig "metadata option"
  | CallInit
  | CallUpdateConfig
  | CallStart
  | CallStop
  | CallHealthCheck

text \<open>A handler as the core calls it: its error is the one gRPC carries.\<close>

definition rpc_step ::
  "(go_error \<Rightarrow> go_error) \<Rightarrow> ('s \<Rightarrow> go_error option \<times> 's) \<Rightarrow> 's \<Rightarrow> go_error option \<times> 's" where
  "rpc_step carry f s = (let (e, s) = f s in (map_option carry e, s))"

definition core_step ::
  "(go_error \<Rightarrow> go_error) \<Rightarrow> 'p plugin_impl \<Rightarrow> pluginBase \<Rightarrow> core_call \<Rightarrow> metadata option \<Rightarrow> 'p plugin_process \<Rightarrow>
   go_error option \<times> metadata option \<times> 'p plugin_process" where
  "core_step carry impl b call config s =
     (case call of
        SetConfig c \<Rightarrow> (None, c, s)
      | CallInit \<Rightarrow> InitContext (\<lambda>req. rpc_step carry (srv_Init impl req)) config b s
      | CallUpdateConfig \<Rightarrow>
          (let (e, s) = base_UpdateConfig (\<lambda>req. rpc_step carry (srv_UpdateConfig impl req)) config s
           in (e, config, s))
      | CallStart \<Rightarrow> (let (e, s) = base_Start (rpc_step carry (srv_Start impl)) s in (e, config, s))
      | CallStop \<Rightarrow> (let (e, s) = base_Stop (rpc_step carry (srv_Stop impl)) s in (e, config, s))
      | CallHealthCheck \<Rightarrow>
          (let (e, s) = base_HealthCheck (rpc_step carry (srv_HealthCheck impl)) s in (e, config, s)))"

fun core_run ::
  "(go_error \<Rightarrow> go_error) \<Rightarrow> 'p plugin_impl \<Rightarrow> pluginBase \<Rightarrow> core_call list \<Rightarrow> metadata option \<Rightarrow> 'p plugin_process \<Rightarrow>
   go_error option list \<times> metadata option \<times> 'p plugin_process" where
  "core_run carry impl b [] config s = ([], config, s)"
| "core_run carry impl b (call # calls) config s =
     (let (e, config, s) = core_step carry impl b call config s;
          (es, config, s) = core_run carry impl b calls config s
      in (e # es, config, s))"

section \<open>What the plugin sees\<close>

text \<open>The same life as calls in the plugin's process; \<open>Nothing\<close> is a call that does not reach it.\<close>

datatype plugin_call =
    Nothing
  | Init grpcPluginContext
  | OnConfigUpdate metadata
  | Start
  | Stop
  | HealthCheck

fun plugin_step :: "'p plugin_impl \<Rightarrow> plugin_call \<Rightarrow> 'p step" where
  "plugin_step impl Nothing p = (None, p)"
| "plugin_step impl (Init c) p = im_Init impl c p"
| "plugin_step impl (OnConfigUpdate m) p =
     (case im_OnConfigUpdate impl of
        None \<Rightarrow> (Some (ErrStatus Unimplemented ''plugin does not support config hot reload''), p)
      | Some f \<Rightarrow> f m p)"
| "plugin_step impl Start p = im_Start impl p"
| "plugin_step impl Stop p = im_Stop impl p"
| "plugin_step impl HealthCheck p =
     (case im_HealthCheck impl of None \<Rightarrow> (None, p) | Some f \<Rightarrow> f p)"

fun plugin_run :: "'p plugin_impl \<Rightarrow> plugin_call list \<Rightarrow> 'p \<Rightarrow> go_error option list \<times> 'p" where
  "plugin_run impl [] p = ([], p)"
| "plugin_run impl (call # calls) p =
     (let (e, p) = plugin_step impl call p; (es, p) = plugin_run impl calls p in (e # es, p))"

definition config_map :: "metadata option \<Rightarrow> metadata" where
  "config_map config = (case config of None \<Rightarrow> [] | Some m \<Rightarrow> m)"

definition without_level :: "metadata option \<Rightarrow> metadata option" where
  "without_level config = map_option (AList.delete ConfigKeyLogLevel) config"

definition init_context :: "pluginBase \<Rightarrow> metadata option \<Rightarrow> grpcPluginContext" where
  "init_context b config =
     \<lparr>gpc_config = Some (config_map (without_level config)),
      gpc_coreInvokeBrokerID = pbs_coreInvokeBrokerID b, gpc_host = None\<rparr>"

fun plugin_calls :: "pluginBase \<Rightarrow> core_call list \<Rightarrow> metadata option \<Rightarrow> plugin_call list" where
  "plugin_calls b [] config = []"
| "plugin_calls b (SetConfig c # calls) config = Nothing # plugin_calls b calls c"
| "plugin_calls b (CallInit # calls) config =
     Init (init_context b config) # plugin_calls b calls (without_level config)"
| "plugin_calls b (CallUpdateConfig # calls) config =
     OnConfigUpdate (config_map config) # plugin_calls b calls config"
| "plugin_calls b (CallStart # calls) config = Start # plugin_calls b calls config"
| "plugin_calls b (CallStop # calls) config = Stop # plugin_calls b calls config"
| "plugin_calls b (CallHealthCheck # calls) config = HealthCheck # plugin_calls b calls config"

text \<open>The log levels the process is handed, in order.\<close>

fun handed_levels :: "core_call list \<Rightarrow> metadata option \<Rightarrow> string list" where
  "handed_levels [] config = []"
| "handed_levels (SetConfig c # calls) config = handed_levels calls c"
| "handed_levels (CallInit # calls) config =
     (let l = map_index (config_map config) ConfigKeyLogLevel
      in (if l = [] then [] else [l]) @ handed_levels calls (without_level config))"
| "handed_levels (_ # calls) config = handed_levels calls config"

text \<open>The level and the format of a global logger.\<close>

definition handler_level :: "log_handler \<Rightarrow> level" where
  "handler_level h = (case h of Pretty p \<Rightarrow> ph_minLevel p | JSONHandler l _ \<Rightarrow> l)"

definition logging_of :: "log_handler \<times> string \<Rightarrow> level \<times> string" where
  "logging_of log = (handler_level (fst log), LogFormat (snd log))"

definition logging_after :: "string list \<Rightarrow> level \<times> string \<Rightarrow> level \<times> string" where
  "logging_after levels log = fold (\<lambda>l (_, format). (parseLevel l, format)) levels log"

section \<open>Lemmas\<close>

lemma LogFormat_idem [simp]: "LogFormat (LogFormat f) = LogFormat f"
  by (simp add: LogFormat_def)

lemma LogFormat_nonempty [simp]: "LogFormat f \<noteq> []"
  by (simp add: LogFormat_def)

lemma logging_of_InitLogger [simp]:
  "logging_of (InitLogger module l (LogFormat f) colored) = (parseLevel l, LogFormat f)"
  by (simp add: logging_of_def InitLogger_def handler_level_def ph_WithAttrs_def
      newPrettyHandler_def Let_def)

lemma parseLevel_info: "parseLevel ''info'' = LevelInfo"
  by code_simp

lemma no_level_left [simp]:
  "map_index (config_map (without_level config)) ConfigKeyLogLevel = []"
  by (simp add: without_level_def config_map_def map_index_def AList.delete_conv'
      split: option.split)

lemma without_level_idem: "without_level (without_level config) = without_level config"
  by (simp add: without_level_def AList.delete_idem option.map_comp comp_def)

text \<open>One call, seen from the plugin.\<close>

lemma InitContext_srv_Init:
  "InitContext (\<lambda>req. rpc_step carry (srv_Init impl req)) config b s =
    (let level = map_index (config_map config) ConfigKeyLogLevel;
         (e, p) = im_Init impl (init_context b config) (proc_plugin s)
     in (map_option carry e, without_level config,
         s\<lparr>proc_plugin := p,
           proc_log :=
             (if level = [] then proc_log s
              else InitLogger (''plugin.'' @ pi_ID (im_Info impl (proc_plugin s))) level
                     (LogFormat (snd (proc_log s))) (proc_colored s))\<rparr>))"
  by (cases config) (simp_all add: rpc_step_def InitContext_def srv_Init_def on_plugin_def init_context_def
      config_map_def without_level_def map_index_def Let_def split: prod.split)

lemmas call_defs = rpc_step_def base_UpdateConfig_def base_Start_def base_Stop_def base_HealthCheck_def
  srv_UpdateConfig_def srv_Start_def srv_Stop_def srv_HealthCheck_def on_plugin_def config_map_def

lemma core_step_refines:
  assumes "core_step carry impl b call config s = (e, config', s')"
  shows "apfst (map (map_option carry))
        (plugin_run impl (plugin_calls b (call # calls) config) (proc_plugin s)) =
      apfst ((#) e) (apfst (map (map_option carry))
        (plugin_run impl (plugin_calls b calls config') (proc_plugin s')))
    \<and> logging_after (handed_levels (call # calls) config) (logging_of (proc_log s)) =
      logging_after (handed_levels calls config') (logging_of (proc_log s'))"
proof (cases call)
  case CallInit
  show ?thesis
    using assms
    by (auto simp: CallInit core_step_def InitContext_srv_Init logging_after_def logging_of_def
        [of "proc_log s"] Let_def split: prod.splits if_splits)
qed (use assms in \<open>auto simp: core_step_def call_defs Let_def split: prod.splits option.splits\<close>)

lemma core_run_refines:
  assumes "core_run carry impl b calls config s = (es, config', s')"
  shows "apfst (map (map_option carry)) (plugin_run impl (plugin_calls b calls config) (proc_plugin s)) =
      (es, proc_plugin s')
    \<and> logging_of (proc_log s') =
      logging_after (handed_levels calls config) (logging_of (proc_log s))"
  using assms
proof (induction calls arbitrary: config s es)
  case Nil
  then show ?case by (simp add: logging_after_def)
next
  case (Cons call calls)
  obtain e c s1 where step: "core_step carry impl b call config s = (e, c, s1)"
    by (metis prod_cases3)
  obtain es1 where run: "core_run carry impl b calls c s1 = (es1, config', s')" "es = e # es1"
    using Cons.prems by (auto simp: step split: prod.splits)
  show ?case
    using Cons.IH [OF run(1)] core_step_refines [OF step, of calls] by (simp add: run(2))
qed

lemma logging_after_last:
  "logging_after levels (l, format) = (if levels = [] then l else parseLevel (last levels), format)"
  by (induction levels rule: rev_induct) (simp_all add: logging_after_def)

lemma handed_once:
  "handed_levels (CallInit # CallInit # calls) config = handed_levels (CallInit # calls) config"
  by (simp add: Let_def without_level_idem)

lemma host_of_context:
  assumes "\<And>i. (\<exists>conn. dial i = Inr conn) \<longleftrightarrow> i \<in> bs_id ` set (snd (startCoreInvokeStream broker core))"
    and "broker \<noteq> Some 0"
  shows "fst (context_Host (Some dial) (init_context (base_GRPCClient broker core) c)) \<noteq> None \<longleftrightarrow>
    broker \<noteq> None \<and> core"
  using assms(1) [of "fst (startCoreInvokeStream broker core)"] assms(2)
  by (auto simp: context_Host_def host_once_def init_context_def base_GRPCClient_def initHost_def
      startCoreInvokeStream_def Let_def split: option.splits sum.splits if_splits)

lemma host_asked_once:
  "context_Host d (snd (context_Host d c)) = context_Host d c"
  "fst (HostError d (snd (context_Host d c))) = None \<longleftrightarrow> fst (context_Host d c) \<noteq> None"
  by (auto simp: context_Host_def HostError_def host_once_def Let_def split: option.splits sum.splits)

section \<open>Property\<close>

text \<open>
  C34: A plugin's life end to end. \<^verbatim>\<open>Serve\<close> registers every service the core's client of that kind
  of plugin calls. Whatever calls the core then makes, with whatever configurations, their results
  are those of the plugin's own methods called in its process in the same order (an error as gRPC
  carries it), each Init with
  the configuration less the log level and each update with the whole of it. The process logs as
  text at the last level it was handed, info before that; an initialisation hands the level once
  only, so a second one with the same configuration hands none. The context of every Init offers a
  Host exactly if the core implements calls back, asks for it once and names the error if there is
  none.
\<close>

theorem plugin_process_end_to_end:
  assumes "core_run carry impl b calls config s = (es, config', s')"
    and "b = base_GRPCClient broker core" and "broker \<noteq> Some 0"
    and "\<And>i. (\<exists>conn. dial i = Inr conn) \<longleftrightarrow> i \<in> bs_id ` set (snd (startCoreInvokeStream broker core))"
    and "Serve up tt colored log sv = (proc_log s, Inr cfg)" and "sv_Info_ID sv = Some i"
  shows "apfst (map (map_option carry)) (plugin_run impl (plugin_calls b calls config) (proc_plugin s)) =
      (es, proc_plugin s') \<and>
    logging_of (proc_log s') =
      (if handed_levels calls config = [] then LevelInfo
       else parseLevel (last (handed_levels calls config)), ''text'') \<and>
    handed_levels (CallInit # CallInit # calls) config = handed_levels (CallInit # calls) config \<and>
    (let ctx = init_context b c; (host, ctx') = context_Host (Some dial) ctx
     in (host \<noteq> None) = (broker \<noteq> None \<and> core) \<and>
        (fst (HostError (Some dial) ctx') = None) = (host \<noteq> None) \<and>
        context_Host (Some dial) ctx' = (host, ctx')) \<and>
    set (client_services (fst (sc_Plugin cfg))) \<subseteq> set (snd (sc_Plugin cfg))"
proof -
  have entry: "plugin_entry sv = Some (sc_Plugin cfg)"
    and log: "proc_log s = InitLogger (''plugin.'' @ i) ''info'' ''text'' colored"
    using assms(5,6) by (auto simp: Serve_def split: option.splits)
  have services: "set (client_services (fst (sc_Plugin cfg))) \<subseteq> set (snd (sc_Plugin cfg))"
    by (rule client_services_registered [of sv]) (simp add: entry)
  have "logging_of (proc_log s) = (LevelInfo, ''text'')"
    using logging_of_InitLogger [of "''plugin.'' @ i" "''info''" "[]" colored]
    by (simp add: log LogFormat_def parseLevel_info)
  then show ?thesis
    using core_run_refines [OF assms(1)] services
      host_of_context [OF assms(4,3), of c] host_asked_once [of "Some dial" "init_context b c"]
    by (simp add: logging_after_last handed_once assms(2) Let_def case_prod_beta
        del: handed_levels.simps)
qed

definition example_served :: served where
  "example_served =
     \<lparr>sv_Info_ID = Some ''demo'', sv_Gateway = True, sv_Extension = False, sv_Middleware = False,
      sv_TaskTypes = None\<rparr>"

text \<open>A plugin that counts its calls, initialised at level debug, then again, and started.\<close>

definition example_process :: "nat plugin_process" where
  "example_process =
     \<lparr>proc_plugin = 0, proc_log = fst (Serve (\<lambda>t. t) [] False (Pretty (newPrettyHandler 0 False), [])
                                       example_served), proc_colored = False\<rparr>"

definition example_life :: "core_call list" where
  "example_life =
     [SetConfig (Some [(ConfigKeyLogLevel, ''debug''), (''a'', ''1'')]), CallInit, CallInit, CallStart]"

lemma example_levels: "handed_levels example_life None = [''debug'']"
  by (simp add: example_life_def map_index_def config_map_def without_level_def)

theorem plugin_process_end_to_end_witness:
  "logging_of (proc_log (snd (snd (core_run (\<lambda>e. e) example_impl (base_GRPCClient (Some 5) True)
     example_life None example_process)))) = (LevelDebug, ''text'')"
proof -
  obtain es config' s' where run:
    "core_run (\<lambda>e. e) example_impl (base_GRPCClient (Some 5) True) example_life None example_process =
      (es, config', s')"
    by (metis prod_cases3)
  obtain cfg where cfg: "Serve (\<lambda>t. t) [] False (Pretty (newPrettyHandler 0 False), []) example_served =
      (proc_log example_process, Inr cfg)"
    by (simp add: example_process_def Serve_def example_served_def plugin_entry_def)
  have dial: "(\<exists>conn. (if i = 5 then Inr 1 else Inl EOF) = (Inr conn :: go_error + nat)) \<longleftrightarrow>
      i \<in> bs_id ` set (snd (startCoreInvokeStream (Some 5) True))" for i
    by (simp add: startCoreInvokeStream_def)
  have "parseLevel ''debug'' = LevelDebug" by code_simp
  then show ?thesis
    using plugin_process_end_to_end [OF run refl _ dial cfg, of "''demo''" None]
    by (simp add: run example_levels example_served_def)
qed

end
