(* ===== verification/Spec2Isabelle.thy ===== *)
theory Spec2Isabelle
  imports Outcome Capability AccountPlan Dispatch GatewayClient WireTypes Completion Hooks Logging
    Catalog DevRun DevFailover DevWebSocket TraceCalls ExtResponses Lifecycle
begin

text \<open>
  A verification library for the AirGate plugin SDK (Go). A plugin is a process of its own that
  the AirGate core starts; the SDK gives the plugin's author the types and interfaces
  (\<^verbatim>\<open>sdkgo\<close>), carries every call over gRPC in both directions (\<^verbatim>\<open>runtimego/grpc\<close>), and has a
  development server that plays the core (\<^verbatim>\<open>devkit\<close>).

  \<^bold>\<open>How the program works.\<close> The core picks an account and calls a gateway plugin's Forward, unary
  or as a stream. On the plugin's side a handler turns the message into a request with a response
  writer, runs the plugin, and sends what it wrote and its verdict (an outcome: kind, failover
  scope, upstream response, usage, diagnostics); on the core's side a client writes the data to
  the core's own writer and returns the verdict, from which the core decides whether to replay
  the request on another account or with another model. The same pair of handler and client
  exists for WebSocket connections, extension plugins (HTTP routes, background tasks), middleware
  hooks, events, and the plugin's life cycle. In the other direction the plugin calls the core's
  Host, over which the runtime-state client works. Request traces collect diagnostics of the
  upstream calls a plugin makes.

  \<^bold>\<open>Conventions\<close> (theory \<open>Prelude\<close>). A string or byte slice is a \<open>string\<close> whose characters are
  bytes; machine integers are words with Go's wrap-around and conversions; a Go map is an
  association list in iteration order; a nil-able pointer is an option; an error is a value of
  \<open>go_error\<close>, a fallible call returns a sum or a pair as in the source. State is passed
  explicitly, one record per Go struct. A stream is the list of what \<^verbatim>\<open>Recv\<close> returns, and a log
  of the messages sent with the result of each \<^verbatim>\<open>Send\<close>. A plugin or a handler is a program
  (\<open>writer_prog\<close>, \<open>ws_prog\<close>): a tree of calls whose continuations see the results, so a theorem
  about all programs is one about all plugins that use the interface from one goroutine, which is
  the SDK's contract.

  \<^bold>\<open>Theories and sources.\<close>
    \<^item> \<open>Outcome\<close>: \<^verbatim>\<open>sdkgo/outcome.go\<close>, \<^verbatim>\<open>billing.go\<close>. Verdicts, when they ask for a replay, quotes.
    \<^item> \<open>Capability\<close>, \<open>AccountPlan\<close>, \<open>Models\<close>, \<open>Dispatch\<close>, \<open>Declarations\<close>, \<open>Catalog\<close>: what a plugin
      declares (\<^verbatim>\<open>sdkgo/capability.go\<close>, \<^verbatim>\<open>account_plan.go\<close>, \<^verbatim>\<open>models.go\<close>, \<^verbatim>\<open>dispatch.go\<close>,
      \<^verbatim>\<open>plugin.go\<close>, \<^verbatim>\<open>schema.go\<close>), its conversions and the core's caches (\<^verbatim>\<open>runtimego/grpc/common.go\<close>,
      \<^verbatim>\<open>schema.go\<close>, \<^verbatim>\<open>account_plan.go\<close>, \<^verbatim>\<open>catalog.go\<close>, parts of \<^verbatim>\<open>gateway_client.go\<close>).
    \<^item> \<open>Codec\<close>: the interface \<open>wire_codec\<close>, decoding after encoding is a view; every pair of
      conversions interprets it. \<open>OutcomeConv\<close>, \<open>ForwardRequest\<close>: the conversions of verdicts and
      requests (\<^verbatim>\<open>gateway_server.go\<close>, \<^verbatim>\<open>gateway_client.go\<close>).
    \<^item> \<open>Writer\<close>: response writers as an interface (\<open>response_writer\<close>) and programs over them.
      \<open>StreamWriter\<close>, \<open>GatewayServer\<close>, \<open>GatewayClient\<close>: the plugin's handlers with their two writers,
      the core's receiving loop (\<open>client_writer\<close>), and both together end to end. \<open>Completion\<close>: the
      walk through wrapped writers (\<^verbatim>\<open>sdkgo/stream_completion.go\<close>). \<open>WebSocket\<close>: both sides of a
      WebSocket call (\<^verbatim>\<open>ws_server.go\<close>, \<^verbatim>\<open>gateway_client.go\<close>). \<open>WireTypes\<close>: which verdicts and usages a
      decoded message can hold, whatever the sender wrote.
    \<^item> \<open>ExtRouter\<close>, \<open>Extension\<close>, \<open>ExtResponses\<close>: routing, requests and tasks of extension plugins
      (\<^verbatim>\<open>extension_router.go\<close>, \<^verbatim>\<open>extension_server.go\<close>, \<^verbatim>\<open>extension_client.go\<close>).
    \<^item> \<open>Hooks\<close>: events, middleware, the Host client (\<^verbatim>\<open>event_server.go\<close>, \<^verbatim>\<open>middleware_*.go\<close>,
      \<^verbatim>\<open>host_client.go\<close>, \<^verbatim>\<open>json_payload.go\<close>). \<open>PluginService\<close>, \<open>Serving\<close>: life cycle, configuration and
      runtime control (\<^verbatim>\<open>plugin_server.go\<close>, \<^verbatim>\<open>common.go\<close>, \<^verbatim>\<open>runtime.go\<close>, \<^verbatim>\<open>context.go\<close>) and how a
      plugin process is put together (\<^verbatim>\<open>go_plugin.go\<close>, \<^verbatim>\<open>handshake.go\<close>). \<open>Lifecycle\<close>: sequences of
      the core's life-cycle calls against the plugin's own.
    \<^item> \<open>RuntimeState\<close>: the client of \<^verbatim>\<open>sdkgo/runtime_state.go\<close>, the Host interface and the test host
      of \<^verbatim>\<open>devkit/testhost/state.go\<close>, which interprets the interface \<open>state_provider\<close>.
    \<^item> \<open>Sse\<close>, \<open>Trace\<close>, \<open>TraceCalls\<close>: \<^verbatim>\<open>sdkgo/requesttrace\<close>: the event-stream observer with its
      reference reader, captures and exchanges as a transition system, and attempts from Start
      to Finish, through the round tripper or by hand.
    \<^item> \<open>Logging\<close>: \<^verbatim>\<open>sdkgo/log.go\<close>, \<^verbatim>\<open>log_pretty.go\<close>, \<^verbatim>\<open>logging_interceptor.go\<close>,
      \<^verbatim>\<open>devkit/devserver/logger.go\<close>. \<open>Strconv\<close>: the number and path functions of Go's library that
      the components use.
    \<^item> \<open>Accounts\<close>, \<open>Scheduler\<close>, \<open>DevProxy\<close>, \<open>DevFailover\<close>, \<open>DevWebSocket\<close>, \<open>DevServer\<close>, \<open>DevRun\<close>: the development
      server (\<^verbatim>\<open>devkit/devserver\<close>): account store and its API, weighted round robin, failover
      proxy, assets, and Run from its settings to the routes it mounts. \<open>Mux\<close>: the multiplexer of
      Go's library that dispatches them.

  \<^bold>\<open>What the theorems show.\<close> End-to-end theorems put a handler and a client together: a stream
  delivers the plugin's bytes in order with its verdict or fails without asking for a replay; a
  unary call gives the core what the plugin's own run on a buffer gives; the response's head
  survives; WebSocket messages, extension responses, hooks, runtime callbacks,
  tasks, declarations and the catalog arrive as sent, up to a view that each theorem names (milliseconds,
  32-bit statuses), and any sequence of life-cycle calls is the plugin's own. Typing: whatever a peer sends decodes to a verdict of a known kind with
  counters of their width. Invariants: accepted account plans are normal, a scheduler request changes one
  thing, a traced attempt is published once and a finished trace retains nothing. Refinements: the account API is a finite map, the
  incremental observer is a reader of the whole text. Bounds: message sizes, the observer's
  budget. Termination and liveness: the walk through wrappers, one quiet attempt for an Update,
  a failover that reaches every account if verdicts rest them.
  Safety: an Update is atomic and a value is taken once, whatever other clients do; a log line
  cannot be forged by a value. The development server sends each path to the handler its
  registrations name. Some theorems state behaviour the source does not intend (the list of
  findings beside the library names them): the development scheduler's retry rule and failover,
  concatenated streamed attempts, a WebSocket verdict lost after a close, a response head lost
  without a body, the log level lost by a second initialisation
  or a hot reload, error values that lose their identity on the way, a request id that does not reach the
  log, an invalidation undone by a fetch under way, a route of one path element redirected by
  the development server and a clash of asset routes that stops it, wrapped durations.

  \<^bold>\<open>Parameters and bounds.\<close> Third-party packages and parts of the library with large behaviour are
  parameters with the laws the code relies on as named predicates: JSON (\<open>creds_json\<close>,
  \<open>payload_json\<close>, the \<open>runtime_json\<close> record), gRPC transport (the fate of every \<^verbatim>\<open>Send\<close>, the
  error the caller gets for a handler's, message sizes, \<open>delivers_metadata\<close>), content-type detection, formatting (\<open>clean_formats\<close>), clocks and
  fresh ids. Loops are structural or have a measure; retry loops carry the source's own limits
  as counters (16 attempts of an Update, one attempt per account in the proxy, 32 unwrappings), so no fuel is
  added.

  \<^bold>\<open>Not modelled.\<close> Log calls inside handlers, timeouts and deadlines of RPCs, memory sharing of
  slices, the go-plugin, gRPC and WebSocket packages, and generated protobuf code. Flag values,
  the file system, the listening socket and the parsers of floats and durations are parameters;
  the multiplexer leaves out CONNECT requests, escaped paths and wildcard patterns, which the
  development server does not register. Concurrency is modelled where the source shares state between
  goroutines or clients: captures of a trace, clients of the runtime state, the catalog's cache;
  the two goroutines of a WebSocket call share the connection and the context only, so each
  is a function.
\<close>

end
